(* ===== verification/Prelude.thy ===== *)
theory Prelude
  imports Main "HOL-Library.Sublist" "HOL-Library.Word"
begin

text \<open>
  Shared ground of the development: the collections of rewrite rules the component
  theories fill, the time units of the Go source and a few generic facts about lists
  and results.

  \<^item> A \<open>time.Time\<close> is an \<open>int\<close> (nanoseconds on one clock) and a \<open>time.Duration\<close> is an
    \<open>int\<close> number of nanoseconds, as in the source.
  \<^item> A Go \<open>(value, error)\<close> pair is a value of \<open>error + 'a\<close>: \<open>Inl\<close> is a non-nil error.
  \<^item> A Go string is a list of bytes, that is a HOL \<open>string\<close>.
\<close>

section \<open>Collections of hints\<close>

named_theorems prims \<open>what the primitives of the environment do to each field\<close>
named_theorems frame \<open>fields an operation leaves alone\<close>
named_theorems mono_clock \<open>operations never move the clock backwards\<close>
named_theorems bytes \<open>facts about Go byte strings\<close>
named_theorems evals \<open>evaluation of the operations on concrete inputs\<close>

section \<open>Time units\<close>

type_synonym duration = int

type_synonym gotime = int

definition millisecond :: duration where
  "millisecond = 1000000"

definition second :: duration where
  "second = 1000 * millisecond"

definition minute :: duration where
  "minute = 60 * second"

definition hour :: duration where
  "hour = 60 * minute"

lemmas time_units = hour_def minute_def second_def millisecond_def

lemma second_pos [simp]: "0 < second"
  by (simp add: time_units)

lemma millisecond_pos [simp]: "0 < millisecond"
  by (simp add: time_units)

section \<open>Results\<close>

definition is_ok :: "'e + 'a \<Rightarrow> bool" where
  "is_ok r = (case r of Inl _ \<Rightarrow> False | Inr _ \<Rightarrow> True)"

lemma is_ok_simps [simp]: "is_ok (Inl e) = False" "is_ok (Inr x) = True"
  by (simp_all add: is_ok_def)

lemma is_ok_iff: "is_ok r \<longleftrightarrow> (\<exists>x. r = Inr x)"
  by (cases r) simp_all

lemma not_is_ok_iff: "\<not> is_ok r \<longleftrightarrow> (\<exists>e. r = Inl e)"
  by (cases r) simp_all

lemma is_ok_unit: "is_ok r \<longleftrightarrow> r = Inr ()"
  by (cases r) simp_all

section \<open>Lists\<close>

text \<open>A list property that says every \<open>P\<close> is preceded by a \<open>Q\<close>.\<close>

fun preceded :: "('a \<Rightarrow> bool) \<Rightarrow> ('a \<Rightarrow> bool) \<Rightarrow> 'a list \<Rightarrow> bool" where
  "preceded P Q [] = True"
| "preceded P Q (x # xs) = (\<not> P x \<and> (Q x \<or> preceded P Q xs))"

lemma preceded_iff:
  "preceded P Q xs \<longleftrightarrow>
     (\<forall>ys x zs. xs = ys @ x # zs \<and> P x \<longrightarrow> (\<exists>y \<in> set ys. Q y))"
proof (induction xs)
  case Nil
  then show ?case by simp
next
  case (Cons a xs)
  show ?case
  proof (intro iffI allI impI)
    fix ys x zs
    assume pre: "preceded P Q (a # xs)" and eq: "a # xs = ys @ x # zs \<and> P x"
    from pre eq obtain ys' where ys: "ys = a # ys'" "xs = ys' @ x # zs"
      by (cases ys) auto
    show "\<exists>y \<in> set ys. Q y"
    proof (cases "Q a")
      case True
      then show ?thesis by (simp add: ys)
    next
      case False
      with pre have "preceded P Q xs" by simp
      with Cons.IH ys eq have "\<exists>y \<in> set ys'. Q y" by blast
      then show ?thesis by (auto simp: ys)
    qed
  next
    assume all: "\<forall>ys x zs. a # xs = ys @ x # zs \<and> P x \<longrightarrow> (\<exists>y \<in> set ys. Q y)"
    then have "\<not> P a" by fastforce
    moreover have "Q a \<or> preceded P Q xs"
    proof (cases "Q a")
      case False
      have "preceded P Q xs"
      proof (subst Cons.IH, intro allI impI)
        fix ys x zs
        assume "xs = ys @ x # zs \<and> P x"
        then have "\<exists>y \<in> set (a # ys). Q y" using all by (metis append_Cons)
        with False show "\<exists>y \<in> set ys. Q y" by simp
      qed
      then show ?thesis ..
    qed simp
    ultimately show "preceded P Q (a # xs)" by simp
  qed
qed

lemma preceded_append_free:
  "\<forall>x \<in> set xs. \<not> P x \<Longrightarrow> preceded P Q ys \<Longrightarrow> preceded P Q (xs @ ys)"
  by (induction xs) auto

lemma preceded_append_after:
  "\<forall>x \<in> set xs. \<not> P x \<Longrightarrow> \<exists>x \<in> set xs. Q x \<Longrightarrow> preceded P Q (xs @ ys)"
  by (induction xs) auto

lemma preceded_none: "\<forall>x \<in> set xs. \<not> P x \<Longrightarrow> preceded P Q xs"
  by (induction xs) auto

text \<open>Filtering a suffix of a history that is the only part that can still matter.\<close>

lemma filter_filter_weaker:
  "(\<And>x. P x \<Longrightarrow> Q x) \<Longrightarrow> filter P (filter Q xs) = filter P xs"
  by (induction xs) auto

text \<open>An element that does not occur in a prefix comes after the whole prefix.\<close>

lemma split_after_prefix:
  assumes "A @ B = ys @ x # zs" and "x \<notin> set A"
  shows "\<exists>C. ys = A @ C"
proof -
  from assms(1) consider C where "ys = A @ C" | C where "A = ys @ C" "C @ B = x # zs"
    by (auto simp: append_eq_append_conv2)
  then show ?thesis
  proof cases
    case 1
    then show ?thesis by blast
  next
    case 2
    with assms(2) show ?thesis by (cases C) auto
  qed
qed

end
