(* ===== verification/GoStrings.thy ===== *)
theory GoStrings
  imports Prelude
begin

text \<open>
  The functions of Go's \<open>strings\<close> and \<open>strconv\<close> packages that the source calls, on byte
  lists. They keep their Go names. \<open>TrimSpace\<close> works on the UTF-8 encodings of every code
  point \<open>unicode.IsSpace\<close> accepts; \<open>ToUpper\<close> and \<open>ToLower\<close> follow Go's ASCII fast path and
  take the Unicode mapping of a string with a byte above 0x7F as a parameter.
\<close>

section \<open>Prefixes, suffixes and substrings\<close>

definition HasPrefix :: "string \<Rightarrow> string \<Rightarrow> bool" where
  "HasPrefix s p = prefix p s"

definition HasSuffix :: "string \<Rightarrow> string \<Rightarrow> bool" where
  "HasSuffix s p = (prefix (rev p) (rev s))"

definition TrimPrefix :: "string \<Rightarrow> string \<Rightarrow> string" where
  "TrimPrefix s p = (if HasPrefix s p then drop (length p) s else s)"

definition TrimSuffix :: "string \<Rightarrow> string \<Rightarrow> string" where
  "TrimSuffix s p = (if HasSuffix s p then take (length s - length p) s else s)"

fun Contains :: "string \<Rightarrow> string \<Rightarrow> bool" where
  "Contains [] t = (t = [])"
| "Contains (c # s) t = (prefix t (c # s) \<or> Contains s t)"

fun Index :: "string \<Rightarrow> string \<Rightarrow> nat option" where
  "Index [] t = (if t = [] then Some 0 else None)"
| "Index (c # s) t = (if prefix t (c # s) then Some 0 else map_option Suc (Index s t))"

definition ContainsAny :: "string \<Rightarrow> string \<Rightarrow> bool" where
  "ContainsAny s cs = (\<exists>c \<in> set s. c \<in> set cs)"

lemma HasPrefix_iff: "HasPrefix s p \<longleftrightarrow> (\<exists>r. s = p @ r)"
  by (auto simp: HasPrefix_def prefix_def)

lemma HasSuffix_iff: "HasSuffix s p \<longleftrightarrow> (\<exists>r. s = r @ p)"
proof -
  have "HasSuffix s p \<longleftrightarrow> (\<exists>r. rev s = rev p @ r)"
    by (simp add: HasSuffix_def prefix_def)
  also have "\<dots> \<longleftrightarrow> (\<exists>r. s = r @ p)"
    by (metis rev_append rev_rev_ident)
  finally show ?thesis .
qed

lemma HasPrefix_append [simp, bytes]: "HasPrefix (p @ r) p"
  by (simp add: HasPrefix_def)

lemma HasSuffix_append [simp, bytes]: "HasSuffix (r @ p) p"
  by (auto simp: HasSuffix_iff)

lemma TrimPrefix_append [simp, bytes]: "TrimPrefix (p @ r) p = r"
  by (simp add: TrimPrefix_def)

lemma TrimSuffix_append [simp, bytes]: "TrimSuffix (r @ p) p = r"
  by (simp add: TrimSuffix_def)

lemma Contains_iff: "Contains s t \<longleftrightarrow> (\<exists>u v. s = u @ t @ v)"
proof (induction s)
  case Nil
  then show ?case by auto
next
  case (Cons c s)
  show ?case
  proof
    assume "Contains (c # s) t"
    then consider "prefix t (c # s)" | "Contains s t" by auto
    then show "\<exists>u v. c # s = u @ t @ v"
    proof cases
      case 1
      then show ?thesis by (auto simp: prefix_def intro: exI [of _ "[]"])
    next
      case 2
      with Cons.IH obtain u v where "s = u @ t @ v" by blast
      then show ?thesis by (intro exI [of _ "c # u"] exI [of _ v]) simp
    qed
  next
    assume "\<exists>u v. c # s = u @ t @ v"
    then obtain u v where uv: "c # s = u @ t @ v" by blast
    then show "Contains (c # s) t"
    proof (cases u)
      case Nil
      with uv have "prefix t (c # s)" by (auto simp: prefix_def)
      then show ?thesis by simp
    next
      case (Cons d u')
      with uv have "s = u' @ t @ v" by simp
      with \<open>(Contains s t) = _\<close> have "Contains s t" by blast
      then show ?thesis by simp
    qed
  qed
qed

section \<open>Splitting, joining and replacing\<close>

text \<open>\<open>strings.Split(s, sep)\<close> and \<open>strings.Join\<close> for a separator of one byte.\<close>

fun Split :: "string \<Rightarrow> char \<Rightarrow> string list" where
  "Split [] d = [[]]"
| "Split (c # s) d =
     (if c = d then [] # Split s d
      else (case Split s d of [] \<Rightarrow> [[c]] | l # ls \<Rightarrow> (c # l) # ls))"

fun Join :: "string list \<Rightarrow> string \<Rightarrow> string" where
  "Join [] sep = []"
| "Join [l] sep = l"
| "Join (l # k # ls) sep = l @ sep @ Join (k # ls) sep"

lemma Split_not_Nil [simp, bytes]: "Split s d \<noteq> []"
  by (cases s) (auto split: list.splits)

lemma Join_Split [bytes]: "Join (Split s d) [d] = s"
proof (induction s)
  case Nil
  then show ?case by simp
next
  case (Cons c s)
  obtain l ls where sp: "Split s d = l # ls" by (cases "Split s d") auto
  with Cons.IH have "Join (l # ls) [d] = s" by simp
  then show ?case by (cases ls) (auto simp: sp)
qed

lemma Split_no_sep: "d \<notin> set l \<Longrightarrow> Split l d = [l]"
  by (induction l) auto

lemma Split_append_sep: "d \<notin> set l \<Longrightarrow> Split (l @ d # s) d = l # Split s d"
  by (induction l) auto

lemma Split_Join [bytes]:
  "ls \<noteq> [] \<Longrightarrow> \<forall>l \<in> set ls. d \<notin> set l \<Longrightarrow> Split (Join ls [d]) d = ls"
  by (induction ls "[d]" rule: Join.induct) (auto simp: Split_no_sep Split_append_sep)

lemma Split_pieces: "l \<in> set (Split s d) \<Longrightarrow> d \<notin> set l"
proof (induction s arbitrary: l)
  case Nil
  then show ?case by simp
next
  case (Cons c s)
  then show ?case by (cases "Split s d") (auto split: if_splits)
qed

text \<open>\<open>strings.ReplaceAll(s, old, new)\<close> for an \<open>old\<close> of one byte.\<close>

definition ReplaceAll :: "string \<Rightarrow> char \<Rightarrow> string \<Rightarrow> string" where
  "ReplaceAll s c r = concat (map (\<lambda>x. if x = c then r else [x]) s)"

lemma ReplaceAll_Nil [simp]: "ReplaceAll [] c r = []"
  by (simp add: ReplaceAll_def)

lemma ReplaceAll_Cons [simp]:
  "ReplaceAll (x # s) c r = (if x = c then r else [x]) @ ReplaceAll s c r"
  by (simp add: ReplaceAll_def)

section \<open>White space\<close>

text \<open>The UTF-8 encodings of the code points for which \<open>unicode.IsSpace\<close> holds.\<close>

definition space_encodings :: "string list" where
  "space_encodings =
     [[CHR 0x09], [CHR 0x0A], [CHR 0x0B], [CHR 0x0C], [CHR 0x0D], [CHR 0x20],
      [CHR 0xC2, CHR 0x85], [CHR 0xC2, CHR 0xA0], [CHR 0xE1, CHR 0x9A, CHR 0x80],
      [CHR 0xE2, CHR 0x80, CHR 0x80], [CHR 0xE2, CHR 0x80, CHR 0x81],
      [CHR 0xE2, CHR 0x80, CHR 0x82], [CHR 0xE2, CHR 0x80, CHR 0x83],
      [CHR 0xE2, CHR 0x80, CHR 0x84], [CHR 0xE2, CHR 0x80, CHR 0x85],
      [CHR 0xE2, CHR 0x80, CHR 0x86], [CHR 0xE2, CHR 0x80, CHR 0x87],
      [CHR 0xE2, CHR 0x80, CHR 0x88], [CHR 0xE2, CHR 0x80, CHR 0x89],
      [CHR 0xE2, CHR 0x80, CHR 0x8A], [CHR 0xE2, CHR 0x80, CHR 0xA8],
      [CHR 0xE2, CHR 0x80, CHR 0xA9], [CHR 0xE2, CHR 0x80, CHR 0xAF],
      [CHR 0xE2, CHR 0x81, CHR 0x9F], [CHR 0xE3, CHR 0x80, CHR 0x80]]"

text \<open>
  Strips from the front every encoding of a list of codes, none of them empty; the loop
  shortens the string in each turn.
\<close>

function strip_codes :: "string list \<Rightarrow> string \<Rightarrow> string" where
  "strip_codes es s =
     (case find (\<lambda>e. e \<noteq> [] \<and> prefix e s) es of
        None \<Rightarrow> s
      | Some e \<Rightarrow> strip_codes es (drop (length e) s))"
  by pat_completeness auto
termination
  by (relation "measure (\<lambda>(es, s). length s)")
     (auto simp: find_Some_iff prefix_def)

declare strip_codes.simps [simp del]

definition TrimSpace :: "string \<Rightarrow> string" where
  "TrimSpace s =
     rev (strip_codes (map rev space_encodings)
       (rev (strip_codes space_encodings s)))"

lemma strip_codes_none:
  "\<forall>e \<in> set es. \<not> prefix e s \<Longrightarrow> strip_codes es s = s"
  by (subst strip_codes.simps) (auto split: option.splits simp: find_Some_iff)

lemma strip_codes_suffix: "\<exists>r. s = r @ strip_codes es s"
proof (induction es s rule: strip_codes.induct)
  case (1 es s)
  show ?case
  proof (cases "find (\<lambda>e. e \<noteq> [] \<and> prefix e s) es")
    case None
    then show ?thesis by (subst strip_codes.simps) simp
  next
    case (Some e)
    with "1.IH" obtain r where r: "drop (length e) s = r @ strip_codes es (drop (length e) s)"
      by blast
    have "s = take (length e) s @ r @ strip_codes es (drop (length e) s)"
      by (subst r [symmetric]) simp
    then have "s = (take (length e) s @ r) @ strip_codes es s"
      using Some by (simp add: strip_codes.simps [of es s])
    then show ?thesis by blast
  qed
qed

text \<open>A string that starts and ends with an ordinary byte is its own trimming.\<close>

definition plain_byte :: "char \<Rightarrow> bool" where
  "plain_byte c =
     (\<forall>e \<in> set space_encodings. e \<noteq> [] \<and> hd e \<noteq> c \<and> last e \<noteq> c)"

lemma TrimSpace_plain:
  assumes "s \<noteq> []" and "plain_byte (hd s)" and "plain_byte (last s)"
  shows "TrimSpace s = s"
proof -
  have "\<forall>e \<in> set space_encodings. \<not> prefix e s"
    using assms(1,2) by (auto simp: plain_byte_def prefix_def hd_append)
  then have left: "strip_codes space_encodings s = s"
    by (rule strip_codes_none)
  have "\<forall>e \<in> set (map rev space_encodings). \<not> prefix e (rev s)"
  proof
    fix e assume "e \<in> set (map rev space_encodings)"
    then obtain f where f: "f \<in> set space_encodings" "e = rev f" by auto
    show "\<not> prefix e (rev s)"
    proof
      assume "prefix e (rev s)"
      then obtain t where "rev s = rev f @ t" by (auto simp: f prefix_def)
      then have "s = rev t @ f" by (metis rev_append rev_rev_ident)
      with f(1) assms(3) show False by (auto simp: plain_byte_def)
    qed
  qed
  then have "strip_codes (map rev space_encodings) (rev s) = rev s"
    by (rule strip_codes_none)
  with left show ?thesis by (simp add: TrimSpace_def)
qed

text \<open>
  \<open>strings.Fields\<close>: the maximal runs without white space. Encodings of white space start
  with a byte that only starts a rune, so the scan may go byte by byte.
\<close>

definition space_length :: "string \<Rightarrow> nat" where
  "space_length s =
     (case find (\<lambda>e. prefix e s) space_encodings of None \<Rightarrow> 0 | Some e \<Rightarrow> length e)"

function fields_from :: "string \<Rightarrow> string \<Rightarrow> string list" where
  "fields_from cur [] = (if cur = [] then [] else [rev cur])"
| "fields_from cur (c # s) =
     (let n = space_length (c # s)
      in if n = 0 then fields_from (c # cur) s
         else (if cur = [] then [] else [rev cur]) @ fields_from [] (drop n (c # s)))"
  by pat_completeness auto
termination
  by (relation "measure (\<lambda>(cur, s). length s)") auto

definition Fields :: "string \<Rightarrow> string list" where
  "Fields s = fields_from [] s"

section \<open>Case mapping\<close>

definition ascii_upper :: "char \<Rightarrow> char" where
  "ascii_upper c = (if 97 \<le> (of_char c :: nat) \<and> (of_char c :: nat) \<le> 122
                    then char_of ((of_char c :: nat) - 32) else c)"

definition ascii_lower :: "char \<Rightarrow> char" where
  "ascii_lower c = (if 65 \<le> (of_char c :: nat) \<and> (of_char c :: nat) \<le> 90
                    then char_of ((of_char c :: nat) + 32) else c)"

definition is_ascii :: "string \<Rightarrow> bool" where
  "is_ascii s = (\<forall>c \<in> set s. (of_char c :: nat) < 128)"

text \<open>\<open>uni\<close> stands for \<open>unicode.ToUpper\<close> (\<open>ToLower\<close>) mapped over a non-ASCII string.\<close>

definition ToUpper :: "(string \<Rightarrow> string) \<Rightarrow> string \<Rightarrow> string" where
  "ToUpper uni s = (if is_ascii s then map ascii_upper s else uni s)"

definition ToLower :: "(string \<Rightarrow> string) \<Rightarrow> string \<Rightarrow> string" where
  "ToLower uni s = (if is_ascii s then map ascii_lower s else uni s)"

section \<open>Numbers\<close>

definition digit :: "nat \<Rightarrow> char" where
  "digit d = char_of (48 + d)"

fun nat_digits :: "nat \<Rightarrow> string" where
  "nat_digits n = (if n < 10 then [digit n] else nat_digits (n div 10) @ [digit (n mod 10)])"

declare nat_digits.simps [simp del]

definition Itoa :: "int \<Rightarrow> string" where
  "Itoa i = (if i < 0 then CHR ''-'' # nat_digits (nat (- i)) else nat_digits (nat i))"

definition digit_val :: "char \<Rightarrow> nat option" where
  "digit_val c = (let n = (of_char c :: nat) in if 48 \<le> n \<and> n \<le> 57 then Some (n - 48) else None)"

fun digits_val :: "string \<Rightarrow> nat \<Rightarrow> nat option" where
  "digits_val [] acc = Some acc"
| "digits_val (c # s) acc =
     (case digit_val c of None \<Rightarrow> None | Some d \<Rightarrow> digits_val s (10 * acc + d))"

text \<open>
  \<open>strconv.Atoi\<close> on a 64-bit platform: an optional sign, one or more decimal digits, and a
  value in the range of \<open>int64\<close>; \<open>None\<close> is a syntax or range error.
\<close>

definition Atoi :: "string \<Rightarrow> int option" where
  "Atoi s =
     (let (neg, ds) =
        (case s of
           [] \<Rightarrow> (False, [])
         | c # r \<Rightarrow> if c = CHR ''-'' then (True, r) else if c = CHR ''+'' then (False, r)
                    else (False, s))
      in if ds = [] then None
         else (case digits_val ds 0 of
                 None \<Rightarrow> None
               | Some n \<Rightarrow>
                   (if neg then (if n \<le> 2 ^ 63 then Some (- int n) else None)
                    else (if n < 2 ^ 63 then Some (int n) else None))))"

definition ParseBool :: "string \<Rightarrow> bool option" where
  "ParseBool s =
     (if s \<in> {''1'', ''t'', ''T'', ''TRUE'', ''true'', ''True''} then Some True
      else if s \<in> {''0'', ''f'', ''F'', ''FALSE'', ''false'', ''False''} then Some False
      else None)"

lemma digit_val_digit: "d < 10 \<Longrightarrow> digit_val (digit d) = Some d"
  by (simp add: digit_val_def digit_def)

lemma digits_val_append:
  "digits_val (xs @ ys) a = (case digits_val xs a of None \<Rightarrow> None | Some b \<Rightarrow> digits_val ys b)"
  by (induction xs arbitrary: a) (auto split: option.splits)

lemma digits_val_nat_digits: "digits_val (nat_digits n) 0 = Some n"
proof (induction n rule: nat_digits.induct)
  case (1 n)
  show ?case
  proof (cases "n < 10")
    case True
    then show ?thesis by (subst nat_digits.simps) (simp add: digit_val_digit)
  next
    case False
    with 1 show ?thesis
      by (subst nat_digits.simps) (simp add: digits_val_append digit_val_digit)
  qed
qed

lemma nat_digits_not_Nil [simp]: "nat_digits n \<noteq> []"
  by (subst nat_digits.simps) simp

lemma nat_digits_range: "c \<in> set (nat_digits n) \<Longrightarrow> \<exists>d < 10. c = digit d"
proof (induction n rule: nat_digits.induct)
  case (1 n)
  then show ?case
    by (subst (asm) nat_digits.simps) (auto split: if_splits intro: exI [of _ "n mod 10"])
qed

lemma nat_digits_hd: "\<exists>d < 10. hd (nat_digits n) = digit d"
  using nat_digits_range [of "hd (nat_digits n)" n] by simp

text \<open>Printing and parsing an \<open>int\<close> in the 64-bit range are inverse.\<close>

lemma Atoi_Itoa:
  assumes "- (2 ^ 63) \<le> i" and "i < 2 ^ 63"
  shows "Atoi (Itoa i) = Some i"
proof (cases "i < 0")
  case True
  then have "nat (- i) \<le> 2 ^ 63" and "int (nat (- i)) = - i"
    using assms(1) by auto
  with True show ?thesis by (simp add: Atoi_def Itoa_def digits_val_nat_digits)
next
  case False
  obtain d where d: "d < 10" "hd (nat_digits (nat i)) = digit d"
    using nat_digits_hd by blast
  obtain c r where cr: "nat_digits (nat i) = c # r"
    by (cases "nat_digits (nat i)") auto
  have "digit_val c = Some d"
    using d cr by (simp add: digit_val_digit)
  then have "c \<noteq> CHR ''-''" "c \<noteq> CHR ''+''"
    by (auto simp: digit_val_def Let_def)
  moreover have "digits_val (c # r) 0 = Some (nat i)"
    using digits_val_nat_digits [of "nat i"] cr by simp
  moreover have "nat i < 2 ^ 63" using assms(2) False by auto
  ultimately show ?thesis
    using False cr by (simp add: Atoi_def Itoa_def)
qed

end
