(* ===== verification/Filepath.thy ===== *)
theory Filepath
  imports GoStrings
begin

text \<open>
  The functions of Go's \<open>path/filepath\<close> the source calls, for Unix paths: \<open>Clean\<close> and
  \<open>Join\<close> process a path element by element, \<open>Base\<close>, \<open>Dir\<close> and \<open>Ext\<close> cut it at its last
  separator. A file store is a map from paths to contents and permission bits.
\<close>

type_synonym fs = "string \<Rightarrow> (string \<times> int) option"

definition slash :: char where
  "slash = CHR ''/''"

text \<open>One element of a path, against the elements kept so far (last one first).\<close>

definition clean_step :: "bool \<Rightarrow> string \<Rightarrow> string list \<Rightarrow> string list" where
  "clean_step rooted e kept =
     (if e = [] \<or> e = ''.'' then kept
      else if e = ''..'' then
        (case kept of
           [] \<Rightarrow> if rooted then [] else [e]
         | k # ks \<Rightarrow> if k = ''..'' then e # kept else ks)
      else e # kept)"

definition Clean :: "string \<Rightarrow> string" where
  "Clean p =
     (if p = [] then ''.''
      else
        (let rooted = (hd p = slash);
             body = Join (rev (fold (clean_step rooted) (Split p slash) [])) [slash]
         in if rooted then slash # body else if body = [] then ''.'' else body))"

definition JoinPath :: "string list \<Rightarrow> string" where
  "JoinPath es =
     (let ne = filter (\<lambda>e. e \<noteq> []) es
      in if ne = [] then [] else Clean (Join ne [slash]))"

definition strip_slashes :: "string \<Rightarrow> string" where
  "strip_slashes p = rev (dropWhile (\<lambda>c. c = slash) (rev p))"

definition last_element :: "string \<Rightarrow> string" where
  "last_element p = rev (takeWhile (\<lambda>c. c \<noteq> slash) (rev p))"

definition Base :: "string \<Rightarrow> string" where
  "Base p =
     (if p = [] then ''.''
      else (let q = last_element (strip_slashes p) in if q = [] then [slash] else q))"

definition Dir :: "string \<Rightarrow> string" where
  "Dir p = Clean (take (length p - length (last_element p)) p)"

definition Ext :: "string \<Rightarrow> string" where
  "Ext p =
     (let e = last_element p; r = takeWhile (\<lambda>c. c \<noteq> CHR ''.'') (rev e)
      in if length r = length e then [] else CHR ''.'' # rev r)"

text \<open>A name with no separator that is not a dot element stays as it is.\<close>

definition simple_name :: "string \<Rightarrow> bool" where
  "simple_name e = (e \<noteq> [] \<and> e \<noteq> ''.'' \<and> e \<noteq> ''..'' \<and> slash \<notin> set e)"

lemma last_element_no_slash: "slash \<notin> set (last_element p)"
  by (auto simp: last_element_def dest: set_takeWhileD)

lemma clean_step_simple [simp]: "simple_name e \<Longrightarrow> clean_step b e ks = e # ks"
  by (simp add: clean_step_def simple_name_def)

lemma fold_clean_simple:
  "\<forall>e \<in> set es. simple_name e \<Longrightarrow> fold (clean_step b) es ks = rev es @ ks"
  by (induction es arbitrary: ks) auto

text \<open>Writing a file: a new file gets the permission bits, an existing one keeps its own.\<close>

definition write_file :: "string \<Rightarrow> string \<Rightarrow> int \<Rightarrow> fs \<Rightarrow> fs" where
  "write_file p content perm f =
     f(p \<mapsto> (content, case f p of None \<Rightarrow> perm | Some (_, old) \<Rightarrow> old))"

lemma write_file_same [simp]: "map_option fst (write_file p c m f p) = Some c"
  by (simp add: write_file_def)

lemma write_file_other [simp]: "q \<noteq> p \<Longrightarrow> write_file p c m f q = f q"
  by (simp add: write_file_def)

section \<open>The last element of a joined path\<close>

lemma last_element_after_slash: "slash \<notin> set n \<Longrightarrow> last_element (p @ slash # n) = n"
proof -
  assume "slash \<notin> set n"
  then have "takeWhile (\<lambda>c. c \<noteq> slash) (rev n @ slash # rev p) = rev n"
    by (subst takeWhile_append2) auto
  then show "last_element (p @ slash # n) = n" by (simp add: last_element_def)
qed

lemma last_element_plain: "slash \<notin> set n \<Longrightarrow> last_element n = n"
  unfolding last_element_def
  by (subst takeWhile_eq_all_conv [THEN iffD2]) auto

lemma Split_snoc: "slash \<notin> set n \<Longrightarrow> Split (d @ slash # n) slash = Split d slash @ [n]"
proof (induction d)
  case Nil
  then show ?case by (simp add: Split_no_sep)
next
  case (Cons c d)
  then show ?case by (cases "Split d slash") auto
qed

lemma Join_snoc: "xs \<noteq> [] \<Longrightarrow> Join (xs @ [n]) sep = Join xs sep @ sep @ n"
proof (induction xs)
  case Nil
  then show ?case by simp
next
  case (Cons x xs)
  then show ?case by (cases xs) auto
qed

lemma last_element_JoinPath:
  assumes "simple_name n" and "d \<noteq> []"
  shows "last_element (JoinPath [d, n]) = n"
proof -
  have n: "n \<noteq> []" "slash \<notin> set n" using assms(1) by (auto simp: simple_name_def)
  define b where "b \<longleftrightarrow> hd (d @ slash # n) = slash"
  define kept where "kept = rev (fold (clean_step b) (Split d slash) [])"
  have "JoinPath [d, n] = Clean (d @ slash # n)" using n assms(2) by (simp add: JoinPath_def)
  moreover have "fold (clean_step b) (Split (d @ slash # n) slash) [] =
      n # fold (clean_step b) (Split d slash) []"
    using assms(1) by (simp add: Split_snoc [OF n(2)])
  then have r: "rev (fold (clean_step b) (Split (d @ slash # n) slash) []) = kept @ [n]"
    by (simp add: kept_def)
  have "Clean (d @ slash # n) =
      (if b then slash # Join (kept @ [n]) [slash]
       else if Join (kept @ [n]) [slash] = [] then ''.'' else Join (kept @ [n]) [slash])"
    by (simp only: Clean_def Let_def b_def [symmetric] r) simp
  moreover have "last_element (Join (kept @ [n]) [slash]) = n \<and> Join (kept @ [n]) [slash] \<noteq> [] \<and>
      last_element (slash # Join (kept @ [n]) [slash]) = n"
  proof (cases "kept = []")
    case True
    with n last_element_plain [OF n(2)] last_element_after_slash [OF n(2), of "[]"] show ?thesis by simp
  next
    case False
    from Join_snoc [OF this, of n "[slash]"]
      last_element_after_slash [OF n(2), of "Join kept [slash]"]
      last_element_after_slash [OF n(2), of "slash # Join kept [slash]"]
    show ?thesis by simp
  qed
  ultimately show ?thesis by simp
qed

section \<open>Windows paths\<close>

text \<open>
  On Windows both slashes separate, a drive letter may come first, and cleaned paths are written
  with backslashes. Names of network shares are not told apart from rooted paths.
\<close>

definition backslash :: char where
  "backslash = CHR 0x5C"

definition to_slash :: "string \<Rightarrow> string" where
  "to_slash p = map (\<lambda>c. if c = backslash then slash else c) p"

definition from_slash :: "string \<Rightarrow> string" where
  "from_slash p = map (\<lambda>c. if c = slash then backslash else c) p"

definition is_letter :: "char \<Rightarrow> bool" where
  "is_letter c \<longleftrightarrow> 65 \<le> (of_char (ascii_upper c) :: nat) \<and> (of_char (ascii_upper c) :: nat) \<le> 90"

fun volume :: "string \<Rightarrow> string" where
  "volume (c # d # p) = (if is_letter c \<and> d = CHR '':'' then [c, d] else [])"
| "volume _ = []"

definition without_volume :: "string \<Rightarrow> string" where
  "without_volume p = drop (length (volume p)) p"

definition Clean_windows :: "string \<Rightarrow> string" where
  "Clean_windows p = volume p @ from_slash (Clean (to_slash (without_volume p)))"

definition Dir_windows :: "string \<Rightarrow> string" where
  "Dir_windows p = volume p @ from_slash (Dir (to_slash (without_volume p)))"

definition JoinPath_windows :: "string list \<Rightarrow> string" where
  "JoinPath_windows es =
     (let ne = filter (\<lambda>e. e \<noteq> []) es
      in if ne = [] then [] else Clean_windows (Join ne [backslash]))"

end
