(* ===== verification/Timeouts.thy ===== *)
theory Timeouts
  imports Prelude
begin

text \<open>
  The timeouts and intervals of \<open>src/src/timeouts.go\<close>, under their own names, with the
  order relations between them that the components rely on.
\<close>

definition peerReachabilityTimeout :: duration where
  "peerReachabilityTimeout = 2 * second"

definition peerPromoteTimeout :: duration where
  "peerPromoteTimeout = 70 * second"

definition promoteOperationTimeout :: duration where
  "promoteOperationTimeout = 65 * second"

definition roleCheckTimeout :: duration where
  "roleCheckTimeout = 3 * second"

definition serverShutdownTimeout :: duration where
  "serverShutdownTimeout = 5 * second"

definition statusQueryTimeout :: duration where
  "statusQueryTimeout = 3 * second"

definition metricsCollectionTimeout :: duration where
  "metricsCollectionTimeout = 5 * second"

definition bootstrapPrimaryTiebreakTimeout :: duration where
  "bootstrapPrimaryTiebreakTimeout = 15 * second"

definition bootstrapStandbyTiebreakTimeout :: duration where
  "bootstrapStandbyTiebreakTimeout = 120 * second"

definition bootstrapPollInterval :: duration where
  "bootstrapPollInterval = 1 * second"

definition bootstrapRetryInterval :: duration where
  "bootstrapRetryInterval = 2 * second"

definition peerDNSLookupTimeout :: duration where
  "peerDNSLookupTimeout = 2 * second"

definition ensureRoleAndDatabaseTimeout :: duration where
  "ensureRoleAndDatabaseTimeout = 60 * second"

definition ensureRoleAndDatabaseOpTimeout :: duration where
  "ensureRoleAndDatabaseOpTimeout = 5 * second"

definition startupRejoinDecisionTimeout :: duration where
  "startupRejoinDecisionTimeout = 30 * second"

definition startupRejoinPollInterval :: duration where
  "startupRejoinPollInterval = 1 * second"

definition startupRejoinRetryInterval :: duration where
  "startupRejoinRetryInterval = 2 * second"

definition peerHealthCheckTimeout :: duration where
  "peerHealthCheckTimeout = 3 * second"

definition peerPromoteConfirmDeadline :: duration where
  "peerPromoteConfirmDeadline = 10 * second"

definition handoverKillConfirmTimeout :: duration where
  "handoverKillConfirmTimeout = 5 * second"

definition failoverCheckInterval :: duration where
  "failoverCheckInterval = 5 * second"

definition failoverReachabilityTimeout :: duration where
  "failoverReachabilityTimeout = 3 * second"

definition failoverHBARefreshTimeout :: duration where
  "failoverHBARefreshTimeout = 5 * second"

definition setPasswordOperationTimeout :: duration where
  "setPasswordOperationTimeout = 10 * second"

definition setPasswordSocketDialTimeout :: duration where
  "setPasswordSocketDialTimeout = 5 * second"

definition serviceStopPendingInterval :: duration where
  "serviceStopPendingInterval = 2 * second"

lemmas poll_intervals =
  bootstrapPollInterval_def bootstrapRetryInterval_def
  startupRejoinPollInterval_def startupRejoinRetryInterval_def

lemma poll_intervals_pos [simp]:
  "0 < bootstrapPollInterval" "0 < bootstrapRetryInterval"
  "0 < startupRejoinPollInterval" "0 < startupRejoinRetryInterval"
  by (simp_all add: poll_intervals)

end
