(* ===== verification/Duration.thy ===== *)
theory Duration
  imports GoStrings
begin

text \<open>
  \<open>time.ParseDuration\<close>, which \<open>loadConfig\<close> and the command line use: a sign, then numbers with
  units, \<open>1h30m\<close>. Sums and products are bounded by \<open>2^63\<close> as in the library. The part after a
  decimal point is computed there in floating point; that one computation is the parameter
  \<open>frac\<close>, the nanoseconds of the digits \<open>f\<close> over \<open>10^k\<close> of a unit.
\<close>

definition limit63 :: nat where
  "limit63 = 2 ^ 63"

definition is_digit :: "char \<Rightarrow> bool" where
  "is_digit c = (digit_val c \<noteq> None)"

text \<open>\<open>leadingInt\<close>: the number and the rest, \<open>None\<close> on overflow.\<close>

fun leadingInt :: "string \<Rightarrow> nat \<Rightarrow> (nat \<times> string) option" where
  "leadingInt [] x = Some (x, [])"
| "leadingInt (c # s) x =
     (case digit_val c of
        None \<Rightarrow> Some (x, c # s)
      | Some d \<Rightarrow>
          if limit63 div 10 < x \<or> limit63 < 10 * x + d then None
          else leadingInt s (10 * x + d))"

text \<open>\<open>leadingFraction\<close>: digits that no longer fit are read and dropped.\<close>

fun leadingFraction :: "string \<Rightarrow> nat \<Rightarrow> nat \<Rightarrow> bool \<Rightarrow> nat \<times> nat \<times> string" where
  "leadingFraction [] x k full = (x, k, [])"
| "leadingFraction (c # s) x k full =
     (case digit_val c of
        None \<Rightarrow> (x, k, c # s)
      | Some d \<Rightarrow>
          if full \<or> (limit63 - 1) div 10 < x \<or> limit63 < 10 * x + d then leadingFraction s x k True
          else leadingFraction s (10 * x + d) (Suc k) False)"

definition unit_ns :: "string \<Rightarrow> nat option" where
  "unit_ns u = map_of
     [(''ns'', 1), (''us'', 1000), ([CHR 0xC2, CHR 0xB5, CHR ''s''], 1000),
      ([CHR 0xCE, CHR 0xBC, CHR ''s''], 1000), (''ms'', 1000000), (''s'', 1000000000),
      (''m'', 60000000000), (''h'', 3600000000000)] u"

definition fraction_part :: "string \<Rightarrow> nat \<times> nat \<times> string" where
  "fraction_part r =
     (if r \<noteq> [] \<and> hd r = CHR ''.'' then leadingFraction (tl r) 0 0 False else (0, 0, r))"

definition scaled ::
  "(nat \<Rightarrow> nat \<Rightarrow> nat \<Rightarrow> nat) \<Rightarrow> nat \<Rightarrow> nat \<Rightarrow> nat \<Rightarrow> string \<Rightarrow> (nat \<times> string) option" where
  "scaled frac v f k r =
     (let u = takeWhile (\<lambda>c. c \<noteq> CHR ''.'' \<and> \<not> is_digit c) r
      in if u = [] then None
         else (case unit_ns u of
           None \<Rightarrow> None
         | Some n \<Rightarrow>
             (if limit63 div n < v then None
              else
                (let t = v * n + (if 0 < f then frac f k n else 0)
                 in if limit63 < t then None else Some (t, drop (length u) r)))))"

text \<open>One number with its unit: its nanoseconds and the rest.\<close>

definition duration_part ::
  "(nat \<Rightarrow> nat \<Rightarrow> nat \<Rightarrow> nat) \<Rightarrow> string \<Rightarrow> (nat \<times> string) option" where
  "duration_part frac s =
     (if s = [] \<or> \<not> (hd s = CHR ''.'' \<or> is_digit (hd s)) then None
      else (case leadingInt s 0 of
        None \<Rightarrow> None
      | Some (v, r) \<Rightarrow>
          (case fraction_part r of
             (f, k, r') \<Rightarrow>
               if length r < length s \<or> length r' + 1 < length r then scaled frac v f k r' else None)))"

lemma leadingInt_length: "leadingInt s x = Some (v, r) \<Longrightarrow> length r \<le> length s"
  by (induction s x rule: leadingInt.induct) (auto split: option.splits if_splits)

lemma leadingFraction_length: "leadingFraction s x k b = (f, j, r) \<Longrightarrow> length r \<le> length s"
  by (induction s x k b rule: leadingFraction.induct) (fastforce split: option.splits if_splits)+

lemma fraction_part_length: "fraction_part r = (f, k, r') \<Longrightarrow> length r' \<le> length r"
  using leadingFraction_length [of "tl r" 0 0 False f k r'] by (auto simp: fraction_part_def split: if_splits)

lemma scaled_shorter:
  assumes "scaled frac v f k r = Some (t, r')"
  shows "length r' < length r"
proof -
  define u where "u = takeWhile (\<lambda>c. c \<noteq> CHR ''.'' \<and> \<not> is_digit c) r"
  have "u \<noteq> []" "r' = drop (length u) r"
    using assms by (auto simp: scaled_def u_def [symmetric] Let_def split: if_splits option.splits)
  moreover have "length u \<le> length r" by (simp add: u_def length_takeWhile_le)
  ultimately show ?thesis by (cases u) auto
qed

lemma duration_part_shorter:
  assumes "duration_part frac s = Some (t, r)"
  shows "length r < length s"
proof -
  from assms obtain v q f k q' where
    "leadingInt s 0 = Some (v, q)" "fraction_part q = (f, k, q')" "scaled frac v f k q' = Some (t, r)"
    by (auto simp: duration_part_def split: if_splits option.splits prod.splits)
  from leadingInt_length [OF this(1)] fraction_part_length [OF this(2)] scaled_shorter [OF this(3)]
  show ?thesis by linarith
qed

function duration_sum :: "(nat \<Rightarrow> nat \<Rightarrow> nat \<Rightarrow> nat) \<Rightarrow> string \<Rightarrow> nat \<Rightarrow> nat option" where
  "duration_sum frac s d =
     (if s = [] then Some d
      else (case duration_part frac s of
        None \<Rightarrow> None
      | Some (t, r) \<Rightarrow> if limit63 < d + t then None else duration_sum frac r (d + t)))"
  by pat_completeness auto
termination
  by (relation "measure (\<lambda>(frac, s, d). length s)") (auto dest: duration_part_shorter)

declare duration_sum.simps [simp del]

definition ParseDuration :: "(nat \<Rightarrow> nat \<Rightarrow> nat \<Rightarrow> nat) \<Rightarrow> string \<Rightarrow> int option" where
  "ParseDuration frac s =
     (let neg = (s \<noteq> [] \<and> hd s = CHR ''-'');
          r = (if s \<noteq> [] \<and> (hd s = CHR ''-'' \<or> hd s = CHR ''+'') then tl s else s)
      in if r = ''0'' then Some 0
         else if r = [] then None
         else (case duration_sum frac r 0 of
           None \<Rightarrow> None
         | Some d \<Rightarrow> if neg then Some (- int d) else if limit63 - 1 < d then None else Some (int d)))"

lemma duration_sum_le: "duration_sum frac s d = Some t \<Longrightarrow> d \<le> limit63 \<Longrightarrow> t \<le> limit63"
proof (induction frac s d rule: duration_sum.induct)
  case (1 frac s d)
  from 1(2) show ?case
    by (subst (asm) duration_sum.simps)
       (use 1 in \<open>auto split: if_splits option.splits prod.splits\<close>)
qed

lemma ParseDuration_range:
  assumes "ParseDuration frac s = Some d"
  shows "- (2 ^ 63) \<le> d \<and> d < 2 ^ 63"
proof -
  consider "d = 0" | n where "duration_sum frac (if s \<noteq> [] \<and> (hd s = CHR ''-'' \<or> hd s = CHR ''+'') then tl s else s) 0 = Some n"
      "d = - int n \<or> n \<le> limit63 - 1 \<and> d = int n"
    using assms by (auto simp: ParseDuration_def Let_def split: if_splits option.splits)
  then show ?thesis
  proof cases
    case 2
    have "n \<le> limit63" using duration_sum_le [OF 2(1)] by simp
    with 2(2) show ?thesis by (auto simp: limit63_def)
  qed simp
qed

text \<open>The literals the program uses as defaults.\<close>

lemma ParseDuration_literals:
  "ParseDuration frac ''300s'' = Some 300000000000"
  "ParseDuration frac ''180s'' = Some 180000000000"
  "ParseDuration frac ''60s'' = Some 60000000000"
  "ParseDuration frac ''24h'' = Some 86400000000000"
  "ParseDuration frac ''10m'' = Some 600000000000"
  "ParseDuration frac ''5s'' = Some 5000000000"
  by (simp_all add: ParseDuration_def duration_sum.simps duration_part_def unit_ns_def is_digit_def
      limit63_def fraction_part_def scaled_def digit_val_def)

end
