(* ===== verification/Config.thy ===== *)
theory Config
  imports Filepath Timeouts Duration
begin

text \<open>
  \<open>src/src/config.go\<close>: the configuration record and \<open>loadConfig\<close>, cut into the stages of
  its body, each a function from the configuration so far to an error or the extended
  configuration. The environment of the process, the host name, the probes of the file
  system and the parsing of certificates are fields of \<open>os\<close>, a parameter
  of every stage. \<open>src/src/detect_linux.go\<close>, \<open>tempdir.go\<close> and \<open>tls.go\<close>, which \<open>loadConfig\<close>
  calls, are here too, and the printing of the configuration.
\<close>

section \<open>The record\<close>

record config =
  LogLevelS :: string
  LogFormat :: string
  LogFile :: string
  PostgresBin :: string
  PostgresArgs :: "string list"
  PGData :: string
  ShutdownWait :: duration
  PGPort :: int
  PostgresUser :: string
  PostgresPassword :: string
  PostgresDB :: string
  ReplUser :: string
  ReplPassword :: string
  APIPort :: int
  APIBind :: string
  MetricsPort :: int
  APIToken :: string
  PeerVerify :: string
  MetricsMode :: string
  MetricsEnabled :: bool
  TextfileEnabled :: bool
  TextfileDir :: string
  TextfileInterval :: duration
  TLSCertFile :: string
  TLSKeyFile :: string
  TLSRootCertFile :: string
  TLSEnabled :: bool
  MTLSRequire :: bool
  PeerHost :: string
  PeerPort :: int
  PeerMetricsPort :: int
  ShutdownPolicy :: string
  ShutdownMode :: string
  RebootGracePeriod :: duration
  FailoverTimeout :: duration
  FailoverMode :: string
  BootstrapRole :: string
  BackupEnabled :: bool
  BackupDir :: string
  BackupCommand :: string
  BackupInterval :: duration
  BackupRetain :: int
  PostgresRestartLimit :: int
  PostgresRestartWindow :: duration
  PostgresRestartBackoff :: duration
  StateFile :: string

definition zero_config :: config where
  "zero_config = \<lparr>
     LogLevelS = [], LogFormat = [], LogFile = [], PostgresBin = [], PostgresArgs = [],
     PGData = [], ShutdownWait = 0, PGPort = 0, PostgresUser = [], PostgresPassword = [],
     PostgresDB = [], ReplUser = [], ReplPassword = [], APIPort = 0, APIBind = [],
     MetricsPort = 0, APIToken = [], PeerVerify = [], MetricsMode = [],
     MetricsEnabled = False, TextfileEnabled = False, TextfileDir = [], TextfileInterval = 0,
     TLSCertFile = [], TLSKeyFile = [], TLSRootCertFile = [], TLSEnabled = False,
     MTLSRequire = False, PeerHost = [], PeerPort = 0, PeerMetricsPort = 0,
     ShutdownPolicy = [], ShutdownMode = [], RebootGracePeriod = 0, FailoverTimeout = 0,
     FailoverMode = [], BootstrapRole = [], BackupEnabled = False, BackupDir = [],
     BackupCommand = [], BackupInterval = 0, BackupRetain = 0, PostgresRestartLimit = 0,
     PostgresRestartWindow = 0, PostgresRestartBackoff = 0, StateFile = [] \<rparr>"

datatype config_error =
    DetectFailed "string list"
  | PGDataUnset
  | BadDuration string string
  | BadInt string string
  | BadBool string string
  | BadValue string string
  | OutOfRange string
  | MTLSNeedsTLS
  | StageFailed string
  | TLSInvalid
  | TextfileDirUnset
  | PortsEqual int
  | BackupBothSet
  | BackupNoDestination

record os =
  Getenv :: "string \<Rightarrow> string"
  FloatFrac :: "nat \<Rightarrow> nat \<Rightarrow> nat \<Rightarrow> nat"
  Hostname :: "string option"
  Exists :: "string \<Rightarrow> bool"
  Glob :: "string \<Rightarrow> string list"
  LookPath :: "string \<Rightarrow> string option"
  TempDir :: string
  MkdirOK :: "string \<Rightarrow> bool"
  WriteOK :: "string \<Rightarrow> bool"
  X509KeyPair :: "string \<Rightarrow> string \<Rightarrow> bool"
  CertsInPEM :: "string \<Rightarrow> bool"

definition bindE :: "'e + 'a \<Rightarrow> ('a \<Rightarrow> 'e + 'b) \<Rightarrow> 'e + 'b" where
  "bindE r f = (case r of Inl e \<Rightarrow> Inl e | Inr x \<Rightarrow> f x)"

lemma bindE_simps [simp]: "bindE (Inl e) f = Inl e" "bindE (Inr x) f = f x"
  by (simp_all add: bindE_def)

lemma bindE_Inr_iff: "bindE r f = Inr y \<longleftrightarrow> (\<exists>x. r = Inr x \<and> f x = Inr y)"
  by (cases r) simp_all

section \<open>Reading one variable\<close>

definition envOrDefault :: "os \<Rightarrow> string \<Rightarrow> string \<Rightarrow> string" where
  "envOrDefault sys key def = (let v = Getenv sys key in if v \<noteq> [] then v else def)"

definition envDuration :: "os \<Rightarrow> string \<Rightarrow> duration \<Rightarrow> config_error + duration" where
  "envDuration sys key def =
     (let v = Getenv sys key
      in if v = [] then Inr def
         else (case ParseDuration (FloatFrac sys) v of None \<Rightarrow> Inl (BadDuration key v) | Some d \<Rightarrow> Inr d))"

definition envInt :: "os \<Rightarrow> string \<Rightarrow> int \<Rightarrow> config_error + int" where
  "envInt sys key def =
     (let v = Getenv sys key
      in if v = [] then Inr def
         else (case Atoi v of None \<Rightarrow> Inl (BadInt key v) | Some n \<Rightarrow> Inr n))"

definition envBool :: "os \<Rightarrow> string \<Rightarrow> bool \<Rightarrow> config_error + bool" where
  "envBool sys key def =
     (let v = Getenv sys key
      in if v = [] then Inr def
         else (case ParseBool v of None \<Rightarrow> Inl (BadBool key v) | Some b \<Rightarrow> Inr b))"

definition derivePeerHost :: "string \<Rightarrow> string option" where
  "derivePeerHost hostname =
     (if HasSuffix hostname ''-0'' then Some (TrimSuffix hostname ''-0'' @ ''-1'')
      else if HasSuffix hostname ''-1'' then Some (TrimSuffix hostname ''-1'' @ ''-0'')
      else None)"

section \<open>Helpers in other files\<close>

text \<open>\<open>detectPostgresBin\<close> on Linux: every existing candidate once, exactly one wanted.\<close>

definition add_candidate :: "os \<Rightarrow> string \<Rightarrow> string list \<Rightarrow> string list" where
  "add_candidate sys path found =
     (if path = [] \<or> path \<in> set found then found
      else if Exists sys path then found @ [path] else found)"

definition detectPostgresBin :: "os \<Rightarrow> config_error + string" where
  "detectPostgresBin sys =
     (let globbed = fold (add_candidate sys) (Glob sys ''/usr/lib/postgresql/*/bin/postgres'') [];
          found = (case LookPath sys ''postgres'' of None \<Rightarrow> globbed
                   | Some p \<Rightarrow> add_candidate sys p globbed)
      in case found of [p] \<Rightarrow> Inr p | _ \<Rightarrow> Inl (DetectFailed found))"

definition pgGuardStagingDir :: "os \<Rightarrow> string \<Rightarrow> config_error + string" where
  "pgGuardStagingDir sys name =
     (let dir = JoinPath [TempDir sys, ''pg-guard'', name]
      in if MkdirOK sys dir then Inr dir else Inl (StageFailed dir))"

definition stageTLSFile ::
  "os \<Rightarrow> string \<Rightarrow> int \<Rightarrow> fs \<Rightarrow> config_error + (string \<times> fs)" where
  "stageTLSFile sys src perm f =
     (case f src of
        None \<Rightarrow> Inl (StageFailed src)
      | Some (content, _) \<Rightarrow>
          bindE (pgGuardStagingDir sys ''tls'') (\<lambda>dir.
            let dst = JoinPath [dir, Base src]
            in if WriteOK sys dst then Inr (dst, write_file dst content perm f)
               else Inl (StageFailed dst)))"

section \<open>The stages of loadConfig\<close>

definition load_base :: "os \<Rightarrow> config_error + config" where
  "load_base sys =
     (let cfg = zero_config\<lparr>
            LogLevelS := envOrDefault sys ''PG_GUARD_LOG_LEVEL'' ''info'',
            LogFormat := envOrDefault sys ''PG_GUARD_LOG_FORMAT'' ''json'',
            LogFile := Getenv sys ''PG_GUARD_LOG_FILE'',
            PostgresBin := Getenv sys ''PG_GUARD_POSTGRES_BIN''\<rparr>
      in bindE (if PostgresBin cfg = [] then detectPostgresBin sys else Inr (PostgresBin cfg)) (\<lambda>bin.
         let pgdata = Getenv sys ''PGDATA''; extra = Getenv sys ''PG_GUARD_EXTRA_ARGS''
         in if pgdata = [] then Inl PGDataUnset
            else
              bindE (envDuration sys ''PG_GUARD_SHUTDOWN_WAIT'' (300 * second)) (\<lambda>wait.
              if wait \<le> 0 then Inl (OutOfRange ''PG_GUARD_SHUTDOWN_WAIT'')
              else
                bindE (envInt sys ''PGPORT'' 5432) (\<lambda>port.
                let user = envOrDefault sys ''POSTGRES_USER'' ''postgres'';
                    pw = Getenv sys ''POSTGRES_PASSWORD''
                in Inr (cfg\<lparr>
                     PostgresBin := bin,
                     PGData := pgdata,
                     PostgresArgs := [''-D'', pgdata] @ (if extra = [] then [] else Fields extra),
                     ShutdownWait := wait,
                     PGPort := port,
                     PostgresUser := user,
                     PostgresPassword := pw,
                     PostgresDB := envOrDefault sys ''POSTGRES_DB'' user,
                     ReplUser := envOrDefault sys ''PG_GUARD_REPL_USER'' user,
                     ReplPassword := envOrDefault sys ''PG_GUARD_REPL_PASSWORD'' pw\<rparr>)))))"

text \<open>
  \<open>buildServerTLSConfig\<close> and \<open>buildClientTLSConfig\<close>. Reading and parsing a certificate pair and a
  pool yields their contents; \<open>X509KeyPair\<close> and \<open>CertsInPEM\<close> say which contents parse.
\<close>

record tls_config =
  Certificates :: "(string \<times> string) list"
  MinVersion :: int
  RequireClientCert :: bool
  ClientCAs :: "string option"
  RootCAs :: "string option"
  InsecureSkipVerify :: bool

definition VersionTLS12 :: int where
  "VersionTLS12 = 0x0303"

definition LoadX509KeyPair :: "os \<Rightarrow> fs \<Rightarrow> string \<Rightarrow> string \<Rightarrow> config_error + (string \<times> string)" where
  "LoadX509KeyPair sys f cert key =
     (case (f cert, f key) of
        (Some (c, _), Some (k, _)) \<Rightarrow> if X509KeyPair sys c k then Inr (c, k) else Inl TLSInvalid
      | _ \<Rightarrow> Inl TLSInvalid)"

definition loadCertPool :: "os \<Rightarrow> fs \<Rightarrow> string \<Rightarrow> config_error + string" where
  "loadCertPool sys f path =
     (case f path of
        None \<Rightarrow> Inl TLSInvalid
      | Some (pem, _) \<Rightarrow> if CertsInPEM sys pem then Inr pem else Inl TLSInvalid)"

definition buildServerTLSConfig :: "os \<Rightarrow> fs \<Rightarrow> config \<Rightarrow> config_error + tls_config" where
  "buildServerTLSConfig sys f cfg =
     bindE (LoadX509KeyPair sys f (TLSCertFile cfg) (TLSKeyFile cfg)) (\<lambda>cert.
     let t = \<lparr>Certificates = [cert], MinVersion = VersionTLS12, RequireClientCert = False,
              ClientCAs = None, RootCAs = None, InsecureSkipVerify = False\<rparr>
     in if MTLSRequire cfg
        then bindE (loadCertPool sys f (TLSRootCertFile cfg)) (\<lambda>pool.
             Inr (t\<lparr>RequireClientCert := True, ClientCAs := Some pool\<rparr>))
        else Inr t)"

definition buildClientTLSConfig :: "os \<Rightarrow> fs \<Rightarrow> config \<Rightarrow> config_error + tls_config option" where
  "buildClientTLSConfig sys f cfg =
     (if \<not> TLSEnabled cfg then Inr None
      else
        (let t = \<lparr>Certificates = [], MinVersion = VersionTLS12, RequireClientCert = False,
                  ClientCAs = None, RootCAs = None, InsecureSkipVerify = False\<rparr>
         in bindE (if TLSRootCertFile cfg \<noteq> []
                   then bindE (loadCertPool sys f (TLSRootCertFile cfg)) (\<lambda>pool.
                        Inr (t\<lparr>RootCAs := Some pool\<rparr>))
                   else Inr (t\<lparr>InsecureSkipVerify := True\<rparr>)) (\<lambda>t1.
            if MTLSRequire cfg
            then bindE (LoadX509KeyPair sys f (TLSCertFile cfg) (TLSKeyFile cfg)) (\<lambda>cert.
                 Inr (Some (t1\<lparr>Certificates := [cert]\<rparr>)))
            else Inr (Some t1))))"

definition stage_tls_files ::
  "os \<Rightarrow> config \<Rightarrow> fs \<Rightarrow> config_error + (config \<times> fs)" where
  "stage_tls_files sys cfg f =
     bindE (stageTLSFile sys (TLSCertFile cfg) 420 f) (\<lambda>(cert, f1).
     bindE (stageTLSFile sys (TLSKeyFile cfg) 384 f1) (\<lambda>(key, f2).
     bindE (if TLSRootCertFile cfg = [] then Inr ([], f2)
            else stageTLSFile sys (TLSRootCertFile cfg) 420 f2) (\<lambda>(ca, f3).
     let cfg = cfg\<lparr>TLSCertFile := cert, TLSKeyFile := key, TLSRootCertFile := ca\<rparr>
     in bindE (buildServerTLSConfig sys f3 cfg) (\<lambda>_.
        Inr (cfg\<lparr>PostgresArgs := PostgresArgs cfg
                     @ [''-c'', ''ssl=on'', ''-c'', ''ssl_cert_file='' @ cert,
                        ''-c'', ''ssl_key_file='' @ key]
                     @ (if ca = [] then [] else [''-c'', ''ssl_ca_file='' @ ca])\<rparr>, f3)))))"

definition load_tls :: "os \<Rightarrow> config \<Rightarrow> fs \<Rightarrow> config_error + (config \<times> fs)" where
  "load_tls sys cfg f =
     (let cert = Getenv sys ''PG_GUARD_SSL_CERT_FILE'';
          key = Getenv sys ''PG_GUARD_SSL_KEY_FILE'';
          ca = Getenv sys ''PG_GUARD_SSL_CA_FILE'';
          enabled = (cert \<noteq> [] \<and> key \<noteq> [])
      in bindE (envBool sys ''PG_GUARD_MTLS_REQUIRE'' False) (\<lambda>mtls.
         let cfg = cfg\<lparr>TLSCertFile := cert, TLSKeyFile := key, TLSRootCertFile := ca,
                       TLSEnabled := enabled, MTLSRequire := mtls\<rparr>
         in if mtls \<and> (\<not> enabled \<or> ca = []) then Inl MTLSNeedsTLS
            else if enabled then stage_tls_files sys cfg f
            else Inr (cfg, f)))"

definition load_listeners :: "os \<Rightarrow> config \<Rightarrow> config_error + config" where
  "load_listeners sys cfg =
     bindE (envInt sys ''PG_GUARD_API_PORT'' (if TLSEnabled cfg then 8443 else 8080)) (\<lambda>api.
     bindE (envInt sys ''PG_GUARD_METRICS_PORT'' 9100) (\<lambda>met.
     let mode = envOrDefault sys ''PG_GUARD_METRICS_MODE'' ''endpoint'';
         tdir = Getenv sys ''PG_GUARD_TEXTFILE_DIR'';
         textfile = (mode = ''textfile'' \<or> mode = ''both'')
     in if mode \<notin> {''endpoint'', ''textfile'', ''both''}
        then Inl (BadValue ''PG_GUARD_METRICS_MODE'' mode)
        else if textfile \<and> tdir = [] then Inl TextfileDirUnset
        else
          bindE (envDuration sys ''PG_GUARD_TEXTFILE_INTERVAL'' (60 * second)) (\<lambda>ival.
          if ival \<le> 0 then Inl (OutOfRange ''PG_GUARD_TEXTFILE_INTERVAL'')
          else if api = met then Inl (PortsEqual api)
          else Inr (cfg\<lparr>
                 APIPort := api,
                 APIBind := envOrDefault sys ''PG_GUARD_API_BIND'' ''0.0.0.0'',
                 MetricsPort := met,
                 MetricsMode := mode,
                 MetricsEnabled := (mode = ''endpoint'' \<or> mode = ''both''),
                 TextfileEnabled := textfile,
                 TextfileDir := tdir,
                 TextfileInterval := ival,
                 APIToken := Getenv sys ''PG_GUARD_API_TOKEN''\<rparr>))))"

definition load_peer :: "os \<Rightarrow> config \<Rightarrow> config_error + config" where
  "load_peer sys cfg =
     (let verify = envOrDefault sys ''PG_GUARD_PEER_VERIFY'' ''off''
      in if verify \<notin> {''off'', ''ip'', ''dns'', ''both''}
         then Inl (BadValue ''PG_GUARD_PEER_VERIFY'' verify)
         else
           bindE (envInt sys ''PG_GUARD_PEER_PORT'' (APIPort cfg)) (\<lambda>pport.
           bindE (envInt sys ''PG_GUARD_PEER_METRICS_PORT'' (MetricsPort cfg)) (\<lambda>mport.
           let explicit = Getenv sys ''PG_GUARD_PEER_HOST'';
               host = (if explicit \<noteq> [] then explicit
                       else case Hostname sys of
                              None \<Rightarrow> []
                            | Some h \<Rightarrow> (case derivePeerHost h of None \<Rightarrow> [] | Some d \<Rightarrow> d))
           in Inr (cfg\<lparr>PeerVerify := verify, PeerPort := pport, PeerMetricsPort := mport,
                       PeerHost := host\<rparr>))))"

definition load_ha :: "os \<Rightarrow> config \<Rightarrow> config_error + config" where
  "load_ha sys cfg =
     (let policy = envOrDefault sys ''PG_GUARD_SHUTDOWN_POLICY'' ''require-switchover'';
          smode = envOrDefault sys ''PG_GUARD_SHUTDOWN_MODE'' ''switchover''
      in if policy \<notin> {''require-switchover'', ''best-effort'', ''force''}
         then Inl (BadValue ''PG_GUARD_SHUTDOWN_POLICY'' policy)
         else if smode \<notin> {''switchover'', ''reboot''}
         then Inl (BadValue ''PG_GUARD_SHUTDOWN_MODE'' smode)
         else
           bindE (envDuration sys ''PG_GUARD_REBOOT_GRACE_PERIOD'' (180 * second)) (\<lambda>grace.
           bindE (envDuration sys ''PG_GUARD_FAILOVER_TIMEOUT'' (60 * second)) (\<lambda>fot.
           let fmode = envOrDefault sys ''PG_GUARD_FAILOVER_MODE'' ''automatic'';
               role = envOrDefault sys ''PG_GUARD_BOOTSTRAP_ROLE'' ''auto''
           in if fmode \<notin> {''automatic'', ''manual''}
              then Inl (BadValue ''PG_GUARD_FAILOVER_MODE'' fmode)
              else if role \<notin> {''auto'', ''primary'', ''standby''}
              then Inl (BadValue ''PG_GUARD_BOOTSTRAP_ROLE'' role)
              else Inr (cfg\<lparr>ShutdownPolicy := policy, ShutdownMode := smode,
                            RebootGracePeriod := grace, FailoverTimeout := fot,
                            FailoverMode := fmode, BootstrapRole := role\<rparr>))))"

definition load_backup :: "os \<Rightarrow> config \<Rightarrow> config_error + config" where
  "load_backup sys cfg =
     bindE (envBool sys ''PG_GUARD_BACKUP_ENABLED'' False) (\<lambda>enabled.
     let dir = Getenv sys ''PG_GUARD_BACKUP_DIR'';
         cmd = Getenv sys ''PG_GUARD_BACKUP_COMMAND''
     in if dir \<noteq> [] \<and> cmd \<noteq> [] then Inl BackupBothSet
        else if enabled \<and> dir = [] \<and> cmd = [] then Inl BackupNoDestination
        else
          bindE (envDuration sys ''PG_GUARD_BACKUP_INTERVAL'' (24 * hour)) (\<lambda>ival.
          if ival \<le> 0 then Inl (OutOfRange ''PG_GUARD_BACKUP_INTERVAL'')
          else
            bindE (envInt sys ''PG_GUARD_BACKUP_RETAIN'' 7) (\<lambda>retain.
            if retain < 1 then Inl (OutOfRange ''PG_GUARD_BACKUP_RETAIN'')
            else Inr (cfg\<lparr>BackupEnabled := enabled, BackupDir := dir, BackupCommand := cmd,
                          BackupInterval := ival, BackupRetain := retain\<rparr>))))"

definition load_restart :: "os \<Rightarrow> config \<Rightarrow> config_error + config" where
  "load_restart sys cfg =
     bindE (envInt sys ''PG_GUARD_POSTGRES_RESTART_LIMIT'' 5) (\<lambda>limit.
     if limit < 0 then Inl (OutOfRange ''PG_GUARD_POSTGRES_RESTART_LIMIT'')
     else
       bindE (envDuration sys ''PG_GUARD_POSTGRES_RESTART_WINDOW'' (10 * minute)) (\<lambda>window.
       if window \<le> 0 then Inl (OutOfRange ''PG_GUARD_POSTGRES_RESTART_WINDOW'')
       else
         bindE (envDuration sys ''PG_GUARD_POSTGRES_RESTART_BACKOFF'' (5 * second)) (\<lambda>backoff.
         if backoff < 0 then Inl (OutOfRange ''PG_GUARD_POSTGRES_RESTART_BACKOFF'')
         else Inr (cfg\<lparr>PostgresRestartLimit := limit, PostgresRestartWindow := window,
                       PostgresRestartBackoff := backoff,
                       StateFile := Getenv sys ''PG_GUARD_STATE_FILE''\<rparr>))))"

definition loadConfig :: "os \<Rightarrow> fs \<Rightarrow> config_error + (config \<times> fs)" where
  "loadConfig sys f =
     bindE (load_base sys) (\<lambda>c1.
     bindE (load_tls sys c1 f) (\<lambda>(c2, f').
     bindE (load_listeners sys c2) (\<lambda>c3.
     bindE (load_peer sys c3) (\<lambda>c4.
     bindE (load_ha sys c4) (\<lambda>c5.
     bindE (load_backup sys c5) (\<lambda>c6.
     bindE (load_restart sys c6) (\<lambda>c7. Inr (c7, f'))))))))"

section \<open>Printing the configuration\<close>

text \<open>\<open>varDefs\<close>: the name and the documented default of every variable; the help text is left out.\<close>

definition varDefs :: "(string \<times> string) list" where
  "varDefs =
     [(''PG_GUARD_LOG_LEVEL'', ''info''),
      (''PG_GUARD_LOG_FORMAT'', ''json''),
      (''PG_GUARD_LOG_FILE'', ''(unset)''),
      (''PG_GUARD_POSTGRES_BIN'', ''(auto-detected)''),
      (''PGDATA'', ''(unset)''),
      (''PG_GUARD_EXTRA_ARGS'', ''(unset)''),
      (''PG_GUARD_SHUTDOWN_WAIT'', ''300s''),
      (''PGPORT'', ''5432''),
      (''POSTGRES_USER'', ''postgres''),
      (''POSTGRES_PASSWORD'', ''(unset)''),
      (''POSTGRES_DB'', ''(= POSTGRES_USER)''),
      (''PG_GUARD_API_PORT'', ''8080 (or 8443, if TLS is enabled)''),
      (''PG_GUARD_API_BIND'', ''0.0.0.0''),
      (''PG_GUARD_METRICS_PORT'', ''9100''),
      (''PG_GUARD_METRICS_MODE'', ''endpoint''),
      (''PG_GUARD_TEXTFILE_DIR'', ''(unset)''),
      (''PG_GUARD_TEXTFILE_INTERVAL'', ''60s''),
      (''PG_GUARD_API_TOKEN'', ''(unset)''),
      (''PG_GUARD_PEER_VERIFY'', ''off''),
      (''PG_GUARD_SSL_CERT_FILE'', ''(unset)''),
      (''PG_GUARD_SSL_KEY_FILE'', ''(unset)''),
      (''PG_GUARD_SSL_CA_FILE'', ''(unset)''),
      (''PG_GUARD_MTLS_REQUIRE'', ''false''),
      (''PG_GUARD_PEER_HOST'', ''(derived)''),
      (''PG_GUARD_PEER_PORT'', ''(= PG_GUARD_API_PORT)''),
      (''PG_GUARD_PEER_METRICS_PORT'', ''(= PG_GUARD_METRICS_PORT)''),
      (''PG_GUARD_REPL_USER'', ''(= POSTGRES_USER)''),
      (''PG_GUARD_REPL_PASSWORD'', ''(= POSTGRES_PASSWORD)''),
      (''PG_GUARD_SHUTDOWN_POLICY'', ''require-switchover''),
      (''PG_GUARD_SHUTDOWN_MODE'', ''switchover''),
      (''PG_GUARD_REBOOT_GRACE_PERIOD'', ''180s''),
      (''PG_GUARD_FAILOVER_TIMEOUT'', ''60s''),
      (''PG_GUARD_FAILOVER_MODE'', ''automatic''),
      (''PG_GUARD_BOOTSTRAP_ROLE'', ''auto''),
      (''PG_GUARD_BACKUP_ENABLED'', ''false''),
      (''PG_GUARD_BACKUP_DIR'', ''(unset)''),
      (''PG_GUARD_BACKUP_COMMAND'', ''(unset)''),
      (''PG_GUARD_BACKUP_INTERVAL'', ''24h''),
      (''PG_GUARD_BACKUP_RETAIN'', ''7''),
      (''PG_GUARD_POSTGRES_RESTART_LIMIT'', ''5''),
      (''PG_GUARD_POSTGRES_RESTART_WINDOW'', ''10m''),
      (''PG_GUARD_POSTGRES_RESTART_BACKOFF'', ''5s''),
      (''PG_GUARD_STATE_FILE'', ''(unset)'')]"

definition isSecretVar :: "string \<Rightarrow> bool" where
  "isSecretVar name = (Contains name ''PASSWORD'' \<or> Contains name ''TOKEN'')"

text \<open>What \<open>dumpConfig\<close> shows of one variable.\<close>

definition shown_value :: "os \<Rightarrow> string \<times> string \<Rightarrow> string" where
  "shown_value sys = (\<lambda>(name, def).
     if Getenv sys name = [] then def @ '' (default)''
     else if isSecretVar name then ''(set, redacted)''
     else Getenv sys name)"

definition dumpConfig :: "os \<Rightarrow> (string \<times> string) list" where
  "dumpConfig sys = map (\<lambda>vd. (fst vd, shown_value sys vd)) varDefs"

end
