(* ===== verification/World.thy ===== *)
theory World
  imports Config
begin

text \<open>
  The state of one pg-guard process and its environment.

  \<^item> \<open>world\<close> holds the package-level variables of \<open>src/src/state.go\<close>, \<open>main.go\<close>,
    \<open>peer.go\<close> and \<open>metrics.go\<close>, the supervisor, the processes it started, the files of
    \<open>PGDATA\<close>, the clock, and a \<open>trace\<close> of what was done to or learnt from the outside
    (the trace is a ghost: no operation reads it).
  \<^item> \<open>env\<close> is what is not under our control: every external call (an HTTP request, a query,
    a child process, a file operation, a sleep) is numbered by \<open>calls\<close> and gets its outcome
    from the environment under that number. Every call also takes an arbitrary time and
    may see any live child process exit. Quantifying over \<open>env\<close> is quantifying over all
    behaviours of the peer, the database, the tools, the disk and the scheduler.

  Logging has no effect on this state and is left out of the operations. Operations take the
  world and return it changed, with their result.
\<close>

section \<open>Errors, signals and observable events\<close>

datatype signal = SIGTERM | SIGINT

text \<open>
  An error is its message: \<open>Err m\<close> is \<open>fmt.Errorf(m)\<close>, \<open>ErrCode m n\<close> carries the number the
  message shows, \<open>Wrap m e\<close> is \<open>fmt.Errorf("m: %w", e)\<close>. Messages are shortened to their
  fixed words. The two sentinel errors of \<open>backup.go\<close> are constants of their own.
\<close>

datatype pg_error =
    Err string
  | ErrCode string int
  | Wrap string pg_error
  | errBackupNotPrimary
  | errBackupInProgress

abbreviation NoPeerConfigured :: pg_error where
  "NoPeerConfigured \<equiv> Err ''no peer configured''"

abbreviation PostgresNotRunning :: pg_error where
  "PostgresNotRunning \<equiv> Err ''postgres is not currently running''"

abbreviation RestartIsPending :: pg_error where
  "RestartIsPending \<equiv> Err ''a crash-restart is currently pending''"

text \<open>What \<open>GET /status\<close> on the peer brought: \<open>None\<close> is a body that does not decode,
  \<open>Some role\<close> a decoded \<open>statusResponse\<close>, of which the source reads only \<open>Role\<close>.\<close>

datatype status_reply = StatusUnreachable | StatusReply int "string option"

datatype event =
    EvStatus status_reply
  | EvHealth bool
  | EvRole "bool option"
  | EvPoolReset
  | EvSignal nat signal
  | EvStopTool string "string list"
  | EvKill nat
  | EvKillRefused nat
  | EvCleared nat
  | EvPostPromote string string
  | EvPostRebootNotice string string
  | EvLocalPromote "bool option"
  | EvStart nat
  | EvTool string "string list" int
  | EvWipe
  | EvSQL string
  | EvCrash nat int
  | EvRestart
  | EvReply string "pg_error + unit"
  | EvExit int

type_synonym datadir = "string \<Rightarrow> string option"

section \<open>The state of the process\<close>

record metrics =
  promotionsCounter :: int
  rejoinsCounter :: int
  lastPromotionDuration :: int
  lastRejoinDuration :: int
  lastBootstrapDuration :: int
  postgresRestartsCounter :: int
  lastPostgresCrashUnixNano :: int
  pgGuardStartsCounter :: int
  backupsCounter :: int
  backupFailuresCounter :: int
  lastBackupDuration :: int
  lastBackupUnixNano :: int
  backupLastAttemptOK :: bool
  backupLastAttemptErr :: "pg_error option"
  backupLastAttemptUnixNano :: int

text \<open>What the state file holds (\<open>src/src/statepersist.go\<close>).\<close>

record persistedState =
  PgGuardStarts :: int
  PostgresRestarts :: int
  LastCrashUnixNano :: int
  BackupsTotal :: int
  BackupFailuresTotal :: int
  LastBackupUnixNano :: int
  LastBackupDurationNano :: int

record world =
  now :: gotime
  calls :: nat
  trace :: "event list"
  next_pid :: nat
  exit_of :: "nat \<Rightarrow> int option"
  sup_proc :: "nat option"
  currentChild :: "nat option"
  postgresRunning :: bool
  shutdownInProgress :: bool
  switchoverInProgress :: bool
  backupInProgress :: bool
  restartPending :: bool
  maintenanceActive :: bool
  maintenanceWasPrimary :: bool
  rebootSuppressUntil :: gotime
  failoverPromoteDeadline :: gotime
  restartAt :: "gotime option"
  crashTimestamps :: "gotime list"
  lastPeerSeen :: "gotime option"
  pgdata :: datadir
  met :: metrics
  disk :: fs
  backup_entries :: "(string \<times> bool) list"
  proc_exit :: "int option"

record env =
  on_windows :: bool
  pg_ctl_stops :: "nat \<Rightarrow> bool"
  lat :: "nat \<Rightarrow> nat"
  dies :: "nat \<Rightarrow> nat \<Rightarrow> int option"
  timer_first :: "nat \<Rightarrow> bool"
  health_reply :: "nat \<Rightarrow> int option"
  status_reply :: "nat \<Rightarrow> status_reply"
  post_reply :: "nat \<Rightarrow> int option"
  recovery_reply :: "nat \<Rightarrow> bool option"
  promote_reply :: "nat \<Rightarrow> bool option"
  tool_reply :: "nat \<Rightarrow> string \<Rightarrow> string list \<Rightarrow> datadir \<Rightarrow> int \<times> datadir"
  dial_ok :: "nat \<Rightarrow> bool"
  io_ok :: "nat \<Rightarrow> bool"
  spawn_ok :: "nat \<Rightarrow> bool"
  torn :: "nat \<Rightarrow> nat option"
  connect_ok :: "nat \<Rightarrow> bool"
  query_text :: "nat \<Rightarrow> string option"
  query_bool :: "nat \<Rightarrow> bool option"
  query_int :: "nat \<Rightarrow> int option"
  exec_ok :: "nat \<Rightarrow> bool"
  unmarshal :: "string \<Rightarrow> persistedState option"
  removed :: "nat \<Rightarrow> string \<Rightarrow> bool"
  temp_name :: "nat \<Rightarrow> string"
  host_name :: "nat \<Rightarrow> string option"
  lookup_host :: "nat \<Rightarrow> string list option"
  lookup_addr :: "nat \<Rightarrow> string list option"
  backup_reply :: "nat \<Rightarrow> string list \<Rightarrow> (string \<times> bool) list \<Rightarrow> int \<times> (string \<times> bool) list"
  pipe_reply :: "nat \<Rightarrow> int"

section \<open>Primitive steps\<close>

text \<open>
  An external call: time passes, and any process that was started and is still alive may
  have exited when it returns.
\<close>

definition tick :: "env \<Rightarrow> world \<Rightarrow> world" where
  "tick E w = w\<lparr>
     now := now w + int (lat E (calls w)),
     calls := Suc (calls w),
     exit_of := (\<lambda>p. case exit_of w p of
                       Some c \<Rightarrow> Some c
                     | None \<Rightarrow> if p < next_pid w then dies E (calls w) p else None)\<rparr>"

definition emit :: "event \<Rightarrow> world \<Rightarrow> world" where
  "emit e w = w\<lparr>trace := trace w @ [e]\<rparr>"

text \<open>\<open>time.Sleep(d)\<close> returns after at least \<open>d\<close>.\<close>

definition sleep :: "env \<Rightarrow> duration \<Rightarrow> world \<Rightarrow> world" where
  "sleep E d w = (let w1 = tick E w in w1\<lparr>now := now w1 + max 0 d\<rparr>)"

definition alive :: "world \<Rightarrow> nat \<Rightarrow> bool" where
  "alive w p \<longleftrightarrow> p < next_pid w \<and> exit_of w p = None"

text \<open>
  \<open>select\<close> over a child's \<open>done\<close> channel and \<open>time.After(d)\<close>: the child's exit is taken when
  it has happened, unless the timer fired too and was picked.
\<close>

definition wait_child :: "env \<Rightarrow> nat \<Rightarrow> duration \<Rightarrow> world \<Rightarrow> bool \<times> world" where
  "wait_child E p d w =
     (let w1 = tick E w
      in if exit_of w1 p \<noteq> None \<and> \<not> timer_first E (calls w) then (True, w1)
         else (False, w1\<lparr>now := now w1 + max 0 d\<rparr>))"

lemma tick_simps [simp, prims]:
  "calls (tick E w) = Suc (calls w)"
  "trace (tick E w) = trace w"
  "next_pid (tick E w) = next_pid w"
  "sup_proc (tick E w) = sup_proc w"
  "currentChild (tick E w) = currentChild w"
  "postgresRunning (tick E w) = postgresRunning w"
  "shutdownInProgress (tick E w) = shutdownInProgress w"
  "switchoverInProgress (tick E w) = switchoverInProgress w"
  "backupInProgress (tick E w) = backupInProgress w"
  "restartPending (tick E w) = restartPending w"
  "maintenanceActive (tick E w) = maintenanceActive w"
  "maintenanceWasPrimary (tick E w) = maintenanceWasPrimary w"
  "rebootSuppressUntil (tick E w) = rebootSuppressUntil w"
  "failoverPromoteDeadline (tick E w) = failoverPromoteDeadline w"
  "restartAt (tick E w) = restartAt w"
  "crashTimestamps (tick E w) = crashTimestamps w"
  "lastPeerSeen (tick E w) = lastPeerSeen w"
  "pgdata (tick E w) = pgdata w"
  "met (tick E w) = met w"
  "disk (tick E w) = disk w"
  "backup_entries (tick E w) = backup_entries w"
  "proc_exit (tick E w) = proc_exit w"
  by (simp_all add: tick_def)

lemma sleep_simps [simp, prims]:
  "trace (sleep E d w) = trace w"
  "next_pid (sleep E d w) = next_pid w"
  "sup_proc (sleep E d w) = sup_proc w"
  "currentChild (sleep E d w) = currentChild w"
  "postgresRunning (sleep E d w) = postgresRunning w"
  "shutdownInProgress (sleep E d w) = shutdownInProgress w"
  "switchoverInProgress (sleep E d w) = switchoverInProgress w"
  "backupInProgress (sleep E d w) = backupInProgress w"
  "restartPending (sleep E d w) = restartPending w"
  "maintenanceActive (sleep E d w) = maintenanceActive w"
  "maintenanceWasPrimary (sleep E d w) = maintenanceWasPrimary w"
  "rebootSuppressUntil (sleep E d w) = rebootSuppressUntil w"
  "failoverPromoteDeadline (sleep E d w) = failoverPromoteDeadline w"
  "restartAt (sleep E d w) = restartAt w"
  "crashTimestamps (sleep E d w) = crashTimestamps w"
  "lastPeerSeen (sleep E d w) = lastPeerSeen w"
  "pgdata (sleep E d w) = pgdata w"
  "met (sleep E d w) = met w"
  "disk (sleep E d w) = disk w"
  "backup_entries (sleep E d w) = backup_entries w"
  "proc_exit (sleep E d w) = proc_exit w"
  by (simp_all add: sleep_def Let_def)

lemma emit_simps [simp, prims]:
  "now (emit e w) = now w"
  "calls (emit e w) = calls w"
  "trace (emit e w) = trace w @ [e]"
  "next_pid (emit e w) = next_pid w"
  "exit_of (emit e w) = exit_of w"
  "sup_proc (emit e w) = sup_proc w"
  "currentChild (emit e w) = currentChild w"
  "postgresRunning (emit e w) = postgresRunning w"
  "shutdownInProgress (emit e w) = shutdownInProgress w"
  "switchoverInProgress (emit e w) = switchoverInProgress w"
  "backupInProgress (emit e w) = backupInProgress w"
  "restartPending (emit e w) = restartPending w"
  "maintenanceActive (emit e w) = maintenanceActive w"
  "maintenanceWasPrimary (emit e w) = maintenanceWasPrimary w"
  "rebootSuppressUntil (emit e w) = rebootSuppressUntil w"
  "failoverPromoteDeadline (emit e w) = failoverPromoteDeadline w"
  "restartAt (emit e w) = restartAt w"
  "crashTimestamps (emit e w) = crashTimestamps w"
  "lastPeerSeen (emit e w) = lastPeerSeen w"
  "pgdata (emit e w) = pgdata w"
  "met (emit e w) = met w"
  "disk (emit e w) = disk w"
  "backup_entries (emit e w) = backup_entries w"
  "proc_exit (emit e w) = proc_exit w"
  by (simp_all add: emit_def)

lemma tick_now [mono_clock]: "now w \<le> now (tick E w)"
  by (simp add: tick_def)

lemma sleep_now [mono_clock]: "now w \<le> now (sleep E d w)"
  by (simp add: sleep_def tick_def)

lemma sleep_advances: "now w + d \<le> now (sleep E d w)"
  by (simp add: sleep_def tick_def)

lemma world_evals [evals]:
  "now (tick E w) = now w + int (lat E (calls w))"
  "now (sleep E d w) = now w + int (lat E (calls w)) + max 0 d"
  "calls (sleep E d w) = Suc (calls w)"
  "exit_of (tick E w) p = (case exit_of w p of Some c \<Rightarrow> Some c
                     | None \<Rightarrow> if p < next_pid w then dies E (calls w) p else None)"
  "exit_of (sleep E d w) p = (case exit_of w p of Some c \<Rightarrow> Some c
                     | None \<Rightarrow> if p < next_pid w then dies E (calls w) p else None)"
  by (simp_all add: tick_def sleep_def Let_def)

lemma exit_of_tick [simp]: "exit_of w p = Some c \<Longrightarrow> exit_of (tick E w) p = Some c"
  by (simp add: tick_def)

lemma alive_tick: "alive (tick E w) p \<Longrightarrow> alive w p"
  by (auto simp: alive_def tick_def split: option.splits)

section \<open>Files\<close>

text \<open>
  A path under \<open>PGDATA\<close> is a file of \<open>pgdata\<close>, any other a file of \<open>disk\<close>. A failed write may
  have failed when the file was opened, or have left the first bytes of the new content.
\<close>

definition in_pgdata :: "config \<Rightarrow> string \<Rightarrow> bool" where
  "in_pgdata cfg path \<longleftrightarrow> HasPrefix path (PGData cfg @ ''/'')"

definition read_at :: "config \<Rightarrow> string \<Rightarrow> world \<Rightarrow> string option" where
  "read_at cfg path w =
     (if in_pgdata cfg path then pgdata w (TrimPrefix path (PGData cfg @ ''/''))
      else map_option fst (disk w path))"

definition store_at :: "config \<Rightarrow> string \<Rightarrow> string \<Rightarrow> world \<Rightarrow> world" where
  "store_at cfg path content w =
     (if in_pgdata cfg path
      then w\<lparr>pgdata := (pgdata w)(TrimPrefix path (PGData cfg @ ''/'') \<mapsto> content)\<rparr>
      else w\<lparr>disk := write_file path content 384 (disk w)\<rparr>)"

definition read_op :: "env \<Rightarrow> config \<Rightarrow> string \<Rightarrow> world \<Rightarrow> string option \<times> world" where
  "read_op E cfg path w =
     (if io_ok E (calls w) then read_at cfg path w else None, tick E w)"

definition write_op :: "env \<Rightarrow> config \<Rightarrow> string \<Rightarrow> string \<Rightarrow> world \<Rightarrow> bool \<times> world" where
  "write_op E cfg path content w =
     (let w1 = tick E w
      in if io_ok E (calls w) then (True, store_at cfg path content w1)
         else (False, case torn E (calls w) of
                        None \<Rightarrow> w1 | Some n \<Rightarrow> store_at cfg path (take n content) w1))"

lemma read_at_tick [simp]: "read_at cfg path (tick E w) = read_at cfg path w"
  by (simp add: read_at_def)

lemma read_at_emit [simp]: "read_at cfg path (emit e w) = read_at cfg path w"
  by (simp add: read_at_def)

lemma read_at_store [simp]: "read_at cfg path (store_at cfg path content w) = Some content"
  by (simp add: read_at_def store_at_def write_file_same)

lemma TrimPrefix_inj:
  "HasPrefix p q \<Longrightarrow> HasPrefix p' q \<Longrightarrow> TrimPrefix p q = TrimPrefix p' q \<Longrightarrow> p = p'"
  by (auto simp: HasPrefix_iff)

lemma read_at_store_other:
  "path' \<noteq> path \<Longrightarrow> read_at cfg path' (store_at cfg path content w) = read_at cfg path' w"
  by (auto simp: read_at_def store_at_def in_pgdata_def dest: TrimPrefix_inj)

lemma store_at_frame [simp]:
  "now (store_at cfg path c w) = now w" "calls (store_at cfg path c w) = calls w"
  "trace (store_at cfg path c w) = trace w" "next_pid (store_at cfg path c w) = next_pid w"
  "exit_of (store_at cfg path c w) = exit_of w" "sup_proc (store_at cfg path c w) = sup_proc w"
  "currentChild (store_at cfg path c w) = currentChild w"
  "postgresRunning (store_at cfg path c w) = postgresRunning w"
  "restartPending (store_at cfg path c w) = restartPending w"
  "restartAt (store_at cfg path c w) = restartAt w"
  "crashTimestamps (store_at cfg path c w) = crashTimestamps w"
  "met (store_at cfg path c w) = met w" "proc_exit (store_at cfg path c w) = proc_exit w"
  by (simp_all add: store_at_def)

section \<open>What one operation may change\<close>

text \<open>
  \<open>later w w'\<close>: \<open>w'\<close> comes after \<open>w\<close> on the same history. Every operation of the components
  relates its worlds so.
\<close>

definition later :: "world \<Rightarrow> world \<Rightarrow> bool" where
  "later w w' \<longleftrightarrow>
     now w \<le> now w' \<and> prefix (trace w) (trace w') \<and> next_pid w \<le> next_pid w' \<and>
     (\<forall>p c. exit_of w p = Some c \<longrightarrow> exit_of w' p = Some c)"

definition fresh_events :: "world \<Rightarrow> world \<Rightarrow> event list" where
  "fresh_events w w' = drop (length (trace w)) (trace w')"

text \<open>\<open>adds P w w'\<close>: the events between the two worlds all satisfy \<open>P\<close>.\<close>

definition adds :: "(event \<Rightarrow> bool) \<Rightarrow> world \<Rightarrow> world \<Rightarrow> bool" where
  "adds P w w' \<longleftrightarrow> (\<exists>es. trace w' = trace w @ es \<and> (\<forall>e \<in> set es. P e))"

text \<open>\<open>same_child w w'\<close>: the supervisor's view of its child is unchanged.\<close>

definition same_child :: "world \<Rightarrow> world \<Rightarrow> bool" where
  "same_child w w' \<longleftrightarrow>
     currentChild w' = currentChild w \<and> postgresRunning w' = postgresRunning w \<and>
     sup_proc w' = sup_proc w \<and> next_pid w' = next_pid w"

lemma later_refl [simp, intro]: "later w w"
  by (simp add: later_def)

lemma later_trans [trans]: "later u v \<Longrightarrow> later v w \<Longrightarrow> later u w"
  by (auto simp: later_def intro: prefix_order.trans)

lemma later_tick [simp, intro]: "later w (tick E w)"
  by (auto simp: later_def tick_def)

lemma later_sleep [simp, intro]: "later w (sleep E d w)"
  by (auto simp: later_def sleep_def tick_def)

lemma later_emit [simp, intro]: "later w (emit e w)"
  by (auto simp: later_def)

lemma later_now: "later w w' \<Longrightarrow> now w \<le> now w'"
  by (simp add: later_def)

lemma later_trace: "later w w' \<Longrightarrow> trace w' = trace w @ fresh_events w w'"
  by (auto simp: later_def fresh_events_def prefix_def)

lemma fresh_events_trans:
  "later u v \<Longrightarrow> later v w \<Longrightarrow> fresh_events u w = fresh_events u v @ fresh_events v w"
  by (auto simp: later_def fresh_events_def prefix_def)

lemma addsI: "trace w' = trace w @ es \<Longrightarrow> \<forall>e \<in> set es. P e \<Longrightarrow> adds P w w'"
  by (auto simp: adds_def)

lemma adds_same [intro]: "trace w' = trace w \<Longrightarrow> adds P w w'"
  by (simp add: adds_def)

lemma adds_trans [trans]: "adds P u v \<Longrightarrow> adds P v w \<Longrightarrow> adds P u w"
  by (fastforce simp: adds_def)

lemma adds_mono: "adds P u v \<Longrightarrow> (\<And>e. P e \<Longrightarrow> Q e) \<Longrightarrow> adds Q u v"
  by (auto simp: adds_def)

lemma adds_fresh: "adds P w w' \<Longrightarrow> e \<in> set (fresh_events w w') \<Longrightarrow> P e"
  by (auto simp: adds_def fresh_events_def)

lemma adds_split: "adds P w w' \<Longrightarrow> fresh_events w w' = ys @ x # zs \<Longrightarrow> P x"
  using adds_fresh [of P w w' x] by simp

lemma same_child_refl [simp, intro]: "same_child w w"
  by (simp add: same_child_def)

lemma same_child_trans [trans]: "same_child u v \<Longrightarrow> same_child v w \<Longrightarrow> same_child u w"
  by (simp add: same_child_def)

section \<open>Concrete values for examples\<close>

definition zero_metrics :: metrics where
  "zero_metrics = \<lparr>
     promotionsCounter = 0, rejoinsCounter = 0, lastPromotionDuration = 0,
     lastRejoinDuration = 0, lastBootstrapDuration = 0, postgresRestartsCounter = 0,
     lastPostgresCrashUnixNano = 0, pgGuardStartsCounter = 0, backupsCounter = 0,
     backupFailuresCounter = 0, lastBackupDuration = 0, lastBackupUnixNano = 0,
     backupLastAttemptOK = False, backupLastAttemptErr = None,
     backupLastAttemptUnixNano = 0 \<rparr>"

text \<open>The package variables as the process starts, at the time \<open>t\<close> over a data directory.\<close>

definition init_world :: "gotime \<Rightarrow> datadir \<Rightarrow> world" where
  "init_world t d = \<lparr>
     now = t, calls = 0, trace = [], next_pid = 0, exit_of = (\<lambda>_. None), sup_proc = None,
     currentChild = None, postgresRunning = False, shutdownInProgress = False,
     switchoverInProgress = False, backupInProgress = False, restartPending = False,
     maintenanceActive = False, maintenanceWasPrimary = False, rebootSuppressUntil = 0,
     failoverPromoteDeadline = 0, restartAt = None, crashTimestamps = [],
     lastPeerSeen = None, pgdata = d, met = zero_metrics, disk = (\<lambda>_. None), backup_entries = [],
     proc_exit = None \<rparr>"

text \<open>A node whose child, process 0, is running.\<close>

definition running_world :: "gotime \<Rightarrow> datadir \<Rightarrow> world" where
  "running_world t d = (init_world t d)\<lparr>
     next_pid := 1, sup_proc := Some 0, currentChild := Some 0, postgresRunning := True\<rparr>"

text \<open>
  A calm environment: calls take no time, the peer answers as a standby, the local server is
  a primary, a signalled child exits, tools and files work.
\<close>

definition calm :: env where
  "calm = \<lparr>
     on_windows = False, pg_ctl_stops = (\<lambda>_. True),
     lat = (\<lambda>_. 0), dies = (\<lambda>_ _. None), timer_first = (\<lambda>_. False),
     health_reply = (\<lambda>_. Some 200),
     status_reply = (\<lambda>_. StatusReply 200 (Some ''standby'')),
     post_reply = (\<lambda>_. Some 200), recovery_reply = (\<lambda>_. Some False),
     promote_reply = (\<lambda>_. Some True), tool_reply = (\<lambda>_ _ _ d. (0, d)),
     dial_ok = (\<lambda>_. False), io_ok = (\<lambda>_. True), spawn_ok = (\<lambda>_. True),
     torn = (\<lambda>_. None), connect_ok = (\<lambda>_. True), query_text = (\<lambda>_. None),
     query_bool = (\<lambda>_. Some True), query_int = (\<lambda>_. Some 0), exec_ok = (\<lambda>_. True),
     unmarshal = (\<lambda>_. None), removed = (\<lambda>_ _. False), temp_name = (\<lambda>_. ''pwfile-1''),
     host_name = (\<lambda>_. Some ''node-0''), lookup_host = (\<lambda>_. Some [''10.0.0.2'']),
     lookup_addr = (\<lambda>_. Some [''node-1.'']), backup_reply = (\<lambda>_ _ d. (0, d)), pipe_reply = (\<lambda>_. 0) \<rparr>"

text \<open>The same, with every process found exited from the \<open>n\<close>th call on.\<close>

definition calm_exit :: "nat \<Rightarrow> env" where
  "calm_exit n = calm\<lparr>dies := (\<lambda>k p. if n \<le> k then Some 0 else None)\<rparr>"

text \<open>A configuration as \<open>loadConfig\<close> gives it when only the peer and \<open>PGDATA\<close> are set.\<close>

definition demo_config :: config where
  "demo_config = zero_config\<lparr>
     PostgresBin := ''/usr/lib/postgresql/17/bin/postgres'', PGData := ''/pgdata'',
     ShutdownWait := 300 * second, PGPort := 5432, PostgresUser := ''postgres'',
     PostgresDB := ''postgres'', ReplUser := ''replicator'', APIPort := 8080,
     MetricsPort := 9100, PeerVerify := ''off'', PeerHost := ''node-1'', PeerPort := 8080,
     PeerMetricsPort := 9100, ShutdownPolicy := ''require-switchover'',
     ShutdownMode := ''switchover'', RebootGracePeriod := 180 * second,
     FailoverTimeout := 60 * second, FailoverMode := ''automatic'',
     BootstrapRole := ''auto'', PostgresRestartLimit := 5,
     PostgresRestartWindow := 10 * minute, PostgresRestartBackoff := 5 * second\<rparr>"

lemmas world_eval_defs [evals] =
  calm_def calm_exit_def demo_config_def zero_config_def running_world_def init_world_def
  zero_metrics_def wait_child_def fresh_events_def Let_def

end
