(* ===== verification/Supervisor.thy ===== *)
theory Supervisor
  imports World
begin

text \<open>
  \<open>src/src/supervisor.go\<close>, \<open>child.go\<close>, \<open>stop_linux.go\<close> and \<open>stop_windows.go\<close>: starting,
  stopping and killing the one child. A process is known by its number; \<open>sup_proc\<close> is the supervisor's
  \<open>cmd.Process\<close>, \<open>None\<close> where the command or its process is nil. A \<open>childWatcher\<close> is the
  number of the child it watches, and its \<open>done\<close> channel is closed when the child has exited.
\<close>

definition start :: "env \<Rightarrow> config \<Rightarrow> world \<Rightarrow> (pg_error + nat) \<times> world" where
  "start E cfg w =
     (let w1 = (tick E w)\<lparr>sup_proc := None\<rparr>; p = next_pid w1
      in if \<not> spawn_ok E (calls w) then (Inl (Err ''starting child''), w1)
         else (Inr p, emit (EvStart p) (w1\<lparr>next_pid := Suc p, sup_proc := Some p\<rparr>)))"

text \<open>\<open>watchChild\<close> followed by the stores every caller makes.\<close>

definition watch_child :: "nat \<Rightarrow> world \<Rightarrow> world" where
  "watch_child p w = w\<lparr>currentChild := Some p, postgresRunning := True\<rparr>"

text \<open>\<open>Process.Signal\<close> fails once the process has exited; otherwise the kernel may refuse.\<close>

definition signalChild :: "env \<Rightarrow> signal \<Rightarrow> world \<Rightarrow> (pg_error + unit) \<times> world" where
  "signalChild E sig w =
     (case sup_proc w of
        None \<Rightarrow> (Inl (Err ''no child process running''), w)
      | Some p \<Rightarrow>
          (let w1 = emit (EvSignal p sig) (tick E w)
           in if exit_of w p \<noteq> None \<or> \<not> io_ok E (calls w) then (Inl (Err ''process already finished''), w1)
              else (Inr (), w1)))"

text \<open>\<open>pg_ctl stop\<close> waits for the server itself, for as long as it takes.\<close>

definition pg_ctl_path :: "config \<Rightarrow> string" where
  "pg_ctl_path cfg = JoinPath_windows [Dir_windows (PostgresBin cfg), ''pg_ctl.exe'']"

definition stop_windows :: "env \<Rightarrow> config \<Rightarrow> world \<Rightarrow> (pg_error + unit) \<times> world" where
  "stop_windows E cfg w =
     (if PGData cfg = [] then (Inl (Err ''cannot stop gracefully: PGDATA is not set''), w)
      else
        (let w1 = emit (EvStopTool (pg_ctl_path cfg) [''stop'', ''-D'', PGData cfg, ''-m'', ''fast'']) (tick E w)
         in if pg_ctl_stops E (calls w) then (Inr (), w1) else (Inl (Err ''pg_ctl stop failed''), w1)))"

text \<open>The two files \<open>stop_linux.go\<close> and \<open>stop_windows.go\<close>, one of which is compiled in.\<close>

definition stopGracefullyPlatform ::
  "env \<Rightarrow> config \<Rightarrow> signal \<Rightarrow> world \<Rightarrow> (pg_error + unit) \<times> world" where
  "stopGracefullyPlatform E cfg sig w = (if on_windows E then stop_windows E cfg w else signalChild E sig w)"

definition stopGracefully :: "env \<Rightarrow> config \<Rightarrow> signal \<Rightarrow> world \<Rightarrow> (pg_error + unit) \<times> world" where
  "stopGracefully E cfg sig w = stopGracefullyPlatform E cfg sig w"

lemmas stop_defs = stopGracefully_def stopGracefullyPlatform_def stop_windows_def

text \<open>
  \<open>Process.Kill\<close> likewise. \<open>EvKill\<close> is a kill that was delivered, \<open>EvKillRefused\<close> one the kernel
  refused although the process had not exited.
\<close>

definition killChild :: "env \<Rightarrow> world \<Rightarrow> (pg_error + unit) \<times> world" where
  "killChild E w =
     (case sup_proc w of
        None \<Rightarrow> (Inl (Err ''no child process running''), w)
      | Some p \<Rightarrow>
          (let w1 = tick E w
           in if exit_of w p \<noteq> None then (Inl (Err ''process already finished''), w1)
              else if \<not> io_ok E (calls w) then (Inl (Err ''kill''), emit (EvKillRefused p) w1)
              else (Inr (), emit (EvKill p) w1)))"

definition pid :: "world \<Rightarrow> nat option" where
  "pid w = sup_proc w"

text \<open>The stores that record the child as stopped.\<close>

definition clear_child :: "nat \<Rightarrow> world \<Rightarrow> world" where
  "clear_child p w = emit (EvCleared p) (w\<lparr>currentChild := None, postgresRunning := False\<rparr>)"

definition forget_child :: "world \<Rightarrow> world" where
  "forget_child w = w\<lparr>currentChild := None, postgresRunning := False\<rparr>"

lemmas supervisor_eval_defs [evals] =
  start_def watch_child_def signalChild_def stop_defs killChild_def clear_child_def
  forget_child_def

section \<open>Frames\<close>

lemma signalChild_frame [simp, frame]:
  "currentChild (snd (signalChild E sig w)) = currentChild w"
  "postgresRunning (snd (signalChild E sig w)) = postgresRunning w"
  "sup_proc (snd (signalChild E sig w)) = sup_proc w"
  "next_pid (snd (signalChild E sig w)) = next_pid w"
  "pgdata (snd (signalChild E sig w)) = pgdata w"
  "restartPending (snd (signalChild E sig w)) = restartPending w"
  "restartAt (snd (signalChild E sig w)) = restartAt w"
  "crashTimestamps (snd (signalChild E sig w)) = crashTimestamps w"
  "met (snd (signalChild E sig w)) = met w"
  "proc_exit (snd (signalChild E sig w)) = proc_exit w"
  by (auto simp: signalChild_def Let_def split: option.splits)

lemma killChild_frame [simp, frame]:
  "currentChild (snd (killChild E w)) = currentChild w"
  "postgresRunning (snd (killChild E w)) = postgresRunning w"
  "sup_proc (snd (killChild E w)) = sup_proc w"
  "next_pid (snd (killChild E w)) = next_pid w"
  "pgdata (snd (killChild E w)) = pgdata w"
  "restartPending (snd (killChild E w)) = restartPending w"
  "restartAt (snd (killChild E w)) = restartAt w"
  "crashTimestamps (snd (killChild E w)) = crashTimestamps w"
  "met (snd (killChild E w)) = met w"
  "proc_exit (snd (killChild E w)) = proc_exit w"
  by (auto simp: killChild_def Let_def split: option.splits)

lemma wait_child_frame [simp, frame]:
  "currentChild (snd (wait_child E p d w)) = currentChild w"
  "postgresRunning (snd (wait_child E p d w)) = postgresRunning w"
  "sup_proc (snd (wait_child E p d w)) = sup_proc w"
  "next_pid (snd (wait_child E p d w)) = next_pid w"
  "trace (snd (wait_child E p d w)) = trace w"
  "pgdata (snd (wait_child E p d w)) = pgdata w"
  "restartPending (snd (wait_child E p d w)) = restartPending w"
  "restartAt (snd (wait_child E p d w)) = restartAt w"
  "crashTimestamps (snd (wait_child E p d w)) = crashTimestamps w"
  "met (snd (wait_child E p d w)) = met w"
  "proc_exit (snd (wait_child E p d w)) = proc_exit w"
  by (simp_all add: wait_child_def Let_def)

lemma later_signalChild [simp, intro]: "later w (snd (signalChild E sig w))"
  by (auto simp: signalChild_def Let_def later_def tick_def split: option.splits)

lemma stopGracefully_frame [simp, frame]:
  "currentChild (snd (stopGracefully E cfg sig w)) = currentChild w"
  "postgresRunning (snd (stopGracefully E cfg sig w)) = postgresRunning w"
  "sup_proc (snd (stopGracefully E cfg sig w)) = sup_proc w"
  "next_pid (snd (stopGracefully E cfg sig w)) = next_pid w"
  by (simp_all add: stop_defs Let_def)

lemma later_killChild [simp, intro]: "later w (snd (killChild E w))"
  by (auto simp: killChild_def Let_def later_def tick_def split: option.splits)

lemma later_wait_child [simp, intro]: "later w (snd (wait_child E p d w))"
  by (auto simp: wait_child_def Let_def later_def tick_def)

lemma later_start [simp, intro]: "later w (snd (start E cfg w))"
  by (auto simp: start_def Let_def later_def tick_def)

lemma later_clear_child [simp, intro]: "later w (clear_child p w)"
  by (auto simp: clear_child_def later_def)

lemma later_watch_child [simp, intro]: "later w (watch_child p w)"
  by (auto simp: watch_child_def later_def)

lemma later_forget_child [simp, intro]: "later w (forget_child w)"
  by (auto simp: forget_child_def later_def)

lemma wait_child_done: "fst (wait_child E p d w) \<Longrightarrow> exit_of (snd (wait_child E p d w)) p \<noteq> None"
  by (auto simp: wait_child_def Let_def split: if_splits)

text \<open>A freshly started child is alive, and its number was never used before.\<close>

lemma start_Inr:
  "start E cfg w = (Inr p, w') \<Longrightarrow>
     p = next_pid w \<and> next_pid w' = Suc p \<and> sup_proc w' = Some p \<and>
     trace w' = trace w @ [EvStart p] \<and> currentChild w' = currentChild w \<and>
     postgresRunning w' = postgresRunning w"
  by (auto simp: start_def Let_def split: if_splits)

lemma start_Inl:
  "start E cfg w = (Inl e, w') \<Longrightarrow>
     e = Err ''starting child'' \<and> next_pid w' = next_pid w \<and> sup_proc w' = None \<and>
     trace w' = trace w \<and> currentChild w' = currentChild w \<and>
     postgresRunning w' = postgresRunning w"
  by (auto simp: start_def Let_def split: if_splits)

end
