(* ===== verification/Peer.thy ===== *)
theory Peer
  imports Supervisor
begin

text \<open>
  \<open>src/src/peer.go\<close> and the queries of \<open>src/src/db.go\<close> that decide roles: reachability and
  status of the peer, the two requests sent to it, the local \<open>pg_is_in_recovery()\<close> and
  \<open>pg_promote()\<close>. A request sent is recorded with its URL and its \<open>Authorization\<close> header.
\<close>

section \<open>Addresses\<close>

definition JoinHostPort :: "string \<Rightarrow> string \<Rightarrow> string" where
  "JoinHostPort host port =
     (if CHR '':'' \<in> set host then ''['' @ host @ '']:'' @ port else host @ '':'' @ port)"

definition peerAPIURL :: "config \<Rightarrow> string \<Rightarrow> string" where
  "peerAPIURL cfg path =
     (if TLSEnabled cfg then ''https://'' else ''http://'')
       @ JoinHostPort (PeerHost cfg) (Itoa (PeerPort cfg)) @ path"

definition peerMetricsURL :: "config \<Rightarrow> string \<Rightarrow> string" where
  "peerMetricsURL cfg path =
     ''http://'' @ JoinHostPort (PeerHost cfg) (Itoa (PeerMetricsPort cfg)) @ path"

definition authorization :: "config \<Rightarrow> string" where
  "authorization cfg = (if APIToken cfg \<noteq> [] then ''Bearer '' @ APIToken cfg else [])"

section \<open>Requests to the peer\<close>

definition markPeerSeen :: "world \<Rightarrow> world" where
  "markPeerSeen w = w\<lparr>lastPeerSeen := Some (now w)\<rparr>"

text \<open>\<open>None\<close> is the \<open>-1\<close> of a peer never seen.\<close>

definition secondsSincePeerSeen :: "world \<Rightarrow> duration option" where
  "secondsSincePeerSeen w = map_option (\<lambda>t. now w - t) (lastPeerSeen w)"

definition checkPeerReachable :: "env \<Rightarrow> config \<Rightarrow> world \<Rightarrow> bool \<times> world" where
  "checkPeerReachable E cfg w =
     (if PeerHost cfg = [] then (False, w)
      else (let reachable = (health_reply E (calls w) = Some 200);
                w1 = emit (EvHealth reachable) (tick E w)
            in (reachable, if reachable then markPeerSeen w1 else w1)))"

text \<open>The role a reply to \<open>GET /status\<close> yields, if it is accepted.\<close>

fun reported_role :: "status_reply \<Rightarrow> pg_error + string" where
  "reported_role StatusUnreachable = Inl (Err ''fetching peer status'')"
| "reported_role (StatusReply code body) =
     (if code \<noteq> 200 then Inl (ErrCode ''peer /status returned'' code)
      else case body of None \<Rightarrow> Inl (Err ''decoding peer status'') | Some role \<Rightarrow> Inr role)"

definition fetchPeerStatus :: "env \<Rightarrow> config \<Rightarrow> world \<Rightarrow> (pg_error + string) \<times> world" where
  "fetchPeerStatus E cfg w =
     (if PeerHost cfg = [] then (Inl NoPeerConfigured, w)
      else (let reply = status_reply E (calls w);
                w1 = emit (EvStatus reply) (tick E w)
            in (reported_role reply,
                if is_ok (reported_role reply) then markPeerSeen w1 else w1)))"

definition requestPeerPromote :: "env \<Rightarrow> config \<Rightarrow> world \<Rightarrow> (pg_error + unit) \<times> world" where
  "requestPeerPromote E cfg w =
     (if PeerHost cfg = [] then (Inl NoPeerConfigured, w)
      else (let w1 = emit (EvPostPromote (peerAPIURL cfg ''/api/promote?force=true'')
                            (authorization cfg)) (tick E w)
            in case post_reply E (calls w) of
                 None \<Rightarrow> (Inl (Err ''requesting peer promote''), w1)
               | Some code \<Rightarrow>
                   (if code \<noteq> 200 then Inl (ErrCode ''peer promote returned'' code) else Inr (), w1)))"

definition notifyPeerReboot :: "env \<Rightarrow> config \<Rightarrow> world \<Rightarrow> (pg_error + unit) \<times> world" where
  "notifyPeerReboot E cfg w =
     (if PeerHost cfg = [] then (Inl NoPeerConfigured, w)
      else (let w1 = emit (EvPostRebootNotice (peerAPIURL cfg ''/api/reboot-notice'')
                            (authorization cfg)) (tick E w)
            in case post_reply E (calls w) of
                 None \<Rightarrow> (Inl (Err ''notifying peer''), w1)
               | Some code \<Rightarrow>
                   (if code \<noteq> 200 then Inl (ErrCode ''peer reboot-notice returned'' code)
                    else Inr (), w1)))"

section \<open>Local queries\<close>

definition isInRecovery :: "env \<Rightarrow> world \<Rightarrow> (pg_error + bool) \<times> world" where
  "isInRecovery E w =
     (let r = recovery_reply E (calls w); w1 = emit (EvRole r) (tick E w)
      in (case r of None \<Rightarrow> Inl (Err ''querying pg_is_in_recovery'') | Some b \<Rightarrow> Inr b, w1))"

definition promote :: "env \<Rightarrow> world \<Rightarrow> (pg_error + unit) \<times> world" where
  "promote E w =
     (let r = promote_reply E (calls w); w1 = emit (EvLocalPromote r) (tick E w)
      in (case r of
            None \<Rightarrow> Inl (Err ''calling pg_promote'')
          | Some b \<Rightarrow> if \<not> b then Inl (Err ''pg_promote() returned false'') else Inr (), w1))"

lemma markPeerSeen_simps [simp]:
  "now (markPeerSeen w) = now w" "calls (markPeerSeen w) = calls w"
  "trace (markPeerSeen w) = trace w" "next_pid (markPeerSeen w) = next_pid w"
  "sup_proc (markPeerSeen w) = sup_proc w" "exit_of (markPeerSeen w) = exit_of w"
  "currentChild (markPeerSeen w) = currentChild w"
  "postgresRunning (markPeerSeen w) = postgresRunning w"
  "pgdata (markPeerSeen w) = pgdata w"
  by (simp_all add: markPeerSeen_def)

lemma demo_port [evals]: "Itoa 8080 = ''8080''"
  by (simp add: Itoa_def nat_digits.simps digit_def char_of_def bit_0)

lemmas peer_eval_defs [evals] =
  checkPeerReachable_def fetchPeerStatus_def requestPeerPromote_def notifyPeerReboot_def
  isInRecovery_def promote_def peerAPIURL_def JoinHostPort_def authorization_def

section \<open>What the requests do to the state\<close>

lemmas peer_defs =
  checkPeerReachable_def fetchPeerStatus_def requestPeerPromote_def notifyPeerReboot_def
  isInRecovery_def promote_def markPeerSeen_def

text \<open>
  None of them touches anything but the clock, the trace, the exits of children and the time
  the peer was last seen.
\<close>

definition only_observed :: "world \<Rightarrow> world \<Rightarrow> bool" where
  "only_observed w w' \<longleftrightarrow>
     later w w' \<and>
     pgdata w' = pgdata w \<and>
     met w' = met w \<and>
     restartPending w' = restartPending w \<and>
     restartAt w' = restartAt w \<and>
     crashTimestamps w' = crashTimestamps w \<and>
     proc_exit w' = proc_exit w \<and>
     postgresRunning w' = postgresRunning w \<and>
     currentChild w' = currentChild w \<and>
     sup_proc w' = sup_proc w \<and>
     next_pid w' = next_pid w \<and>
     rebootSuppressUntil w' = rebootSuppressUntil w \<and>
     failoverPromoteDeadline w' = failoverPromoteDeadline w \<and>
     maintenanceActive w' = maintenanceActive w \<and>
     maintenanceWasPrimary w' = maintenanceWasPrimary w \<and>
     shutdownInProgress w' = shutdownInProgress w \<and>
     switchoverInProgress w' = switchoverInProgress w \<and>
     backupInProgress w' = backupInProgress w \<and>
     disk w' = disk w"

lemma only_observedD:
  assumes "only_observed w w'"
  shows "later w w'" "same_child w w'"
    "pgdata w' = pgdata w"
    "met w' = met w"
    "restartPending w' = restartPending w"
    "restartAt w' = restartAt w"
    "crashTimestamps w' = crashTimestamps w"
    "proc_exit w' = proc_exit w"
    "postgresRunning w' = postgresRunning w"
    "currentChild w' = currentChild w"
    "sup_proc w' = sup_proc w"
    "next_pid w' = next_pid w"
    "rebootSuppressUntil w' = rebootSuppressUntil w"
    "failoverPromoteDeadline w' = failoverPromoteDeadline w"
    "maintenanceActive w' = maintenanceActive w"
    "maintenanceWasPrimary w' = maintenanceWasPrimary w"
    "shutdownInProgress w' = shutdownInProgress w"
    "switchoverInProgress w' = switchoverInProgress w"
    "backupInProgress w' = backupInProgress w"
    "disk w' = disk w"
  using assms unfolding only_observed_def same_child_def by blast+

lemma only_observed_refl [simp, intro]: "only_observed w w"
  by (simp add: only_observed_def)

lemma only_observed_trans [trans]:
  assumes "only_observed u v" and "only_observed v w"
  shows "only_observed u w"
  using later_trans [OF only_observedD(1) [OF assms(1)] only_observedD(1) [OF assms(2)]]
  by (simp add: only_observed_def only_observedD [OF assms(2)] only_observedD [OF assms(1)])

lemma only_observed_tick [simp, intro]: "only_observed w (tick E w)"
  by (simp add: only_observed_def)

lemma only_observed_emit [simp, intro]: "only_observed w (emit e w)"
  by (simp add: only_observed_def)

lemma only_observed_seen [simp, intro]: "only_observed w (markPeerSeen w)"
  by (simp add: only_observed_def markPeerSeen_def later_def)

lemma only_observed_sleep [simp, intro]: "only_observed w (sleep E d w)"
  by (simp add: only_observed_def)

lemmas observed_steps =
  only_observed_trans [OF only_observed_tick only_observed_emit]
  only_observed_trans [OF only_observed_trans [OF only_observed_tick only_observed_emit]
    only_observed_seen]

lemma only_observed_peer [simp, intro]:
  "only_observed w (snd (checkPeerReachable E cfg w))"
  "only_observed w (snd (fetchPeerStatus E cfg w))"
  "only_observed w (snd (requestPeerPromote E cfg w))"
  "only_observed w (snd (notifyPeerReboot E cfg w))"
  "only_observed w (snd (isInRecovery E w))"
  "only_observed w (snd (promote E w))"
  by (auto simp: checkPeerReachable_def fetchPeerStatus_def requestPeerPromote_def
      notifyPeerReboot_def isInRecovery_def promote_def Let_def intro: observed_steps
      split: option.splits)

lemmas later_peer [simp, intro] = only_observed_peer [THEN only_observedD(1)]

text \<open>The events each of them adds.\<close>

lemma fetchPeerStatus_trace:
  "trace (snd (fetchPeerStatus E cfg w)) =
     trace w @ (if PeerHost cfg = [] then [] else [EvStatus (status_reply E (calls w))])"
  by (auto simp: fetchPeerStatus_def markPeerSeen_def Let_def)

lemma fetchPeerStatus_fst:
  "fst (fetchPeerStatus E cfg w) =
     (if PeerHost cfg = [] then Inl NoPeerConfigured else reported_role (status_reply E (calls w)))"
  by (auto simp: fetchPeerStatus_def Let_def)

lemma reported_role_Inr: "reported_role r = Inr role \<longleftrightarrow> r = StatusReply 200 (Some role)"
  by (cases r) (auto split: option.splits)

lemma fetchPeerStatus_Inr:
  "fst (fetchPeerStatus E cfg w) = Inr role \<longleftrightarrow>
     PeerHost cfg \<noteq> [] \<and> status_reply E (calls w) = StatusReply 200 (Some role)"
  by (auto simp: fetchPeerStatus_fst reported_role_Inr)

lemma isInRecovery_trace:
  "trace (snd (isInRecovery E w)) = trace w @ [EvRole (recovery_reply E (calls w))]"
  by (simp add: isInRecovery_def Let_def)

lemma isInRecovery_fst:
  "fst (isInRecovery E w) = Inr b \<longleftrightarrow> recovery_reply E (calls w) = Some b"
  by (auto simp: isInRecovery_def Let_def split: option.splits)

lemma requestPeerPromote_trace:
  "trace (snd (requestPeerPromote E cfg w)) =
     trace w @ (if PeerHost cfg = [] then []
                else [EvPostPromote (peerAPIURL cfg ''/api/promote?force=true'')
                        (authorization cfg)])"
  by (auto simp: requestPeerPromote_def Let_def split: option.splits)

lemma notifyPeerReboot_trace:
  "trace (snd (notifyPeerReboot E cfg w)) =
     trace w @ (if PeerHost cfg = [] then []
                else [EvPostRebootNotice (peerAPIURL cfg ''/api/reboot-notice'')
                        (authorization cfg)])"
  by (auto simp: notifyPeerReboot_def Let_def split: option.splits)

lemmas peer_traces =
  fetchPeerStatus_trace isInRecovery_trace requestPeerPromote_trace notifyPeerReboot_trace

end
