(* ===== verification/Quoting.thy ===== *)
theory Quoting
  imports Peer
begin

text \<open>
  The strings pg-guard hands to PostgreSQL: \<open>dsnQuote\<close> (\<open>src/src/db.go\<close>), \<open>pgIdent\<close> and
  \<open>pgLiteral\<close> (\<open>src/src/bootstrap.go\<close>), the connection strings and SQL statements built with
  them, and the two connection strings of \<open>src/src/rewind.go\<close> that are built without.

  They are checked against readers of the two documented formats: the keyword/value connection
  string (blanks separate, and may
  surround the equal sign, a value in single quotes may hold anything, a backslash takes the next
  byte as it is) and SQL with \<open>standard_conforming_strings\<close> on (a doubled quote inside quotes
  stands for the quote).
\<close>

section \<open>Quoting\<close>

abbreviation quote_char :: char where "quote_char \<equiv> CHR 0x27"
abbreviation double_quote :: char where "double_quote \<equiv> CHR 0x22"
abbreviation backslash :: char where "backslash \<equiv> CHR 0x5C"

definition dsnQuote :: "string \<Rightarrow> string" where
  "dsnQuote s =
     (let s = ReplaceAll s backslash [backslash, backslash];
          s = ReplaceAll s quote_char [backslash, quote_char]
      in [quote_char] @ s @ [quote_char])"

definition pgIdent :: "string \<Rightarrow> string" where
  "pgIdent s = [double_quote] @ ReplaceAll s double_quote [double_quote, double_quote] @ [double_quote]"

definition pgLiteral :: "string \<Rightarrow> string" where
  "pgLiteral s = [quote_char] @ ReplaceAll s quote_char [quote_char, quote_char] @ [quote_char]"

section \<open>What is built with it\<close>

text \<open>\<open>newPool\<close> and \<open>ensureRoleAndDatabase\<close> build the same string.\<close>

definition maintenanceConnString :: "config \<Rightarrow> string" where
  "maintenanceConnString cfg =
     ''host=127.0.0.1 port='' @ Itoa (PGPort cfg) @ '' user='' @ dsnQuote (PostgresUser cfg)
       @ '' password='' @ dsnQuote (PostgresPassword cfg)
       @ '' dbname=postgres sslmode=disable connect_timeout=5''"

definition socketConnString :: "string \<Rightarrow> config \<Rightarrow> string" where
  "socketConnString dir cfg =
     ''host='' @ dir @ '' port='' @ Itoa (PGPort cfg) @ '' user='' @ dsnQuote (PostgresUser cfg)
       @ '' dbname=postgres sslmode=disable connect_timeout=5''"

definition rewindSource :: "config \<Rightarrow> string" where
  "rewindSource cfg =
     ''host='' @ PeerHost cfg @ '' port='' @ Itoa (PGPort cfg) @ '' user='' @ ReplUser cfg
       @ '' password='' @ ReplPassword cfg @ '' dbname='' @ PostgresDB cfg
       @ '' sslmode=disable connect_timeout=5''"

definition standbyConnInfo :: "config \<Rightarrow> string" where
  "standbyConnInfo cfg =
     ''host='' @ PeerHost cfg @ '' port='' @ Itoa (PGPort cfg) @ '' user='' @ ReplUser cfg
       @ '' password='' @ ReplPassword cfg @ '' dbname='' @ PostgresDB cfg @ '' sslmode=disable''"

definition createRoleSQL :: "config \<Rightarrow> string" where
  "createRoleSQL cfg =
     ''CREATE ROLE '' @ pgIdent (ReplUser cfg) @ '' WITH REPLICATION LOGIN''
       @ (if ReplPassword cfg \<noteq> [] then '' PASSWORD '' @ pgLiteral (ReplPassword cfg) else [])"

definition createDatabaseSQL :: "config \<Rightarrow> string" where
  "createDatabaseSQL cfg =
     ''CREATE DATABASE '' @ pgIdent (PostgresDB cfg) @ '' WITH OWNER '' @ pgIdent (PostgresUser cfg)
       @ '' ENCODING '' @ [quote_char] @ ''UTF8'' @ [quote_char]"

definition alterRoleSQL :: "string \<Rightarrow> string \<Rightarrow> string" where
  "alterRoleSQL role password = ''ALTER ROLE '' @ pgIdent role @ '' PASSWORD '' @ pgLiteral password"

section \<open>Reading the two formats\<close>

text \<open>A quoted SQL token, its opening quote \<open>q\<close> already read.\<close>

fun sql_quoted :: "char \<Rightarrow> string \<Rightarrow> (string \<times> string) option" where
  "sql_quoted q [] = None"
| "sql_quoted q (c # s) =
     (if c \<noteq> q then map_option (\<lambda>(v, r). (c # v, r)) (sql_quoted q s)
      else case s of
             d # s' \<Rightarrow> if d = q then map_option (\<lambda>(v, r). (q # v, r)) (sql_quoted q s')
                      else Some ([], d # s')
           | [] \<Rightarrow> Some ([], []))"

text \<open>A quoted value of a connection string, its opening quote already read.\<close>

fun dsn_quoted :: "string \<Rightarrow> (string \<times> string) option" where
  "dsn_quoted [] = None"
| "dsn_quoted (c # s) =
     (if c = quote_char then Some ([], s)
      else if c = backslash then
        (case s of d # s' \<Rightarrow> map_option (\<lambda>(v, r). (d # v, r)) (dsn_quoted s') | [] \<Rightarrow> None)
      else map_option (\<lambda>(v, r). (c # v, r)) (dsn_quoted s))"

definition blank :: "char \<Rightarrow> bool" where
  "blank c \<longleftrightarrow> c \<in> {CHR 0x20, CHR 0x09, CHR 0x0A, CHR 0x0B, CHR 0x0C, CHR 0x0D}"

fun dsn_plain :: "string \<Rightarrow> string \<times> string" where
  "dsn_plain [] = ([], [])"
| "dsn_plain (c # s) =
     (if blank c then ([], c # s)
      else if c = backslash then
        (case s of d # s' \<Rightarrow> map_prod (\<lambda>v. d # v) id (dsn_plain s') | [] \<Rightarrow> ([], []))
      else map_prod (\<lambda>v. c # v) id (dsn_plain s))"

definition dsn_value :: "string \<Rightarrow> (string \<times> string) option" where
  "dsn_value s =
     (case dropWhile blank s of
        c # t \<Rightarrow> if c = quote_char then dsn_quoted t else Some (dsn_plain (c # t))
      | [] \<Rightarrow> Some ([], []))"

text \<open>The reader of an SQL literal and of a connection-string value, from its opening quote.\<close>

definition sql_token :: "char \<Rightarrow> string \<Rightarrow> (string \<times> string) option" where
  "sql_token q s = (case s of c # t \<Rightarrow> if c = q then sql_quoted q t else None | [] \<Rightarrow> None)"

definition dsn_token :: "string \<Rightarrow> (string \<times> string) option" where
  "dsn_token s = (case s of c # t \<Rightarrow> if c = quote_char then dsn_quoted t else None | [] \<Rightarrow> None)"

lemma sql_quoted_shorter: "sql_quoted q s = Some (v, r) \<Longrightarrow> length r < length s"
proof (induction q s arbitrary: v r rule: sql_quoted.induct)
  case (1 q)
  then show ?case by simp
next
  case (2 q c s)
  show ?case
  proof (cases "c = q")
    case False
    with "2.prems" obtain v' where "sql_quoted q s = Some (v', r)" by auto
    from "2.IH"(1) [OF False this] show ?thesis by simp
  next
    case True
    show ?thesis
    proof (cases s)
      case Nil
      with True "2.prems" show ?thesis by simp
    next
      case (Cons d s')
      show ?thesis
      proof (cases "d = q")
        case dq: True
        with True Cons "2.prems" obtain v' where "sql_quoted q s' = Some (v', r)" by auto
        from "2.IH"(2) [OF _ Cons dq this] True Cons show ?thesis by simp
      next
        case False
        with True Cons "2.prems" show ?thesis by auto
      qed
    qed
  qed
qed

lemma dsn_quoted_shorter: "dsn_quoted s = Some (v, r) \<Longrightarrow> length r < length s"
proof (induction s arbitrary: v r rule: dsn_quoted.induct)
  case 1
  then show ?case by simp
next
  case (2 c s)
  consider "c = quote_char" | "c = backslash" | "c \<noteq> quote_char" "c \<noteq> backslash" by blast
  then show ?case
  proof cases
    case 1
    with "2.prems" show ?thesis by simp
  next
    case bs: 2
    show ?thesis
    proof (cases s)
      case Nil
      with bs "2.prems" show ?thesis by simp
    next
      case (Cons d s')
      with bs "2.prems" obtain v' where "dsn_quoted s' = Some (v', r)" by auto
      from "2.IH"(1) [OF _ bs Cons this] bs Cons show ?thesis by simp
    qed
  next
    case 3
    with "2.prems" obtain v' where "dsn_quoted s = Some (v', r)" by auto
    from "2.IH"(2) [OF 3 this] show ?thesis by simp
  qed
qed

lemma dsn_plain_shorter: "length (snd (dsn_plain s)) \<le> length s"
proof (induction s rule: dsn_plain.induct)
  case 1
  then show ?case by simp
next
  case (2 c s)
  consider "blank c" | "\<not> blank c" "c = backslash" | "\<not> blank c" "c \<noteq> backslash" by blast
  then show ?case
  proof cases
    case 1
    then show ?thesis by simp
  next
    case bs: 2
    show ?thesis
    proof (cases s)
      case Nil
      with bs show ?thesis by simp
    next
      case (Cons d s')
      from "2.IH"(1) [OF bs Cons] bs Cons show ?thesis by (simp add: map_prod_def split_beta)
    qed
  next
    case 3
    from "2.IH"(2) [OF 3] 3 show ?thesis by (simp add: map_prod_def split_beta)
  qed
qed

lemma dropWhile_shorter: "dropWhile P s = d # t \<Longrightarrow> length t < length s"
  using length_dropWhile_le [of P s] by simp

lemma dsn_value_shorter:
  assumes "dsn_value s = Some (v, r)"
  shows "length r \<le> length s"
proof -
  have d: "length (dropWhile blank s) \<le> length s" by (rule length_dropWhile_le)
  show ?thesis
  proof (cases "dropWhile blank s")
    case Nil
    with assms show ?thesis by (simp add: dsn_value_def)
  next
    case (Cons c t)
    show ?thesis
    proof (cases "c = quote_char")
      case True
      with Cons assms have "length r < length t" by (simp add: dsn_value_def dsn_quoted_shorter)
      with Cons d show ?thesis by simp
    next
      case False
      with Cons assms have "r = snd (dsn_plain (c # t))" by (simp add: dsn_value_def)
      then show ?thesis using dsn_plain_shorter [of "c # t"] Cons d by simp
    qed
  qed
qed

text \<open>\<open>conninfo_pairs k s\<close>: the keyword/value pairs of \<open>s\<close>, with \<open>k\<close> the keyword read so far.\<close>

function conninfo_pairs :: "string \<Rightarrow> string \<Rightarrow> (string \<times> string) list option" where
  "conninfo_pairs k [] = (if k = [] then Some [] else None)"
| "conninfo_pairs k (c # s) =
     (if c = CHR ''='' then
        (case dsn_value s of
           None \<Rightarrow> None
         | Some (v, r) \<Rightarrow> map_option (\<lambda>ps. (k, v) # ps) (conninfo_pairs [] r))
      else if blank c then
        (if k = [] then conninfo_pairs [] s
         else case dropWhile blank s of
                d # t \<Rightarrow> if d = CHR ''='' then conninfo_pairs k (d # t) else None
              | [] \<Rightarrow> None)
      else conninfo_pairs (k @ [c]) s)"
  by pat_completeness auto
termination
  by (relation "measure (\<lambda>(k, s). length s)") 
     (auto dest: dsn_value_shorter dropWhile_shorter)

datatype sql_tok = Word string | Ident string | Literal string

definition word_char :: "char \<Rightarrow> bool" where
  "word_char c \<longleftrightarrow> \<not> blank c \<and> c \<noteq> double_quote \<and> c \<noteq> quote_char"

function sql_lex :: "string \<Rightarrow> sql_tok list option" where
  "sql_lex [] = Some []"
| "sql_lex (c # s) =
     (if blank c then sql_lex s
      else if c = double_quote then
        (case sql_quoted double_quote s of
           None \<Rightarrow> None | Some (v, r) \<Rightarrow> map_option (\<lambda>ts. Ident v # ts) (sql_lex r))
      else if c = quote_char then
        (case sql_quoted quote_char s of
           None \<Rightarrow> None | Some (v, r) \<Rightarrow> map_option (\<lambda>ts. Literal v # ts) (sql_lex r))
      else map_option (\<lambda>ts. Word (c # takeWhile word_char s) # ts)
             (sql_lex (dropWhile word_char s)))"
  by pat_completeness auto
termination
  by (relation "measure length")
     (auto dest: sql_quoted_shorter simp: le_imp_less_Suc length_dropWhile_le)

section \<open>Reading back what was quoted\<close>

text \<open>
  The contract of a quoting function with the reader of its format: whatever follows, as far as
  the format allows it to follow, the reader takes back exactly the value that was quoted.
\<close>

locale quoting =
  fixes quote :: "string \<Rightarrow> string"
    and token :: "string \<Rightarrow> (string \<times> string) option"
    and may_follow :: "string \<Rightarrow> bool"
  assumes token_quote: "may_follow r \<Longrightarrow> token (quote s @ r) = Some (s, r)"
    and follow_end: "may_follow []"
begin

lemma quote_inject:
  assumes "quote s @ r = quote t @ r'" and "may_follow r" and "may_follow r'"
  shows "s = t \<and> r = r'"
  using token_quote [OF assms(2), of s] token_quote [OF assms(3), of t]
  unfolding assms(1) by simp

lemma quote_whole: "token (quote s) = Some (s, [])"
  using token_quote [OF follow_end, of s] by simp

lemma quote_inj: "inj quote"
proof (rule injI)
  fix x y
  assume "quote x = quote y"
  then have "quote x @ [] = quote y @ []" by simp
  from quote_inject [OF this follow_end follow_end] show "x = y" by simp
qed

end

definition follows_sql :: "char \<Rightarrow> string \<Rightarrow> bool" where
  "follows_sql q r \<longleftrightarrow> (case r of [] \<Rightarrow> True | c # _ \<Rightarrow> c \<noteq> q)"

lemma sql_quoted_double:
  "follows_sql q r \<Longrightarrow> sql_quoted q (ReplaceAll s q [q, q] @ q # r) = Some (s, r)"
proof (induction s)
  case Nil
  then show ?case by (cases r) (auto simp: follows_sql_def)
next
  case (Cons c s)
  then show ?case by (cases "c = q") simp_all
qed

lemma dsn_quoted_escaped:
  "dsn_quoted (ReplaceAll (ReplaceAll s backslash [backslash, backslash]) quote_char
       [backslash, quote_char] @ quote_char # r) = Some (s, r)"
proof (induction s)
  case Nil
  then show ?case by simp
next
  case (Cons c s)
  consider "c = quote_char" | "c = backslash" | "c \<noteq> quote_char" "c \<noteq> backslash" by blast
  then show ?case
    by cases (use Cons in simp_all)
qed

interpretation ident: quoting pgIdent "sql_token double_quote" "follows_sql double_quote"
  by unfold_locales (simp_all add: pgIdent_def sql_token_def sql_quoted_double, simp add: follows_sql_def)

interpretation literal: quoting pgLiteral "sql_token quote_char" "follows_sql quote_char"
  by unfold_locales (simp_all add: pgLiteral_def sql_token_def sql_quoted_double, simp add: follows_sql_def)

interpretation dsn: quoting dsnQuote dsn_token "\<lambda>_. True"
  by unfold_locales (simp_all add: dsnQuote_def dsn_token_def dsn_quoted_escaped Let_def)

section \<open>The strings read back\<close>

text \<open>Pieces of a connection string: a keyword, a value that needs no quotes, a quoted value.\<close>

definition bare :: "string \<Rightarrow> bool" where
  "bare v \<longleftrightarrow> v \<noteq> [] \<and> (\<forall>c \<in> set v. \<not> blank c \<and> c \<noteq> backslash \<and> c \<noteq> quote_char)"

definition keyword :: "string \<Rightarrow> bool" where
  "keyword k \<longleftrightarrow> k \<noteq> [] \<and> (\<forall>c \<in> set k. \<not> blank c \<and> c \<noteq> CHR ''='')"

lemma blank_space [simp]: "blank CHR '' ''" and blank_not [simp]: "\<not> blank quote_char"
  "\<not> blank CHR ''=''" "\<not> blank double_quote"
  by (simp_all add: blank_def)

lemma pairs_char:
  "\<not> blank c \<Longrightarrow> c \<noteq> CHR ''='' \<Longrightarrow> conninfo_pairs k (c # s) = conninfo_pairs (k @ [c]) s"
  "conninfo_pairs k (CHR ''='' # s) =
     (case dsn_value s of None \<Rightarrow> None
      | Some (v, r) \<Rightarrow> map_option (\<lambda>ps. (k, v) # ps) (conninfo_pairs [] r))"
  "conninfo_pairs [] [] = Some []"
  by simp_all

declare conninfo_pairs.simps [simp del]

lemma pairs_keyword:
  "\<forall>c \<in> set k. \<not> blank c \<and> c \<noteq> CHR ''='' \<Longrightarrow>
   conninfo_pairs a (k @ CHR ''='' # s) = conninfo_pairs (a @ k) (CHR ''='' # s)"
  by (induction k arbitrary: a) (simp_all add: pairs_char(1))

lemma dsn_plain_bare:
  assumes "\<forall>c \<in> set v. \<not> blank c \<and> c \<noteq> backslash" and "r = [] \<or> blank (hd r)"
  shows "dsn_plain (v @ r) = (v, r)"
  using assms(1)
proof (induction v)
  case Nil
  with assms(2) show ?case by (cases r) auto
next
  case (Cons c v)
  then show ?case by simp
qed

lemma dsn_value_bare:
  assumes "bare v" and "r = [] \<or> blank (hd r)"
  shows "dsn_value (v @ r) = Some (v, r)"
proof -
  obtain c u where v: "v = c # u" "\<not> blank c" "c \<noteq> quote_char"
    using assms(1) by (cases v) (auto simp: bare_def)
  have "dsn_plain (v @ r) = (v, r)"
    using assms by (intro dsn_plain_bare) (auto simp: bare_def)
  with v show ?thesis by (simp add: dsn_value_def)
qed

lemma dsn_value_quoted: "dsn_value (dsnQuote s @ r) = Some (s, r)"
proof -
  have "dsn_token (dsnQuote s @ r) = Some (s, r)" by (rule dsn.token_quote) simp
  then show ?thesis by (simp add: dsn_value_def dsn_token_def dsnQuote_def Let_def)
qed

lemma pairs_step:
  assumes "keyword k" and "dsn_value (v @ r) = Some (x, r)"
  shows "conninfo_pairs [] (k @ CHR ''='' # v @ r) =
    map_option (\<lambda>ps. (k, x) # ps) (conninfo_pairs [] r)"
  using pairs_keyword [of k "[]" "v @ r"] assms by (simp add: keyword_def pairs_char(2))

lemma pairs_blank [simp]: "blank c \<Longrightarrow> conninfo_pairs [] (c # s) = conninfo_pairs [] s"
  by (auto simp: blank_def conninfo_pairs.simps)

lemmas bare_pair = pairs_step [OF _ dsn_value_bare]
lemmas quoted_pair = pairs_step [OF _ dsn_value_quoted]

lemma bare_Itoa: "bare (Itoa n)"
proof -
  have d: "bare (nat_digits m)" "\<forall>c \<in> set (nat_digits m). \<not> blank c \<and> c \<noteq> backslash \<and> c \<noteq> quote_char" for m
  proof -
    have "\<not> blank (digit k) \<and> digit k \<noteq> backslash \<and> digit k \<noteq> quote_char" if "k < 10" for k
    proof -
      have "k \<in> {0,1,2,3,4,5,6,7,8,9}" using that by auto
      then show ?thesis by (auto simp: digit_def blank_def char_of_def bit_0)
    qed
    then show "\<forall>c \<in> set (nat_digits m). \<not> blank c \<and> c \<noteq> backslash \<and> c \<noteq> quote_char"
      using nat_digits_range by metis
    then show "bare (nat_digits m)" by (simp add: bare_def)
  qed
  then show ?thesis by (auto simp: Itoa_def bare_def blank_def)
qed

section \<open>Properties\<close>

lemma dsn_value_Cons:
  "dsn_value (c # t) = (if blank c then dsn_value t else if c = quote_char then dsn_quoted t
     else Some (dsn_plain (c # t)))"
  by (simp add: dsn_value_def)

lemma blank_values [simp]:
  "blank c \<Longrightarrow> dsn_value (c # t) = dsn_value t" "dsn_value [] = Some ([], [])"
  by (simp_all add: dsn_value_def)

lemmas conninfo_reading =
  pairs_char blank_def dsn_value_Cons dsn_value_bare dsn_value_bare [where r = "[]", simplified]
  dsn_value_quoted dsn_value_quoted [where r = "[]", simplified] bare_Itoa

text \<open>
  C4. The connection string of the pool and of the bootstrap connection reads back as exactly
  the intended parameters, whatever bytes the user name and the password hold.
\<close>

theorem maintenance_conninfo_reads_back:
  "conninfo_pairs [] (maintenanceConnString cfg) = Some
     [(''host'', ''127.0.0.1''), (''port'', Itoa (PGPort cfg)), (''user'', PostgresUser cfg),
      (''password'', PostgresPassword cfg), (''dbname'', ''postgres''),
      (''sslmode'', ''disable''), (''connect_timeout'', ''5'')]"
  by (simp add: maintenanceConnString_def conninfo_reading)

text \<open>
  The two connection strings of a rejoin are built without quoting. They read back as
  intended when host, user, password and database are non-empty and free of blanks, quotes and
  backslashes.
\<close>

theorem rewind_conninfo_reads_back:
  assumes "bare (PeerHost cfg)" and "bare (ReplUser cfg)" and "bare (ReplPassword cfg)"
    and "bare (PostgresDB cfg)"
  shows "conninfo_pairs [] (standbyConnInfo cfg) = Some
     [(''host'', PeerHost cfg), (''port'', Itoa (PGPort cfg)), (''user'', ReplUser cfg),
      (''password'', ReplPassword cfg), (''dbname'', PostgresDB cfg), (''sslmode'', ''disable'')] \<and>
    conninfo_pairs [] (rewindSource cfg) = Some
     [(''host'', PeerHost cfg), (''port'', Itoa (PGPort cfg)), (''user'', ReplUser cfg),
      (''password'', ReplPassword cfg), (''dbname'', PostgresDB cfg), (''sslmode'', ''disable''),
      (''connect_timeout'', ''5'')]"
  using assms by (simp add: standbyConnInfo_def rewindSource_def conninfo_reading)

theorem rewind_conninfo_reads_back_witness:
  "conninfo_pairs [] (standbyConnInfo (demo_config\<lparr>ReplPassword := ''secret''\<rparr>)) \<noteq> None"
  using rewind_conninfo_reads_back [of "demo_config\<lparr>ReplPassword := ''secret''\<rparr>"]
  by (simp add: demo_config_def bare_def blank_def)

text \<open>
  Without a replication password, the default, the unquoted strings of a rejoin lose the
  database: a reader that allows blanks after the equal sign takes \<open>dbname=\<dots>\<close> for the password.
\<close>

theorem rewind_conninfo_without_password:
  assumes "bare (PeerHost cfg)" and "bare (ReplUser cfg)" and "ReplPassword cfg = []"
    and "bare (PostgresDB cfg)"
  shows "conninfo_pairs [] (rewindSource cfg) = Some
     [(''host'', PeerHost cfg), (''port'', Itoa (PGPort cfg)), (''user'', ReplUser cfg),
      (''password'', ''dbname='' @ PostgresDB cfg), (''sslmode'', ''disable''),
      (''connect_timeout'', ''5'')]"
proof -
  have "bare (''dbname='' @ PostgresDB cfg)"
    using assms(4) by (auto simp: bare_def blank_def)
  from dsn_value_bare [OF this] assms show ?thesis
    by (simp add: rewindSource_def conninfo_reading)
qed

theorem rewind_conninfo_without_password_witness:
  "conninfo_pairs [] (rewindSource demo_config) \<noteq> None \<and>
    ''dbname'' \<notin> fst ` set (the (conninfo_pairs [] (rewindSource demo_config)))"
  using rewind_conninfo_without_password [of demo_config]
  by (simp add: demo_config_def zero_config_def bare_def blank_def)

lemma lex_ident:
  "follows_sql double_quote r \<Longrightarrow> sql_lex (pgIdent s @ r) = map_option (\<lambda>ts. Ident s # ts) (sql_lex r)"
  by (simp add: pgIdent_def sql_quoted_double)

lemma lex_literal:
  "follows_sql quote_char r \<Longrightarrow>
   sql_lex (pgLiteral s @ r) = map_option (\<lambda>ts. Literal s # ts) (sql_lex r)"
  by (simp add: pgLiteral_def sql_quoted_double)

lemmas sql_reading =
  lex_ident lex_ident [where r = "[]", simplified] lex_literal lex_literal [where r = "[]", simplified]
  follows_sql_def word_char_def blank_def

text \<open>
  The statements that create the replication role and the database and that change a
  password are read by the server as exactly the intended tokens, whatever bytes the names and
  the passwords hold.
\<close>

theorem statements_read_back:
  "sql_lex (createRoleSQL cfg) = Some
     ([Word ''CREATE'', Word ''ROLE'', Ident (ReplUser cfg), Word ''WITH'', Word ''REPLICATION'',
       Word ''LOGIN''] @
      (if ReplPassword cfg = [] then [] else [Word ''PASSWORD'', Literal (ReplPassword cfg)])) \<and>
   sql_lex (createDatabaseSQL cfg) = Some
     [Word ''CREATE'', Word ''DATABASE'', Ident (PostgresDB cfg), Word ''WITH'', Word ''OWNER'',
      Ident (PostgresUser cfg), Word ''ENCODING'', Literal ''UTF8''] \<and>
   sql_lex (alterRoleSQL role password) = Some
     [Word ''ALTER'', Word ''ROLE'', Ident role, Word ''PASSWORD'', Literal password]"
  by (simp add: createRoleSQL_def createDatabaseSQL_def alterRoleSQL_def sql_reading)

end
