(* ===== verification/Hba.thy ===== *)
theory Hba
  imports Quoting
begin

text \<open>
  The edits of \<open>pg_hba.conf\<close>: \<open>hbaUpsertLine\<close>, \<open>ensureReplicationHBA\<close>, \<open>ensureAppHBA\<close> and
  \<open>writeBootstrapHBA\<close> of \<open>src/src/bootstrap.go\<close>, and \<open>runSetPassword\<close> of
  \<open>src/src/setpassword.go\<close>, which uses them. Statements sent to the server are recorded in the
  trace; whether the server accepts them and what it answers comes from the environment.
\<close>

abbreviation newline :: char where "newline \<equiv> CHR 0x0A"

section \<open>Statements\<close>

definition exec_sql :: "env \<Rightarrow> string \<Rightarrow> world \<Rightarrow> bool \<times> world" where
  "exec_sql E sql w = (exec_ok E (calls w), emit (EvSQL sql) (tick E w))"

definition query_hba_file :: "env \<Rightarrow> world \<Rightarrow> (pg_error + string) \<times> world" where
  "query_hba_file E w =
     (case query_text E (calls w) of
        None \<Rightarrow> (Inl (Err ''querying hba_file location''), tick E w)
      | Some path \<Rightarrow> (Inr path, tick E w))"

definition query_flag :: "env \<Rightarrow> string \<Rightarrow> world \<Rightarrow> (pg_error + bool) \<times> world" where
  "query_flag E what w =
     (case query_bool E (calls w) of
        None \<Rightarrow> (Inl (Err what), tick E w) | Some b \<Rightarrow> (Inr b, tick E w))"

section \<open>Replacing a line\<close>

definition stale :: "string \<Rightarrow> string \<Rightarrow> bool" where
  "stale pre line \<longleftrightarrow> HasPrefix (TrimSpace line) pre"

definition hba_lines :: "string \<Rightarrow> string \<Rightarrow> string \<Rightarrow> string list option" where
  "hba_lines pre desired raw =
     (let lines = Split raw newline
      in if \<exists>l \<in> set lines. stale pre l \<and> TrimSpace l = desired then None
         else Some (filter (\<lambda>l. \<not> stale pre l) lines @ [desired]))"

definition hbaUpsertLine ::
  "env \<Rightarrow> config \<Rightarrow> string \<Rightarrow> string \<Rightarrow> string \<Rightarrow> world \<Rightarrow> (pg_error + bool) \<times> world" where
  "hbaUpsertLine E cfg hbaFile pre desired w =
     (let (raw, w1) = read_op E cfg hbaFile w
      in case raw of
           None \<Rightarrow> (Inl (Err ''reading pg_hba.conf''), w1)
         | Some content \<Rightarrow>
             (case hba_lines pre desired content of
                None \<Rightarrow> (Inr False, w1)
              | Some lines \<Rightarrow>
                  (let (ok, w2) = write_op E cfg hbaFile (Join lines [newline]) w1
                   in if ok then (Inr True, w2) else (Inl (Err ''writing pg_hba.conf''), w2))))"

definition upsert_and_reload ::
  "env \<Rightarrow> config \<Rightarrow> string \<Rightarrow> string \<Rightarrow> string \<Rightarrow> world \<Rightarrow> (pg_error + unit) \<times> world" where
  "upsert_and_reload E cfg hbaFile pre desired w =
     (case hbaUpsertLine E cfg hbaFile pre desired w of
        (Inl e, w1) \<Rightarrow> (Inl e, w1)
      | (Inr False, w1) \<Rightarrow> (Inr (), w1)
      | (Inr True, w1) \<Rightarrow>
          (let (ok, w2) = exec_sql E ''SELECT pg_reload_conf()'' w1
           in if ok then (Inr (), w2) else (Inl (Err ''reloading config''), w2)))"

definition hba_auth :: "config \<Rightarrow> string" where
  "hba_auth cfg = (if PostgresPassword cfg \<noteq> [] then ''scram-sha-256'' else ''trust'')"

definition replication_prefix :: "config \<Rightarrow> string" where
  "replication_prefix cfg = ''host replication '' @ ReplUser cfg @ '' ''"

definition replication_line :: "config \<Rightarrow> string \<Rightarrow> string" where
  "replication_line cfg ip = replication_prefix cfg @ ip @ ''/32'' @ '' '' @ hba_auth cfg"

definition ensureReplicationHBA :: "env \<Rightarrow> config \<Rightarrow> world \<Rightarrow> (pg_error + unit) \<times> world" where
  "ensureReplicationHBA E cfg w =
     (if PeerHost cfg = [] then (Inr (), w)
      else
        (let ips = lookup_host E (calls w); w1 = tick E w
         in case ips of
              None \<Rightarrow> (Inl (Err ''resolving peer host''), w1)
            | Some [] \<Rightarrow> (Inl (Err ''resolving peer host''), w1)
            | Some (ip # _) \<Rightarrow>
                (case query_hba_file E w1 of
                   (Inl e, w2) \<Rightarrow> (Inl e, w2)
                 | (Inr hbaFile, w2) \<Rightarrow>
                     upsert_and_reload E cfg hbaFile (replication_prefix cfg)
                       (replication_line cfg ip) w2)))"

definition app_prefix :: string where
  "app_prefix = ''host all all all ''"

definition ensureAppHBA :: "env \<Rightarrow> config \<Rightarrow> world \<Rightarrow> (pg_error + unit) \<times> world" where
  "ensureAppHBA E cfg w =
     (case query_hba_file E w of
        (Inl e, w1) \<Rightarrow> (Inl e, w1)
      | (Inr hbaFile, w1) \<Rightarrow>
          upsert_and_reload E cfg hbaFile app_prefix (app_prefix @ ''scram-sha-256'') w1)"

text \<open>Appending to a file of \<open>PGDATA\<close>, created if it does not exist.\<close>

definition append_pgdata :: "env \<Rightarrow> string \<Rightarrow> string \<Rightarrow> world \<Rightarrow> bool \<times> world" where
  "append_pgdata E name text w =
     (let w1 = tick E w; old = (case pgdata w name of None \<Rightarrow> [] | Some c \<Rightarrow> c)
      in if io_ok E (calls w) then (True, w1\<lparr>pgdata := (pgdata w1)(name \<mapsto> old @ text)\<rparr>)
         else (False, case torn E (calls w) of
                 None \<Rightarrow> w1
               | Some n \<Rightarrow> w1\<lparr>pgdata := (pgdata w1)(name \<mapsto> old @ take n text)\<rparr>))"

definition bootstrap_peer_addr :: "env \<Rightarrow> config \<Rightarrow> world \<Rightarrow> string \<times> world" where
  "bootstrap_peer_addr E cfg w =
     (if PeerHost cfg = [] then (''all'', w)
      else (case lookup_host E (calls w) of
              Some (ip # _) \<Rightarrow> (ip @ ''/32'', tick E w) | _ \<Rightarrow> (PeerHost cfg, tick E w)))"

definition bootstrap_hba_text :: "config \<Rightarrow> string \<Rightarrow> string \<Rightarrow> string" where
  "bootstrap_hba_text cfg peerAddr authMode =
     [newline] @ ''# added by pg-guard bootstrap'' @ [newline]
       @ ''host replication '' @ ReplUser cfg @ '' '' @ peerAddr @ '' '' @ authMode @ [newline]
       @ ''host all all all '' @ authMode @ [newline]"

definition writeBootstrapHBA :: "env \<Rightarrow> config \<Rightarrow> string \<Rightarrow> world \<Rightarrow> bool \<times> world" where
  "writeBootstrapHBA E cfg authMode w =
     (let (peerAddr, w1) = bootstrap_peer_addr E cfg w
      in append_pgdata E ''pg_hba.conf'' (bootstrap_hba_text cfg peerAddr authMode) w1)"

definition bootstrap_conf_text :: string where
  "bootstrap_conf_text =
     [newline] @ ''# added by pg-guard bootstrap -- required for pg_rewind'' @ [newline]
       @ ''wal_log_hints = on'' @ [newline]"

definition writeBootstrapPostgresConf :: "env \<Rightarrow> world \<Rightarrow> bool \<times> world" where
  "writeBootstrapPostgresConf E w = append_pgdata E ''postgresql.conf'' bootstrap_conf_text w"

section \<open>Setting a password\<close>

definition localSocketDirs :: "string list" where
  "localSocketDirs = [''/var/run/postgresql'', ''/tmp'']"

text \<open>One attempt per directory, in order; the connection string of the first that works.\<close>

fun connect_first :: "env \<Rightarrow> config \<Rightarrow> string list \<Rightarrow> world \<Rightarrow> string option \<times> world" where
  "connect_first E cfg [] w = (None, w)"
| "connect_first E cfg (dir # dirs) w =
     (if connect_ok E (calls w) then (Some (socketConnString dir cfg), tick E w)
      else connect_first E cfg dirs (tick E w))"

definition connectLocalSocket :: "env \<Rightarrow> config \<Rightarrow> world \<Rightarrow> (pg_error + string) \<times> world" where
  "connectLocalSocket E cfg w =
     (case connect_first E cfg localSocketDirs w of
        (None, w1) \<Rightarrow> (Inl (Err ''no local Unix socket found''), w1)
      | (Some c, w1) \<Rightarrow> (Inr c, w1))"

text \<open>
  The first line of the input, its line end trimmed by \<open>strings.TrimRight\<close>; \<open>None\<close> is a read
  error other than the end of the input.
\<close>

definition readPasswordFromStdin :: "string option \<Rightarrow> string option" where
  "readPasswordFromStdin stdin = map_option (\<lambda>input.
      let line = takeWhile (\<lambda>c. c \<noteq> newline) input
                   @ (if newline \<in> set input then [newline] else [])
      in rev (dropWhile (\<lambda>c. c = newline \<or> c = CHR 0x0D) (rev line))) stdin"

definition set_role_passwords :: "env \<Rightarrow> config \<Rightarrow> string \<Rightarrow> world \<Rightarrow> (pg_error + unit) \<times> world" where
  "set_role_passwords E cfg password w =
     (let (ok, w1) = exec_sql E (alterRoleSQL (PostgresUser cfg) password) w
      in if \<not> ok then (Inl (Err ''setting password for role''), w1)
         else if ReplUser cfg = PostgresUser cfg then (Inr (), w1)
         else (let (ok2, w2) = exec_sql E (alterRoleSQL (ReplUser cfg) password) w1
               in if ok2 then (Inr (), w2) else (Inl (Err ''setting password for role''), w2)))"

definition runSetPassword :: "env \<Rightarrow> config \<Rightarrow> string option \<Rightarrow> world \<Rightarrow> (pg_error + unit) \<times> world" where
  "runSetPassword E cfg stdin w =
     (case readPasswordFromStdin stdin of
        None \<Rightarrow> (Inl (Err ''reading new password from stdin''), w)
      | Some password \<Rightarrow>
         if password = [] then (Inl (Err ''empty password''), w)
         else
           (case connectLocalSocket E cfg w of
              (Inl e, w1) \<Rightarrow> (Inl (Wrap ''connecting to local postgres over its Unix socket'' e), w1)
            | (Inr conn, w1) \<Rightarrow>
                (case query_flag E ''querying pg_is_in_recovery'' w1 of
                   (Inl e, w2) \<Rightarrow> (Inl e, w2)
                 | (Inr inRecovery, w2) \<Rightarrow>
                     (let (r, w3) = (if inRecovery then (Inr (), w2)
                                     else set_role_passwords E cfg password w2)
                      in case r of
                           Inl e \<Rightarrow> (Inl e, w3)
                         | Inr _ \<Rightarrow>
                             (case ensureAppHBA E cfg w3 of
                                (Inl e, w4) \<Rightarrow>
                                  (Inl (Wrap ''upgrading pg_hba.conf application access'' e), w4)
                              | (Inr _, w4) \<Rightarrow> (Inr (), w4))))))"

lemmas hba_eval_defs [evals] =
  exec_sql_def query_hba_file_def query_flag_def read_op_def write_op_def read_at_def store_at_def

section \<open>Lemmas on lines\<close>

definition own_line :: "string \<Rightarrow> string \<Rightarrow> bool" where
  "own_line pre d \<longleftrightarrow> HasPrefix d pre \<and> TrimSpace d = d \<and> newline \<notin> set d"

lemma own_line_stale: "own_line pre d \<Longrightarrow> stale pre d"
  by (simp add: own_line_def stale_def)

lemma hba_lines_written:
  assumes "own_line pre d" and "hba_lines pre d raw = Some ls"
  shows "Split (Join ls [newline]) newline = ls"
    and "filter (\<lambda>l. \<not> stale pre l) ls = filter (\<lambda>l. \<not> stale pre l) (Split raw newline)"
    and "filter (stale pre) ls = [d]"
proof -
  from assms(2) have ls: "ls = filter (\<lambda>l. \<not> stale pre l) (Split raw newline) @ [d]"
    by (auto simp: hba_lines_def Let_def split: if_splits)
  have "\<forall>l \<in> set ls. newline \<notin> set l"
    using assms(1) Split_pieces [of _ raw newline] by (auto simp: ls own_line_def)
  then show "Split (Join ls [newline]) newline = ls"
    by (intro Split_Join) (simp_all add: ls)
  show "filter (\<lambda>l. \<not> stale pre l) ls = filter (\<lambda>l. \<not> stale pre l) (Split raw newline)"
    using own_line_stale [OF assms(1)] by (simp add: ls)
  show "filter (stale pre) ls = [d]"
    using own_line_stale [OF assms(1)] by (simp add: ls)
qed

lemma hba_lines_again:
  assumes "own_line pre d" and "hba_lines pre d raw = Some ls"
  shows "hba_lines pre d (Join ls [newline]) = None"
proof -
  have "d \<in> set ls" using assms(2) by (auto simp: hba_lines_def Let_def split: if_splits)
  with assms(1) own_line_stale show ?thesis
    by (auto simp: hba_lines_def Let_def hba_lines_written(1) [OF assms] own_line_def)
qed

lemma hba_lines_None_has:
  "hba_lines pre d raw = None \<longleftrightarrow> (\<exists>l \<in> set (Split raw newline). stale pre l \<and> TrimSpace l = d)"
  by (simp add: hba_lines_def Let_def)

lemma hbaUpsertLine_cases:
  assumes "hbaUpsertLine E cfg file pre d w = (r, w')"
  obtains (unread) "r = Inl (Err ''reading pg_hba.conf'')" "w' = tick E w"
    | (kept) raw where "read_at cfg file w = Some raw" "hba_lines pre d raw = None"
        "r = Inr False" "w' = tick E w"
    | (written) raw ls where "read_at cfg file w = Some raw" "hba_lines pre d raw = Some ls"
        "r = Inr True" "w' = store_at cfg file (Join ls [newline]) (tick E (tick E w))"
    | (unwritten) "r = Inl (Err ''writing pg_hba.conf'')"
  using assms
  by (auto simp: hbaUpsertLine_def read_op_def write_op_def Let_def split: option.splits if_splits)

lemma upsert_effect:
  assumes "own_line pre d" and "hbaUpsertLine E cfg file pre d w = (Inr changed, w')"
  shows "\<exists>raw new. read_at cfg file w = Some raw \<and> read_at cfg file w' = Some new \<and>
    filter (\<lambda>l. \<not> stale pre l) (Split new newline) =
      filter (\<lambda>l. \<not> stale pre l) (Split raw newline) \<and>
    hba_lines pre d new = None \<and>
    (changed \<longrightarrow> filter (stale pre) (Split new newline) = [d]) \<and>
    (\<not> changed \<longrightarrow> new = raw) \<and>
    (\<forall>path. path \<noteq> file \<longrightarrow> read_at cfg path w' = read_at cfg path w)"
  using assms(2)
proof (cases rule: hbaUpsertLine_cases)
  case unread
  then show ?thesis by simp
next
  case (kept raw)
  then show ?thesis by (intro exI [of _ raw]) simp
next
  case (written raw ls)
  note ls = hba_lines_written [OF assms(1) written(2)] hba_lines_again [OF assms(1) written(2)]
  show ?thesis
    using written(1,3) ls
    by (intro exI [of _ raw] exI [of _ "Join ls [newline]"])
       (simp add: written(4) read_at_store_other)
next
  case unwritten
  then show ?thesis by simp
qed

lemma upsert_trace:
  "hbaUpsertLine E cfg file pre d w = (r, w') \<Longrightarrow> trace w' = trace w"
  by (auto simp: hbaUpsertLine_def read_op_def write_op_def Let_def split: option.splits if_splits)

section \<open>Properties\<close>

text \<open>
  Replacing a line of \<open>pg_hba.conf\<close> keeps every other line, in order and byte for byte, and
  leaves the wanted line in the file, as the only one with its prefix whenever the file was
  rewritten; no other file changes.
\<close>

theorem upsert_replaces_own_lines:
  assumes "own_line pre d" and "hbaUpsertLine E cfg file pre d w = (Inr changed, w')"
  shows "\<exists>raw new. read_at cfg file w = Some raw \<and> read_at cfg file w' = Some new \<and>
    filter (\<lambda>l. \<not> stale pre l) (Split new newline) =
      filter (\<lambda>l. \<not> stale pre l) (Split raw newline) \<and>
    (\<exists>l \<in> set (Split new newline). TrimSpace l = d) \<and>
    (changed \<longrightarrow> filter (stale pre) (Split new newline) = [d]) \<and>
    (\<not> changed \<longrightarrow> new = raw) \<and>
    (\<forall>path. path \<noteq> file \<longrightarrow> read_at cfg path w' = read_at cfg path w)"
  using upsert_effect [OF assms] unfolding hba_lines_None_has by blast

text \<open>
  The replacement is idempotent: after it succeeded, doing it again finds nothing to change,
  in any later world in which the file still reads the same.
\<close>

theorem upsert_idempotent:
  assumes "own_line pre d" and "hbaUpsertLine E cfg file pre d w = (Inr changed, w')"
    and "read_at cfg file w2 = read_at cfg file w'" and "io_ok E2 (calls w2)"
  shows "hbaUpsertLine E2 cfg file pre d w2 = (Inr False, tick E2 w2)"
proof -
  from upsert_effect [OF assms(1,2)] obtain new where
    "read_at cfg file w' = Some new" "hba_lines pre d new = None" by blast
  with assms(3,4) show ?thesis
    by (simp add: hbaUpsertLine_def read_op_def)
qed

definition app_line :: string where
  "app_line = app_prefix @ ''scram-sha-256''"

lemma plain_letter [simp]: "plain_byte CHR ''h''" "plain_byte CHR ''t''" "plain_byte CHR ''6''"
  by (simp_all add: plain_byte_def space_encodings_def)

lemma own_app_line: "own_line app_prefix app_line"
  unfolding own_line_def
  by (intro conjI TrimSpace_plain) (simp_all add: app_line_def app_prefix_def HasPrefix_def)

definition hba_file :: string where
  "hba_file = ''/pgdata/pg_hba.conf''"

definition hba_world :: "string \<Rightarrow> world" where
  "hba_world text = running_world 0 [''pg_hba.conf'' \<mapsto> text]"

definition trust_text :: string where
  "trust_text = ''local all all trust'' @ [newline] @ ''host all all all trust''"

lemma hba_demo_path: "in_pgdata demo_config hba_file" "TrimPrefix hba_file (PGData demo_config @ ''/'') = ''pg_hba.conf''"
  by (simp_all add: in_pgdata_def hba_file_def demo_config_def HasPrefix_def TrimPrefix_def)

lemma trust_split: "Split trust_text newline = [''local all all trust'', ''host all all all trust'']"
  by (simp add: trust_text_def)

lemma trust_trim:
  "TrimSpace ''local all all trust'' = ''local all all trust''"
  "TrimSpace ''host all all all trust'' = ''host all all all trust''"
  by (rule TrimSpace_plain; simp add: plain_byte_def space_encodings_def)+

lemma trust_lines:
  "hba_lines app_prefix app_line trust_text = Some [''local all all trust'', app_line]"
  by (simp add: hba_lines_def trust_split stale_def trust_trim app_line_def app_prefix_def
      HasPrefix_def)

lemma hba_run:
  "fst (hbaUpsertLine calm demo_config hba_file app_prefix app_line (hba_world trust_text)) = Inr True"
  by (simp add: hbaUpsertLine_def read_op_def write_op_def read_at_def hba_demo_path trust_lines
      hba_world_def running_world_def init_world_def calm_def)

lemmas hba_run_eq = trans [OF prod.collapse [symmetric] arg_cong2 [OF hba_run refl, of Pair]]

theorem upsert_replaces_own_lines_witness:
  "\<exists>new. read_at demo_config hba_file (snd (hbaUpsertLine calm demo_config hba_file app_prefix
       app_line (hba_world trust_text))) = Some new \<and>
     filter (stale app_prefix) (Split new newline) = [app_line]"
  using upsert_replaces_own_lines [OF own_app_line hba_run_eq] by auto

theorem upsert_idempotent_witness:
  "fst (hbaUpsertLine calm demo_config hba_file app_prefix app_line
     (snd (hbaUpsertLine calm demo_config hba_file app_prefix app_line (hba_world trust_text)))) =
   Inr False"
  using upsert_idempotent [OF own_app_line hba_run_eq refl, of calm] by (simp add: calm_def)

lemma upsert_and_reload_cases:
  assumes "upsert_and_reload E cfg file pre d w = (Inr (), w')"
  obtains (kept) "hbaUpsertLine E cfg file pre d w = (Inr False, w')"
    | (reloaded) w1 where "hbaUpsertLine E cfg file pre d w = (Inr True, w1)"
        "w' = snd (exec_sql E ''SELECT pg_reload_conf()'' w1)"
  using assms
  by (auto simp: upsert_and_reload_def exec_sql_def Let_def split: prod.splits sum.splits bool.splits
      if_splits)

text \<open>What the two callers of a replacement with a reload promise.\<close>

definition line_granted :: "config \<Rightarrow> string \<Rightarrow> string \<Rightarrow> string \<Rightarrow> world \<Rightarrow> world \<Rightarrow> bool" where
  "line_granted cfg file pre d w w' \<longleftrightarrow>
     (\<exists>raw new. read_at cfg file w = Some raw \<and> read_at cfg file w' = Some new \<and>
        filter (\<lambda>l. \<not> stale pre l) (Split new newline) =
          filter (\<lambda>l. \<not> stale pre l) (Split raw newline) \<and>
        (\<exists>l \<in> set (Split new newline). TrimSpace l = d) \<and>
        fresh_events w w' = (if new = raw then [] else [EvSQL ''SELECT pg_reload_conf()'']))"

lemma upsert_and_reload_grants:
  assumes "own_line pre d" and "upsert_and_reload E cfg file pre d w = (Inr (), w')"
  shows "line_granted cfg file pre d w w'"
  using assms(2)
proof (cases rule: upsert_and_reload_cases)
  case kept
  from upsert_effect [OF assms(1) kept] upsert_trace [OF kept] show ?thesis
    unfolding line_granted_def hba_lines_None_has by (auto simp: fresh_events_def)
next
  case (reloaded w1)
  from upsert_effect [OF assms(1) reloaded(1)] obtain raw new where *:
    "read_at cfg file w = Some raw" "read_at cfg file w1 = Some new"
    "filter (\<lambda>l. \<not> stale pre l) (Split new newline) = filter (\<lambda>l. \<not> stale pre l) (Split raw newline)"
    "hba_lines pre d new = None" by blast
  have "hba_lines pre d raw \<noteq> None"
    using reloaded(1) *(1)
    by (auto simp: hbaUpsertLine_def read_op_def Let_def split: if_splits option.splits)
  with *(4) have "new \<noteq> raw" by auto
  with * upsert_trace [OF reloaded(1)] show ?thesis
    unfolding line_granted_def hba_lines_None_has reloaded(2)
    by (auto simp: exec_sql_def fresh_events_def)
qed

lemma own_replication_line:
  assumes "newline \<notin> set (ReplUser cfg)" and "newline \<notin> set ip"
  shows "own_line (replication_prefix cfg) (replication_line cfg ip)"
  unfolding own_line_def
proof (intro conjI TrimSpace_plain)
  show "plain_byte (hd (replication_line cfg ip))"
    by (simp add: replication_line_def replication_prefix_def)
  have "last (hba_auth cfg) \<in> {CHR ''t'', CHR ''6''}" "hba_auth cfg \<noteq> []"
    by (simp_all add: hba_auth_def)
  then show "plain_byte (last (replication_line cfg ip))"
    by (auto simp: replication_line_def)
  show "HasPrefix (replication_line cfg ip) (replication_prefix cfg)"
    unfolding replication_line_def by (rule HasPrefix_append)
qed (use assms in \<open>auto simp: replication_line_def replication_prefix_def hba_auth_def\<close>)

text \<open>
  C5. A successful refresh of the replication grant leaves the line for the peer's current
  address in the file the server names, keeps all other lines, and reloads the server exactly
  when the file changed.
\<close>

theorem replication_grant_refreshed:
  assumes "ensureReplicationHBA E cfg w = (Inr (), w')" and "PeerHost cfg \<noteq> []"
    and "lookup_host E (calls w) = Some (ip # ips)"
    and "newline \<notin> set (ReplUser cfg)" and "newline \<notin> set ip"
  shows "\<exists>file. query_text E (Suc (calls w)) = Some file \<and>
    line_granted cfg file (replication_prefix cfg) (replication_line cfg ip) w w'"
proof -
  let ?w = "tick E (tick E w)"
  from assms(1-3) obtain path where f: "query_text E (Suc (calls w)) = Some path"
    "upsert_and_reload E cfg path (replication_prefix cfg) (replication_line cfg ip) ?w = (Inr (), w')"
    by (auto simp: ensureReplicationHBA_def query_hba_file_def Let_def split: option.splits)
  from upsert_and_reload_grants [OF own_replication_line [OF assms(4,5)] f(2)] f(1) show ?thesis
    by (auto simp: line_granted_def fresh_events_def)
qed

definition hba_env :: env where
  "hba_env = calm\<lparr>query_text := (\<lambda>_. Some hba_file)\<rparr>"

lemma demo_replication_prefix:
  "replication_prefix demo_config = ''host replication replicator ''"
  by (simp add: replication_prefix_def demo_config_def)

lemma grant_lines:
  "hba_lines (replication_prefix demo_config) d trust_text =
     Some [''local all all trust'', ''host all all all trust'', d]"
  by (simp add: hba_lines_def trust_split stale_def trust_trim demo_replication_prefix HasPrefix_def)

lemma grant_run:
  "fst (ensureReplicationHBA hba_env demo_config (hba_world trust_text)) = Inr ()"
  by (simp add: ensureReplicationHBA_def query_hba_file_def upsert_and_reload_def hbaUpsertLine_def
      read_op_def write_op_def read_at_def store_at_def hba_demo_path grant_lines exec_sql_def
      hba_world_def running_world_def init_world_def hba_env_def calm_def Let_def split_beta)

theorem replication_grant_refreshed_witness:
  "line_granted demo_config hba_file (replication_prefix demo_config)
     (replication_line demo_config ''10.0.0.2'') (hba_world trust_text)
     (snd (ensureReplicationHBA hba_env demo_config (hba_world trust_text)))"
  using replication_grant_refreshed [of hba_env demo_config "hba_world trust_text", OF
      trans [OF prod.collapse [symmetric] arg_cong2 [OF grant_run refl, of Pair]]]
  by (simp add: demo_config_def hba_env_def calm_def)

text \<open>
  Where the wanted line is already present, stale lines with the same prefix are kept: a
  trust rule before an up-to-date scram rule survives the upgrade of the access mode.
\<close>

theorem stale_duplicate_survives:
  assumes "TrimSpace l = d" and "stale pre l" and "l \<in> set (Split raw newline)"
    and "read_at cfg file w = Some raw" and "io_ok E (calls w)"
  shows "hbaUpsertLine E cfg file pre d w = (Inr False, tick E w)"
proof -
  have "hba_lines pre d raw = None" using assms(1-3) by (auto simp: hba_lines_None_has)
  with assms(4,5) show ?thesis by (simp add: hbaUpsertLine_def read_op_def)
qed

theorem stale_duplicate_survives_witness:
  "\<exists>w. read_at demo_config hba_file w = Some (trust_text @ newline # app_line) \<and>
     hbaUpsertLine calm demo_config hba_file app_prefix app_line w = (Inr False, tick calm w)"
proof -
  let ?raw = "trust_text @ newline # app_line"
  have r: "read_at demo_config hba_file (hba_world ?raw) = Some ?raw"
    by (simp add: read_at_def hba_demo_path hba_world_def running_world_def init_world_def)
  have "app_line \<in> set (Split ?raw newline)"
    by (simp add: trust_text_def app_line_def app_prefix_def)
  moreover have "TrimSpace app_line = app_line" "stale app_prefix app_line"
    using own_app_line own_line_stale by (simp_all add: own_line_def)
  ultimately have "hbaUpsertLine calm demo_config hba_file app_prefix app_line (hba_world ?raw)
      = (Inr False, tick calm (hba_world ?raw))"
    using r by (intro stale_duplicate_survives [of app_line _ _ ?raw]) (simp_all add: calm_def)
  with r show ?thesis by blast
qed

section \<open>Setting a password\<close>

lemma connect_first_same:
  "trace (snd (connect_first E cfg dirs w)) = trace w \<and>
   read_at cfg path (snd (connect_first E cfg dirs w)) = read_at cfg path w"
  by (induction E cfg dirs w rule: connect_first.induct) auto

definition alter_statements :: "config \<Rightarrow> string \<Rightarrow> event list" where
  "alter_statements cfg password =
     EvSQL (alterRoleSQL (PostgresUser cfg) password) #
     (if ReplUser cfg = PostgresUser cfg then []
      else [EvSQL (alterRoleSQL (ReplUser cfg) password)])"

lemma set_role_passwords_ok:
  "set_role_passwords E cfg password w = (Inr (), w') \<Longrightarrow>
   trace w' = trace w @ alter_statements cfg password \<and> read_at cfg path w' = read_at cfg path w"
  by (auto simp: set_role_passwords_def exec_sql_def alter_statements_def Let_def split: if_splits)

lemma line_granted_tick [simp]:
  "line_granted cfg path pre d (tick E w) w' = line_granted cfg path pre d w w'"
  by (simp add: line_granted_def fresh_events_def)

lemma ensureAppHBA_ok:
  assumes "ensureAppHBA E cfg w = (Inr (), w')"
  shows "\<exists>path. line_granted cfg path app_prefix app_line w w'"
proof -
  from assms obtain path where
    "upsert_and_reload E cfg path app_prefix (app_prefix @ ''scram-sha-256'') (tick E w) = (Inr (), w')"
    by (auto simp: ensureAppHBA_def query_hba_file_def split: option.splits)
  then have "upsert_and_reload E cfg path app_prefix app_line (tick E w) = (Inr (), w')"
    by (simp add: app_line_def)
  from upsert_and_reload_grants [OF own_app_line this] show ?thesis by auto
qed

text \<open>
  Setting a password that succeeds had a non-empty password, changed the roles only on a
  node that is not in recovery, sending it exactly the statements for the one or two roles, and
  left the scram rule for applications in \<open>pg_hba.conf\<close>.
\<close>

theorem set_password_effect:
  assumes "runSetPassword E cfg stdin w = (Inr (), w')"
  shows "\<exists>password path w3 recovering.
    readPasswordFromStdin stdin = Some password \<and> password \<noteq> [] \<and>
    trace w3 = trace w @ (if recovering then [] else alter_statements cfg password) \<and>
    (\<forall>p. read_at cfg p w3 = read_at cfg p w) \<and>
    line_granted cfg path app_prefix app_line w3 w'"
proof -
  obtain password where pw: "readPasswordFromStdin stdin = Some password" "password \<noteq> []"
    using assms by (auto simp: runSetPassword_def split: option.splits if_splits)
  obtain c w1 where c: "connectLocalSocket E cfg w = (c, w1)" by (rule prod.exhaust)
  have w1: "trace w1 = trace w" "read_at cfg p w1 = read_at cfg p w" for p
    using connect_first_same [of E cfg localSocketDirs w p] c
    by (auto simp: connectLocalSocket_def split: prod.splits option.splits)
  obtain f w2 where f: "query_flag E ''querying pg_is_in_recovery'' w1 = (f, w2)" by (rule prod.exhaust)
  have w2: "trace w2 = trace w" "read_at cfg p w2 = read_at cfg p w" for p
    using f w1 by (auto simp: query_flag_def split: option.splits)
  from assms pw c f obtain rec where rec: "f = Inr rec"
    by (auto simp: runSetPassword_def split: sum.splits)
  obtain r w3 where r: "(if rec then (Inr (), w2) else set_role_passwords E cfg password w2) = (r, w3)"
    by (rule prod.exhaust)
  from assms pw c f rec r have "r = Inr ()" "ensureAppHBA E cfg w3 = (Inr (), w')"
    by (auto simp: runSetPassword_def split: sum.splits prod.splits)
  moreover have "trace w3 = trace w @ (if rec then [] else alter_statements cfg password)"
    "read_at cfg p w3 = read_at cfg p w" for p
    using r \<open>r = Inr ()\<close> w2 set_role_passwords_ok [of E cfg password w2 w3 p]
    by (auto split: if_splits)
  ultimately show ?thesis using ensureAppHBA_ok pw by blast
qed

definition password_env :: env where
  "password_env = hba_env\<lparr>query_bool := (\<lambda>_. Some False)\<rparr>"

lemma password_run:
  "fst (runSetPassword password_env demo_config (Some (''secret'' @ [newline])) (hba_world trust_text)) = Inr ()"
  by (simp add: runSetPassword_def readPasswordFromStdin_def connectLocalSocket_def
      localSocketDirs_def query_flag_def set_role_passwords_def ensureAppHBA_def query_hba_file_def
      upsert_and_reload_def hbaUpsertLine_def read_op_def write_op_def read_at_def store_at_def
      hba_demo_path trust_lines [unfolded app_line_def] exec_sql_def hba_world_def
      running_world_def init_world_def password_env_def hba_env_def calm_def Let_def split_beta)

theorem set_password_effect_witness:
  "\<exists>path w3. line_granted demo_config path app_prefix app_line w3
     (snd (runSetPassword password_env demo_config (Some (''secret'' @ [newline])) (hba_world trust_text)))"
  using set_password_effect [OF trans [OF prod.collapse [symmetric]
      arg_cong2 [OF password_run refl, of Pair]]] by blast

end
