(* ===== verification/Replace.thy ===== *)
theory Replace
  imports World
begin

text \<open>
  How \<open>src/src/statepersist.go\<close> and \<open>src/src/textfile.go\<close> replace a file: the directory is made, the
  new content goes to a temporary file beside it, and a rename puts that in its place. Each of the
  three calls may fail. The locale \<open>replaced_file\<close> holds what every such pair of paths can rely on, at
  any point at which the process may stop or another one may read.
\<close>

definition rename_file :: "string \<Rightarrow> string \<Rightarrow> fs \<Rightarrow> fs" where
  "rename_file src dst f = (f(dst := f src))(src := None)"

definition replace_file ::
  "env \<Rightarrow> string \<Rightarrow> string \<Rightarrow> string \<Rightarrow> world \<Rightarrow> (pg_error + unit) \<times> world" where
  "replace_file E tmp path content w =
     (let w1 = tick E w; w2 = tick E w1;
          put = (\<lambda>c v. v\<lparr>disk := write_file tmp c 420 (disk v)\<rparr>)
      in if \<not> io_ok E (calls w) then (Inl (Err ''creating directory''), w1)
         else if \<not> io_ok E (calls w1) then
           (Inl (Err ''writing temporary file''),
            case torn E (calls w1) of None \<Rightarrow> w2 | Some n \<Rightarrow> put (take n content) w2)
         else
           (let w3 = put content w2; w4 = tick E w3
            in if io_ok E (calls w3) then (Inr (), w4\<lparr>disk := rename_file tmp path (disk w4)\<rparr>)
               else (Inl (Err ''renaming''), w4)))"

text \<open>
  The file operations in the steps a crash can separate: opening the temporary file empties it, the
  content arrives byte by byte, the rename happens once all is written.
\<close>

inductive replace_step :: "string \<Rightarrow> string \<Rightarrow> string \<Rightarrow> fs \<Rightarrow> fs \<Rightarrow> bool"
  for tmp path body :: string where
  open_tmp: "replace_step tmp path body f (write_file tmp [] 420 f)"
| write_byte: "f tmp = Some (take n body, perm) \<Longrightarrow>
    replace_step tmp path body f (write_file tmp (take (Suc n) body) 420 f)"
| rename: "f tmp = Some (body, perm) \<Longrightarrow> replace_step tmp path body f (rename_file tmp path f)"

inductive_cases replace_stepE: "replace_step tmp path body f g"

lemma write_steps: "(replace_step tmp path body)\<^sup>*\<^sup>* f (write_file tmp (take n body) 420 f)"
proof (induction n)
  case 0
  then show ?case using replace_step.open_tmp [of tmp path body f] by (simp add: r_into_rtranclp)
next
  case (Suc n)
  let ?g = "write_file tmp (take n body) 420 f"
  have "replace_step tmp path body ?g (write_file tmp (take (Suc n) body) 420 ?g)"
    by (rule replace_step.write_byte [where perm = "case f tmp of None \<Rightarrow> 420 | Some (_, m) \<Rightarrow> m"])
       (simp add: write_file_def)
  moreover have "write_file tmp (take (Suc n) body) 420 ?g = write_file tmp (take (Suc n) body) 420 f"
    by (auto simp: write_file_def split: option.splits)
  ultimately show ?case using Suc.IH by (simp add: rtranclp.rtrancl_into_rtrancl)
qed

lemma replace_file_steps:
  "(replace_step tmp path body)\<^sup>*\<^sup>* (disk w) (disk (snd (replace_file E tmp path body w)))"
proof -
  define g where "g = write_file tmp body 420 (disk w)"
  define h where "h = rename_file tmp path g"
  have full: "(replace_step tmp path body)\<^sup>*\<^sup>* (disk w) g"
    using write_steps [of tmp path body "disk w" "length body"] by (simp add: g_def)
  have "replace_step tmp path body g h"
    unfolding h_def
    by (rule replace_step.rename [where perm = "case disk w tmp of None \<Rightarrow> 420 | Some (_, m) \<Rightarrow> m"])
       (simp add: g_def write_file_def)
  with full have renamed: "(replace_step tmp path body)\<^sup>*\<^sup>* (disk w) h" by simp
  let ?w1 = "tick E w"
  show ?thesis
  proof (cases "io_ok E (calls w)")
    case False
    then show ?thesis by (simp add: replace_file_def Let_def)
  next
    case mk: True
    show ?thesis
    proof (cases "io_ok E (calls ?w1)")
      case False
      with mk write_steps [of tmp path body "disk w"] show ?thesis
        by (cases "torn E (calls ?w1)") (simp_all add: replace_file_def Let_def)
    next
      case True
      with mk full renamed show ?thesis
        by (simp add: replace_file_def Let_def g_def h_def)
    qed
  qed
qed

locale replaced_file =
  fixes tmp path :: string
  assumes tmp_differs: "tmp \<noteq> path"
begin

lemma step_content:
  "replace_step tmp path body f g \<Longrightarrow> g path = f path \<or> map_option fst (g path) = Some body"
  using tmp_differs by (elim replace_stepE) (auto simp: write_file_def rename_file_def)

lemma steps_content:
  assumes "(replace_step tmp path body)\<^sup>*\<^sup>* f g"
  shows "g path = f path \<or> map_option fst (g path) = Some body"
  using assms by (induction rule: rtranclp_induct) (auto dest: step_content)

lemma result_content:
  assumes "replace_file E tmp path body w = (r, w')"
  shows "if is_ok r then map_option fst (disk w' path) = Some body else disk w' path = disk w path"
proof (cases "io_ok E (calls w)")
  case False
  with assms show ?thesis by (auto simp: replace_file_def Let_def)
next
  case mk: True
  show ?thesis
  proof (cases "io_ok E (calls (tick E w))")
    case False
    with assms mk tmp_differs show ?thesis
      by (cases "torn E (calls (tick E w))") (auto simp: replace_file_def Let_def write_file_def)
  next
    case True
    with assms mk tmp_differs show ?thesis
      by (auto simp: replace_file_def Let_def write_file_def rename_file_def split: if_splits)
  qed
qed

end

end
