(* ===== verification/Persist.thy ===== *)
theory Persist
  imports Replace
begin

text \<open>
  \<open>src/src/statepersist.go\<close>: the counters kept in \<open>PG_GUARD_STATE_FILE\<close>. Writing goes through a
  temporary file and a rename. \<open>json.Marshal\<close> of the seven integers is written out, reading
  (\<open>json.Unmarshal\<close>) is the field \<open>unmarshal\<close> of the environment; a concrete reader of what
  \<open>marshal\<close> writes is given and shown to satisfy the law the lemmas ask for.
\<close>

section \<open>Operations\<close>

definition zero_state :: persistedState where
  "zero_state = \<lparr>PgGuardStarts = 0, PostgresRestarts = 0, LastCrashUnixNano = 0, BackupsTotal = 0,
     BackupFailuresTotal = 0, LastBackupUnixNano = 0, LastBackupDurationNano = 0\<rparr>"

abbreviation dquote :: char where "dquote \<equiv> CHR 0x22"

definition json_field :: "string \<Rightarrow> int \<Rightarrow> string" where
  "json_field k v = [dquote] @ k @ [dquote] @ '':'' @ Itoa v"

definition state_fields :: "persistedState \<Rightarrow> (string \<times> int) list" where
  "state_fields s =
     [(''pg_guard_starts'', PgGuardStarts s), (''postgres_restarts'', PostgresRestarts s),
      (''last_crash_unix_nano'', LastCrashUnixNano s), (''backups_total'', BackupsTotal s),
      (''backup_failures_total'', BackupFailuresTotal s),
      (''last_backup_unix_nano'', LastBackupUnixNano s),
      (''last_backup_duration_nano'', LastBackupDurationNano s)]"

definition marshal :: "persistedState \<Rightarrow> string" where
  "marshal s = ''{'' @ Join (map (\<lambda>(k, v). json_field k v) (state_fields s)) '','' @ ''}''"

definition loadPersistedState ::
  "env \<Rightarrow> string \<Rightarrow> world \<Rightarrow> (persistedState \<times> pg_error option) \<times> world" where
  "loadPersistedState E path w =
     (let w1 = tick E w
      in case disk w path of
           None \<Rightarrow> ((zero_state, None), w1)
         | Some (content, _) \<Rightarrow>
             if \<not> io_ok E (calls w) then ((zero_state, Some (Err ''reading state file'')), w1)
             else (case unmarshal E content of
                     None \<Rightarrow> ((zero_state, Some (Err ''decoding state file'')), w1)
                   | Some s \<Rightarrow> ((s, None), w1)))"

text \<open>Creating the directory, writing the temporary file, renaming it: each may fail.\<close>

definition savePersistedState ::
  "env \<Rightarrow> string \<Rightarrow> persistedState \<Rightarrow> world \<Rightarrow> (pg_error + unit) \<times> world" where
  "savePersistedState E path s w = replace_file E (path @ ''.tmp'') path (marshal s) w"

definition snapshot :: "metrics \<Rightarrow> persistedState" where
  "snapshot c = \<lparr>
     PgGuardStarts = pgGuardStartsCounter c,
     PostgresRestarts = postgresRestartsCounter c,
     LastCrashUnixNano = lastPostgresCrashUnixNano c,
     BackupsTotal = backupsCounter c,
     BackupFailuresTotal = backupFailuresCounter c,
     LastBackupUnixNano = lastBackupUnixNano c,
     LastBackupDurationNano = lastBackupDuration c\<rparr>"

definition persistState :: "env \<Rightarrow> config \<Rightarrow> world \<Rightarrow> world" where
  "persistState E cfg w =
     (if StateFile cfg = [] then w
      else snd (savePersistedState E (StateFile cfg) (snapshot (met w)) w))"

definition seed_counters :: "persistedState \<Rightarrow> metrics \<Rightarrow> metrics" where
  "seed_counters s c = c\<lparr>
     postgresRestartsCounter := PostgresRestarts s,
     lastPostgresCrashUnixNano := LastCrashUnixNano s,
     pgGuardStartsCounter := PgGuardStarts s + 1,
     backupsCounter := BackupsTotal s,
     backupFailuresCounter := BackupFailuresTotal s,
     lastBackupUnixNano := LastBackupUnixNano s,
     lastBackupDuration := LastBackupDurationNano s\<rparr>"

definition initPersistentState :: "env \<Rightarrow> config \<Rightarrow> world \<Rightarrow> world" where
  "initPersistentState E cfg w =
     (if StateFile cfg = [] then w
      else
        (let ((s, _), w1) = loadPersistedState E (StateFile cfg) w
         in persistState E cfg (w1\<lparr>met := seed_counters s (met w1)\<rparr>)))"

section \<open>What the file can hold when the process stops at any point\<close>

abbreviation save_step :: "string \<Rightarrow> string \<Rightarrow> fs \<Rightarrow> fs \<Rightarrow> bool" where
  "save_step path body \<equiv> replace_step (path @ ''.tmp'') path body"

interpretation state_file: replaced_file "path @ ''.tmp''" path for path :: string
  by unfold_locales simp

section \<open>A reader of what is written\<close>

text \<open>The seven fields in the order \<open>json.Marshal\<close> writes them.\<close>

fun all_some :: "'a option list \<Rightarrow> 'a list option" where
  "all_some [] = Some []"
| "all_some (x # xs) =
     (case x of None \<Rightarrow> None | Some a \<Rightarrow> map_option (\<lambda>as. a # as) (all_some xs))"

definition plain_unmarshal :: "string \<Rightarrow> persistedState option" where
  "plain_unmarshal t =
     (let fields = map (\<lambda>f. Split f CHR '':'') (Split (TrimSuffix (TrimPrefix t ''{'') ''}'') CHR '','')
      in if map hd fields = map (\<lambda>(k, _). [dquote] @ k @ [dquote]) (state_fields zero_state) then
           (case all_some (map (\<lambda>f. Atoi (hd (tl f))) fields) of
              Some [a, b, c, d, e, f, g] \<Rightarrow> Some
                \<lparr>PgGuardStarts = a, PostgresRestarts = b, LastCrashUnixNano = c, BackupsTotal = d,
                 BackupFailuresTotal = e, LastBackupUnixNano = f, LastBackupDurationNano = g\<rparr>
            | _ \<Rightarrow> None)
         else None)"

definition int64_state :: "persistedState \<Rightarrow> bool" where
  "int64_state s \<longleftrightarrow> (\<forall>(k, v) \<in> set (state_fields s). - (2 ^ 63) \<le> v \<and> v < 2 ^ 63)"

lemma Itoa_plain: "c \<in> set (Itoa v) \<Longrightarrow> c = CHR ''-'' \<or> (\<exists>d < 10. c = digit d)"
  by (auto simp: Itoa_def dest: nat_digits_range split: if_splits)

lemma digit_not:
  assumes "digit_val c = None" and "c \<noteq> CHR ''-''"
  shows "c \<notin> set (Itoa v)"
proof
  assume "c \<in> set (Itoa v)"
  then obtain d where "d < 10" "c = digit d" using Itoa_plain assms(2) by blast
  with assms(1) digit_val_digit show False by simp
qed

lemma Itoa_no_sep: "CHR '','' \<notin> set (Itoa v)" "CHR '':'' \<notin> set (Itoa v)"
  by (rule digit_not; simp add: digit_val_def)+

lemma field_split:
  assumes "CHR '':'' \<notin> set k"
  shows "Split (json_field k v) CHR '':'' = [[dquote] @ k @ [dquote], Itoa v]"
proof -
  have "Split (([dquote] @ k @ [dquote]) @ CHR '':'' # Itoa v) CHR '':'' =
      [[dquote] @ k @ [dquote], Itoa v]"
    using assms Itoa_no_sep(2) by (subst Split_append_sep) (auto simp: Split_no_sep)
  then show ?thesis by (simp add: json_field_def)
qed

lemma field_no_comma: "CHR '','' \<notin> set k \<Longrightarrow> CHR '','' \<notin> set (json_field k v)"
  using Itoa_no_sep(1) by (simp add: json_field_def)

lemma state_names: "(k, v) \<in> set (state_fields s) \<Longrightarrow> CHR '':'' \<notin> set k \<and> CHR '','' \<notin> set k"
  by (auto simp: state_fields_def)

lemma plain_unmarshal_marshal:
  assumes "int64_state s"
  shows "plain_unmarshal (marshal s) = Some s"
proof -
  let ?fs = "map (\<lambda>(k, v). json_field k v) (state_fields s)"
  have ne: "?fs \<noteq> []" by (simp add: state_fields_def)
  have nc: "\<forall>f \<in> set ?fs. CHR '','' \<notin> set f"
    using state_names by (auto intro!: field_no_comma)
  have "TrimSuffix (TrimPrefix (marshal s) ''{'') ''}'' = Join ?fs '',''"
    unfolding marshal_def by (simp only: TrimPrefix_append TrimSuffix_append)
  moreover have "Split (Join ?fs '','') CHR '','' = ?fs"
    using Split_Join [OF ne nc] .
  moreover have "map (\<lambda>f. Split f CHR '':'') ?fs =
      map (\<lambda>(k, v). [[dquote] @ k @ [dquote], Itoa v]) (state_fields s)"
    unfolding map_map by (rule map_cong [OF refl]) (auto simp: field_split dest: state_names)
  moreover have "map (\<lambda>f. Atoi (hd (tl f)))
      (map (\<lambda>(k, v). [[dquote] @ k @ [dquote], Itoa v]) (state_fields s)) =
      map (\<lambda>(k, v). Some v) (state_fields s)"
    unfolding map_map
    by (rule map_cong [OF refl]) (use assms in \<open>auto simp: int64_state_def Atoi_Itoa\<close>)
  ultimately show ?thesis
    by (simp add: plain_unmarshal_def Let_def state_fields_def)
qed

section \<open>The store as an interface\<close>

text \<open>
  What the counters rely on: a reader that takes back the states of a class that \<open>marshal\<close>
  wrote. Under it, a state that was saved is the state that is loaded next.
\<close>

lemma met_savePersistedState: "met (snd (savePersistedState E path s w)) = met w"
  by (auto simp: savePersistedState_def replace_file_def Let_def split: option.splits)

lemma met_persistState [simp]: "met (persistState E cfg w) = met w"
  by (simp add: persistState_def met_savePersistedState)

lemma now_persistState: "now w \<le> now (persistState E cfg w)"
  by (auto simp: persistState_def savePersistedState_def replace_file_def Let_def tick_def split: option.splits)

lemma met_loadPersistedState: "met (snd (loadPersistedState E path w)) = met w"
  by (auto simp: loadPersistedState_def Let_def split: option.splits)

locale state_codec =
  fixes E :: env and storable :: "persistedState \<Rightarrow> bool"
  assumes reads_back: "storable s \<Longrightarrow> unmarshal E (marshal s) = Some s"
begin

lemma load_after_save:
  assumes "savePersistedState E0 path s w = (Inr (), w')" and "storable s"
    and "disk v path = disk w' path" and "io_ok E (calls v)"
  shows "fst (loadPersistedState E path v) = (s, None)"
proof -
  from state_file.result_content [OF assms(1) [unfolded savePersistedState_def]] obtain m where "disk w' path = Some (marshal s, m)" by auto
  with assms(3,4) reads_back [OF assms(2)] show ?thesis
    by (simp add: loadPersistedState_def Let_def)
qed

lemma load_never_wrong:
  assumes "disk v path = None \<or> (\<exists>s m. disk v path = Some (marshal s, m) \<and> storable s)"
  shows "fst (fst (loadPersistedState E path v)) = zero_state \<or>
    (\<exists>m. disk v path = Some (marshal (fst (fst (loadPersistedState E path v))), m))"
  using assms reads_back by (auto simp: loadPersistedState_def Let_def)

end

definition plain_env :: env where
  "plain_env = calm\<lparr>unmarshal := plain_unmarshal\<rparr>"

interpretation plain: state_codec plain_env int64_state
  by unfold_locales (simp add: plain_env_def plain_unmarshal_marshal)

section \<open>Properties\<close>

text \<open>
  C6. A save is atomic: its file operations are those of the step relation, at whatever step the
  process dies the state file holds the old content or the complete new one, and the reported
  result says which.
\<close>

theorem save_is_atomic:
  assumes "savePersistedState E path s w = (r, w')"
  shows "(save_step path (marshal s))\<^sup>*\<^sup>* (disk w) (disk w') \<and>
    (\<forall>f. (save_step path (marshal s))\<^sup>*\<^sup>* (disk w) f \<longrightarrow>
       f path = disk w path \<or> map_option fst (f path) = Some (marshal s)) \<and>
    (if is_ok r then map_option fst (disk w' path) = Some (marshal s)
     else disk w' path = disk w path)"
  using replace_file_steps [of "path @ ''.tmp''" path "marshal s" w E]
    state_file.steps_content [of path "marshal s" "disk w"]
    state_file.result_content [OF assms [unfolded savePersistedState_def]] assms
  by (auto simp: savePersistedState_def)

theorem save_is_atomic_witness:
  "disk (snd (savePersistedState (calm\<lparr>io_ok := (\<lambda>k. k = 0), torn := (\<lambda>_. Some 3)\<rparr>) ''/state'' zero_state
      (init_world 0 (\<lambda>_. None)))) ''/state'' = None"
  using save_is_atomic [of "calm\<lparr>io_ok := (\<lambda>k. k = 0), torn := (\<lambda>_. Some 3)\<rparr>" "''/state''" zero_state
      "init_world 0 (\<lambda>_. None)", OF prod.collapse [symmetric]]
  by (simp add: savePersistedState_def replace_file_def calm_def init_world_def Let_def)

text \<open>
  C7. The counters survive a restart: a process that finds the file its predecessor last wrote
  continues with each of the predecessor's counters and times, and with one more start; what the file
  does not hold (promotions, rejoins, the last attempt of a backup) keeps the value it started with.
\<close>

theorem restart_resumes_counters:
  assumes "\<And>s. int64_state s \<Longrightarrow> unmarshal E (marshal s) = Some s"
    and "StateFile cfg \<noteq> []"
    and "is_ok (fst (savePersistedState E0 (StateFile cfg) (snapshot (met w)) w))"
    and "int64_state (snapshot (met w))"
    and "disk v (StateFile cfg) = disk (persistState E0 cfg w) (StateFile cfg)" and "io_ok E (calls v)"
  shows "met (initPersistentState E cfg v) = (met v)\<lparr>
      pgGuardStartsCounter := pgGuardStartsCounter (met w) + 1,
      postgresRestartsCounter := postgresRestartsCounter (met w),
      lastPostgresCrashUnixNano := lastPostgresCrashUnixNano (met w),
      backupsCounter := backupsCounter (met w),
      backupFailuresCounter := backupFailuresCounter (met w),
      lastBackupUnixNano := lastBackupUnixNano (met w),
      lastBackupDuration := lastBackupDuration (met w)\<rparr>"
proof -
  obtain w1 where s: "savePersistedState E0 (StateFile cfg) (snapshot (met w)) w = (Inr (), w1)"
    using assms(3) by (cases "savePersistedState E0 (StateFile cfg) (snapshot (met w)) w") (auto simp: is_ok_iff)
  then have d: "disk v (StateFile cfg) = disk w1 (StateFile cfg)"
    using assms(2,5) by (simp add: persistState_def)
  have "state_codec E int64_state" by unfold_locales (rule assms(1))
  from state_codec.load_after_save [OF this s assms(4) d assms(6)]
  obtain v1 where l: "loadPersistedState E (StateFile cfg) v = ((snapshot (met w), None), v1)"
    by (metis prod.collapse fst_conv)
  then have "met v1 = met v" using met_loadPersistedState [of E "StateFile cfg" v] by simp
  with assms(2) l show ?thesis
    by (simp add: initPersistentState_def met_persistState seed_counters_def snapshot_def)
qed

definition state_config :: config where
  "state_config = demo_config\<lparr>StateFile := ''/state''\<rparr>"

definition counted_world :: world where
  "counted_world = (init_world 0 (\<lambda>_. None))\<lparr>met := zero_metrics\<lparr>pgGuardStartsCounter := 4,
     postgresRestartsCounter := 2, backupsCounter := 7\<rparr>\<rparr>"

lemma counted_save:
  "fst (savePersistedState plain_env ''/state'' (snapshot (met counted_world)) counted_world) = Inr ()"
  by (simp add: savePersistedState_def replace_file_def plain_env_def calm_def Let_def)

theorem restart_resumes_counters_witness:
  "pgGuardStartsCounter (met (initPersistentState plain_env state_config
     (persistState plain_env state_config counted_world))) = 5 \<and>
   backupsCounter (met (initPersistentState plain_env state_config
     (persistState plain_env state_config counted_world))) = 7"
proof -
  have f: "StateFile state_config = ''/state''" by (simp add: state_config_def)
  have io: "io_ok plain_env k" for k by (simp add: plain_env_def calm_def)
  have i: "int64_state (snapshot (met counted_world))"
    by (simp add: int64_state_def state_fields_def snapshot_def counted_world_def zero_metrics_def)
  show ?thesis
    using restart_resumes_counters [where E = plain_env and E0 = plain_env and cfg = state_config and w = counted_world
        and v = "persistState plain_env state_config counted_world", OF plain.reads_back _ _ i refl io]
      counted_save
    by (simp add: f counted_world_def)
qed

text \<open>
  Without a state file the start counter is never counted up: it stays at 0, not at the 1
  its metric's help text announces.
\<close>

theorem starts_stay_zero_without_state_file:
  assumes "StateFile cfg = []"
  shows "pgGuardStartsCounter (met (initPersistentState E cfg (init_world t d))) = 0"
  using assms by (simp add: initPersistentState_def init_world_def zero_metrics_def)

theorem starts_stay_zero_without_state_file_witness:
  "pgGuardStartsCounter (met (initPersistentState calm demo_config (init_world 0 (\<lambda>_. None)))) = 0"
  by (rule starts_stay_zero_without_state_file) (simp add: demo_config_def zero_config_def)

end
