(* ===== verification/Handover.thy ===== *)
theory Handover
  imports Peer
begin

text \<open>
  \<open>src/src/handover.go\<close>: stopping the local server, alone (\<open>stopLocal\<close>) or coordinated with
  the peer (\<open>coordinateHandover\<close>, \<open>coordinateStandbyHandover\<close>, \<open>coordinateReboot\<close>). The
  child to stop is the number \<open>p\<close> of the watcher the caller passes. The wait for the peer's
  confirmation is a recursion that ends because every turn sleeps half a second of the ten
  it has.
\<close>

section \<open>Operations\<close>

definition stopLocal :: "env \<Rightarrow> config \<Rightarrow> nat \<Rightarrow> signal \<Rightarrow> world \<Rightarrow> (pg_error + unit) \<times> world" where
  "stopLocal E cfg p sig w =
     (let w2 = snd (stopGracefully E cfg sig (emit EvPoolReset w));
          (finished, w3) = wait_child E p (ShutdownWait cfg) w2
      in if finished then (Inr (), clear_child p w3)
         else (case killChild E w3 of
                 (Inl e, w4) \<Rightarrow> (Inl (Wrap ''failed to kill child'' e), w4)
               | (Inr _, w4) \<Rightarrow>
                   (Inr (), clear_child p (snd (wait_child E p handoverKillConfirmTimeout w4)))))"

lemma poll_progress:
  assumes "fetchPeerStatus E cfg w = (st, w1)" and "now w < deadline" and "0 < d"
  shows "nat (deadline - now (sleep E d w1)) < nat (deadline - now w)"
proof -
  have "now w \<le> now w1"
    using later_now [OF later_peer(2) [of w E cfg]] assms(1) by simp
  with sleep_advances [of w1 d E] assms(2,3) show ?thesis by simp
qed

function awaitPeerPrimary :: "env \<Rightarrow> config \<Rightarrow> gotime \<Rightarrow> world \<Rightarrow> bool \<times> world" where
  "awaitPeerPrimary E cfg deadline w =
     (if now w < deadline then
        (let (st, w1) = fetchPeerStatus E cfg w
         in if st = Inr ''primary'' then (True, w1)
            else awaitPeerPrimary E cfg deadline (sleep E (500 * millisecond) w1))
      else (False, w))"
  by pat_completeness auto

termination
proof (relation "measure (\<lambda>(E, cfg, deadline, w). nat (deadline - now w))", goal_cases)
  case 1
  then show ?case by simp
next
  case (2 E cfg deadline w z st w1)
  then have "fetchPeerStatus E cfg w = (st, w1)" by simp
  with 2(1) have "nat (deadline - now (sleep E (500 * millisecond) w1)) < nat (deadline - now w)"
    by (intro poll_progress) auto
  then show ?case by simp
qed

declare awaitPeerPrimary.simps [simp del]

definition coordinateStandbyHandover ::
  "env \<Rightarrow> config \<Rightarrow> nat \<Rightarrow> signal \<Rightarrow> string \<Rightarrow> world \<Rightarrow> (pg_error + unit) \<times> world" where
  "coordinateStandbyHandover E cfg p sig policy w =
     (let (st, w1) = fetchPeerStatus E cfg w
      in if st \<noteq> Inr ''primary'' \<and> policy = ''require-switchover''
         then (Inl (Err ''refusing standby shutdown''), w1)
         else (case stopLocal E cfg p sig w1 of
                 (Inl e, w2) \<Rightarrow> (Inl (Wrap ''stopping local postgres'' e), w2)
               | (Inr _, w2) \<Rightarrow> (Inr (), w2)))"

definition coordinateHandover ::
  "env \<Rightarrow> config \<Rightarrow> nat \<Rightarrow> signal \<Rightarrow> string \<Rightarrow> world \<Rightarrow> (pg_error + unit) \<times> world" where
  "coordinateHandover E cfg p sig policy w =
     (if policy = ''force'' then stopLocal E cfg p sig w
      else
        (let (rec, w1) = isInRecovery E w
         in if rec = Inr True then coordinateStandbyHandover E cfg p sig policy w1
            else
              (let (st, w2) = fetchPeerStatus E cfg w1
               in if st \<noteq> Inr ''standby'' \<and> policy = ''require-switchover''
                  then (Inl (Err ''refusing handover''), w2)
                  else
                    (case stopLocal E cfg p sig w2 of
                       (Inl e, w3) \<Rightarrow> (Inl (Wrap ''stopping local postgres'' e), w3)
                     | (Inr _, w3) \<Rightarrow>
                         (case requestPeerPromote E cfg w3 of
                            (Inl e, w4) \<Rightarrow>
                              (if policy = ''require-switchover''
                               then Inl (Wrap ''local postgres stopped but peer promote request failed'' e)
                               else Inr (), w4)
                          | (Inr _, w4) \<Rightarrow>
                              (let (confirmed, w5) =
                                 awaitPeerPrimary E cfg (now w4 + peerPromoteConfirmDeadline) w4
                               in (if \<not> confirmed \<and> policy = ''require-switchover''
                                   then Inl (Err ''local postgres stopped but peer did not confirm primary'')
                                   else Inr (), w5)))))))"

definition coordinateReboot ::
  "env \<Rightarrow> config \<Rightarrow> nat \<Rightarrow> signal \<Rightarrow> world \<Rightarrow> (pg_error + unit) \<times> world" where
  "coordinateReboot E cfg p sig w =
     (let (rec, w1) = isInRecovery E w
      in if rec = Inr True then coordinateStandbyHandover E cfg p sig (ShutdownPolicy cfg) w1
         else stopLocal E cfg p sig (snd (notifyPeerReboot E cfg w1)))"

section \<open>Kinds of events\<close>

fun is_promote_post :: "event \<Rightarrow> bool" where
  "is_promote_post (EvPostPromote url auth) = True"
| "is_promote_post _ = False"

definition reports :: "string \<Rightarrow> event \<Rightarrow> bool" where
  "reports role e \<longleftrightarrow> e = EvStatus (StatusReply 200 (Some role))"

text \<open>What a node does to its child: signal it, kill it, drop the pool's connections.\<close>

fun is_stop_action :: "event \<Rightarrow> bool" where
  "is_stop_action EvPoolReset = True"
| "is_stop_action (EvSignal p sig) = True"
| "is_stop_action (EvStopTool tool args) = True"
| "is_stop_action (EvKill p) = True"
| "is_stop_action (EvKillRefused p) = True"
| "is_stop_action (EvCleared p) = True"
| "is_stop_action _ = False"

lemma stop_action_not_post: "is_stop_action e \<Longrightarrow> \<not> is_promote_post e"
  by (cases e) simp_all

section \<open>Stopping the child\<close>

lemma stopGracefully_trace:
  "\<exists>es. trace (snd (stopGracefully E cfg sig w)) = trace w @ es \<and>
        (\<forall>e \<in> set es. (\<exists>p. e = EvSignal p sig) \<or> (\<exists>tool args. e = EvStopTool tool args))"
  by (auto simp: stop_defs signalChild_def Let_def split: option.splits)

lemma killChild_trace:
  "\<exists>es. trace (snd (killChild E w)) = trace w @ es \<and>
     (\<forall>e \<in> set es. \<exists>p. e = EvKill p \<or> e = EvKillRefused p)"
  by (auto simp: killChild_def Let_def split: option.splits)

text \<open>
  \<open>child_only w w'\<close>: beside what an observation changes, only \<open>currentChild\<close> and
  \<open>postgresRunning\<close> may differ.
\<close>

definition child_only :: "world \<Rightarrow> world \<Rightarrow> bool" where
  "child_only w w' \<longleftrightarrow>
     later w w' \<and>
     pgdata w' = pgdata w \<and>
     met w' = met w \<and>
     restartPending w' = restartPending w \<and>
     restartAt w' = restartAt w \<and>
     crashTimestamps w' = crashTimestamps w \<and>
     proc_exit w' = proc_exit w \<and>
     sup_proc w' = sup_proc w \<and>
     next_pid w' = next_pid w \<and>
     rebootSuppressUntil w' = rebootSuppressUntil w \<and>
     failoverPromoteDeadline w' = failoverPromoteDeadline w \<and>
     maintenanceActive w' = maintenanceActive w \<and>
     maintenanceWasPrimary w' = maintenanceWasPrimary w \<and>
     shutdownInProgress w' = shutdownInProgress w \<and>
     switchoverInProgress w' = switchoverInProgress w \<and>
     backupInProgress w' = backupInProgress w \<and>
     disk w' = disk w"

lemma child_onlyD:
  assumes "child_only w w'"
  shows "later w w'"
    "pgdata w' = pgdata w"
    "met w' = met w"
    "restartPending w' = restartPending w"
    "restartAt w' = restartAt w"
    "crashTimestamps w' = crashTimestamps w"
    "proc_exit w' = proc_exit w"
    "sup_proc w' = sup_proc w"
    "next_pid w' = next_pid w"
    "rebootSuppressUntil w' = rebootSuppressUntil w"
    "failoverPromoteDeadline w' = failoverPromoteDeadline w"
    "maintenanceActive w' = maintenanceActive w"
    "maintenanceWasPrimary w' = maintenanceWasPrimary w"
    "shutdownInProgress w' = shutdownInProgress w"
    "switchoverInProgress w' = switchoverInProgress w"
    "backupInProgress w' = backupInProgress w"
    "disk w' = disk w"
  using assms unfolding child_only_def by blast+

lemma child_only_refl [simp, intro]: "child_only w w"
  by (simp add: child_only_def)

lemma child_only_trans [trans]:
  assumes "child_only u v" and "child_only v w"
  shows "child_only u w"
  using later_trans [OF child_onlyD(1) [OF assms(1)] child_onlyD(1) [OF assms(2)]]
  by (simp add: child_only_def child_onlyD [OF assms(2)] child_onlyD [OF assms(1)])

lemma child_only_observed [intro]: "only_observed w w' \<Longrightarrow> child_only w w'"
  by (simp add: child_only_def only_observedD)

lemma child_only_steps [simp, intro]:
  "child_only w (emit e w)"
  "child_only w (clear_child p w)"
  "child_only w (forget_child w)"
  "child_only w (snd (stopGracefully E cfg sig w))"
  "child_only w (snd (killChild E w))"
  "child_only w (snd (wait_child E p d w))"
  by (auto simp: child_only_def clear_child_def forget_child_def later_def stop_defs
      signalChild_def killChild_def wait_child_def tick_def Let_def split: option.splits)

lemma same_child_stop_steps [simp, intro]:
  "same_child w (emit e w)"
  "same_child w (snd (stopGracefully E cfg sig w))"
  "same_child w (snd (killChild E w))"
  "same_child w (snd (wait_child E p d w))"
  by (auto simp: same_child_def)

text \<open>The three ways \<open>stopLocal\<close> can go, with the worlds between its calls.\<close>

lemma stopLocal_cases:
  assumes "stopLocal E cfg p sig w = (r, w')"
  obtains (clean) w3 where
      "r = Inr ()" "w' = clear_child p w3" "exit_of w3 p \<noteq> None"
      "w3 = snd (wait_child E p (ShutdownWait cfg)
              (snd (stopGracefully E cfg sig (emit EvPoolReset w))))"
    | (killed) w3 w4 where
      "r = Inr ()" "killChild E w3 = (Inr (), w4)"
      "w' = clear_child p (snd (wait_child E p handoverKillConfirmTimeout w4))"
      "w3 = snd (wait_child E p (ShutdownWait cfg)
              (snd (stopGracefully E cfg sig (emit EvPoolReset w))))"
    | (kill_failed) w3 e where
      "r = Inl (Wrap ''failed to kill child'' e)" "killChild E w3 = (Inl e, w')"
      "w3 = snd (wait_child E p (ShutdownWait cfg)
              (snd (stopGracefully E cfg sig (emit EvPoolReset w))))"
proof -
  obtain fin w3 where w: "wait_child E p (ShutdownWait cfg)
      (snd (stopGracefully E cfg sig (emit EvPoolReset w))) = (fin, w3)"
    by (rule prod.exhaust)
  obtain k w4 where k: "killChild E w3 = (k, w4)" by (rule prod.exhaust)
  show thesis
  proof (cases fin)
    case True
    with wait_child_done [of E p "ShutdownWait cfg"] w have "exit_of w3 p \<noteq> None"
      by (metis fst_conv snd_conv)
    then show thesis
      using True w assms by (intro clean [of w3]) (auto simp: stopLocal_def Let_def)
  next
    case False
    show thesis
    proof (cases k)
      case (Inl e)
      then show thesis
        using False w k assms by (intro kill_failed [of e w3]) (auto simp: stopLocal_def Let_def)
    next
      case (Inr u)
      then show thesis
        using False w k assms by (intro killed [of w3 w4]) (auto simp: stopLocal_def Let_def)
    qed
  qed
qed

lemma wait_world_steps:
  assumes "w3 = snd (wait_child E p d (snd (stopGracefully E cfg sig (emit EvPoolReset w))))"
  shows "child_only w w3" and "same_child w w3"
    and "\<exists>es. trace w3 = trace w @ es \<and> (\<forall>e \<in> set es. is_stop_action e \<and> (\<forall>q. e \<noteq> EvCleared q))"
proof -
  show "child_only w w3"
    unfolding assms by (meson child_only_steps child_only_trans)
  show "same_child w w3"
    unfolding assms by (meson same_child_stop_steps same_child_trans)
  obtain es where es: "trace (snd (stopGracefully E cfg sig (emit EvPoolReset w)))
      = trace (emit EvPoolReset w) @ es"
      "\<forall>e \<in> set es. (\<exists>p. e = EvSignal p sig) \<or> (\<exists>tool args. e = EvStopTool tool args)"
    using stopGracefully_trace by blast
  then show "\<exists>es. trace w3 = trace w @ es
      \<and> (\<forall>e \<in> set es. is_stop_action e \<and> (\<forall>q. e \<noteq> EvCleared q))"
    unfolding assms by (intro exI [of _ "EvPoolReset # es"]) auto
qed

lemma killChild_Inr:
  assumes "killChild E w = (Inr (), w')"
  shows "\<exists>q. sup_proc w = Some q \<and> trace w' = trace w @ [EvKill q]"
  using assms by (auto simp: killChild_def Let_def split: option.splits if_splits)

lemma child_only_stopLocal [simp, intro]: "child_only w (snd (stopLocal E cfg p sig w))"
proof -
  obtain r w' where eq: "stopLocal E cfg p sig w = (r, w')" by (rule prod.exhaust)
  then show ?thesis
  proof (cases rule: stopLocal_cases)
    case (clean w3)
    then show ?thesis using wait_world_steps(1) eq child_only_steps(2) child_only_trans
      by (metis snd_conv)
  next
    case (killed w3 w4)
    then have "child_only w w3" "child_only w3 w4"
      using wait_world_steps(1) child_only_steps(5) [of w3 E] by (blast, simp)
    then have "child_only w w4" by (rule child_only_trans)
    with killed(3) eq show ?thesis
      by (metis child_only_steps(2) child_only_steps(6) child_only_trans snd_conv)
  next
    case (kill_failed w3 e)
    then have "child_only w w3" "child_only w3 w'"
      using wait_world_steps(1) child_only_steps(5) [of w3 E] by (blast, simp)
    with eq show ?thesis by (metis child_only_trans snd_conv)
  qed
qed

text \<open>A kill fails because the process had exited, or because the kernel refused it.\<close>

lemma killChild_Inl:
  assumes "killChild E w = (Inl e, w')" and "sup_proc w = Some p"
  shows "exit_of w' p \<noteq> None \<or> trace w' = trace w @ [EvKillRefused p]"
proof (cases "exit_of w p")
  case None
  with assms show ?thesis by (auto simp: killChild_def Let_def split: if_splits)
next
  case (Some c)
  have "later w w'" using later_killChild [of w E] assms(1) by simp
  with Some show ?thesis by (auto simp: later_def)
qed

text \<open>
  The contract of \<open>stopLocal\<close>: it reports success exactly when it has recorded the child as
  stopped, and then the child has exited or a kill was delivered to it; it fails only when the kill
  fails, and then the record of the child is untouched.
\<close>

lemma stopLocal_ok:
  assumes "stopLocal E cfg p sig w = (Inr (), w')"
  shows "currentChild w' = None" and "\<not> postgresRunning w'"
    and "\<exists>es. trace w' = trace w @ es @ [EvCleared p] \<and>
           (\<forall>e \<in> set es. is_stop_action e \<and> (\<forall>q. e \<noteq> EvCleared q)) \<and>
           (exit_of w' p \<noteq> None \<or> (\<exists>q. sup_proc w = Some q \<and> EvKill q \<in> set es))"
proof -
  have "currentChild w' = None \<and> \<not> postgresRunning w' \<and>
    (\<exists>es. trace w' = trace w @ es @ [EvCleared p] \<and>
       (\<forall>e \<in> set es. is_stop_action e \<and> (\<forall>q. e \<noteq> EvCleared q)) \<and>
       (exit_of w' p \<noteq> None \<or> (\<exists>q. sup_proc w = Some q \<and> EvKill q \<in> set es)))"
    using assms
  proof (cases rule: stopLocal_cases)
    case (clean w3)
    from wait_world_steps(3) [OF clean(4)] obtain es where
      "trace w3 = trace w @ es" "\<forall>e \<in> set es. is_stop_action e \<and> (\<forall>q. e \<noteq> EvCleared q)"
      by blast
    with clean(2,3) show ?thesis by (auto simp: clear_child_def)
  next
    case (killed w3 w4)
    from wait_world_steps(3) [OF killed(4)] obtain es where es:
      "trace w3 = trace w @ es" "\<forall>e \<in> set es. is_stop_action e \<and> (\<forall>q. e \<noteq> EvCleared q)"
      by blast
    from killChild_Inr [OF killed(2)] obtain q where q:
      "sup_proc w3 = Some q" "trace w4 = trace w3 @ [EvKill q]" by blast
    have "sup_proc w3 = sup_proc w"
      using wait_world_steps(2) [OF killed(4)] by (simp add: same_child_def)
    with es q killed(3) show ?thesis
      by (auto simp: clear_child_def intro!: exI [of _ "es @ [EvKill q]"])
  next
    case (kill_failed w3 e)
    then show ?thesis by simp
  qed
  then show "currentChild w' = None" and "\<not> postgresRunning w'"
    and "\<exists>es. trace w' = trace w @ es @ [EvCleared p] \<and>
           (\<forall>e \<in> set es. is_stop_action e \<and> (\<forall>q. e \<noteq> EvCleared q)) \<and>
           (exit_of w' p \<noteq> None \<or> (\<exists>q. sup_proc w = Some q \<and> EvKill q \<in> set es))"
    by blast+
qed

lemma stopLocal_failed:
  assumes "stopLocal E cfg p sig w = (Inl e, w')"
  shows "same_child w w'" and "\<exists>k. e = Wrap ''failed to kill child'' k"
    and "\<exists>es. trace w' = trace w @ es \<and> (\<forall>x \<in> set es. is_stop_action x \<and> (\<forall>q. x \<noteq> EvCleared q))"
proof -
  from assms obtain w3 k where k: "e = Wrap ''failed to kill child'' k" "killChild E w3 = (Inl k, w')"
    "w3 = snd (wait_child E p (ShutdownWait cfg)
              (snd (stopGracefully E cfg sig (emit EvPoolReset w))))"
    by (cases rule: stopLocal_cases) auto
  show "\<exists>k. e = Wrap ''failed to kill child'' k" using k(1) by blast
  show "same_child w w'"
    using wait_world_steps(2) [OF k(3)] same_child_stop_steps(3) [of w3 E] k(2) same_child_trans
    by (metis snd_conv)
  obtain es ks where "trace w3 = trace w @ es" "\<forall>x \<in> set es. is_stop_action x \<and> (\<forall>q. x \<noteq> EvCleared q)"
    "trace w' = trace w3 @ ks" "\<forall>x \<in> set ks. \<exists>p. x = EvKill p \<or> x = EvKillRefused p"
    using wait_world_steps(3) [OF k(3)] killChild_trace [of E w3] k(2) by auto
  then show "\<exists>es. trace w' = trace w @ es \<and> (\<forall>x \<in> set es. is_stop_action x \<and> (\<forall>q. x \<noteq> EvCleared q))"
    by (intro exI [of _ "es @ ks"]) auto
qed

section \<open>Waiting for the peer\<close>

lemma awaitPeerPrimary_spec:
  assumes "awaitPeerPrimary E cfg deadline w = (c, w')"
  shows "only_observed w w' \<and>
    (\<exists>es. trace w' = trace w @ es \<and> (\<forall>e \<in> set es. \<exists>r. e = EvStatus r) \<and>
       (c \<longrightarrow> es \<noteq> [] \<and> reports ''primary'' (last es)) \<and>
       (\<not> c \<longrightarrow> deadline \<le> now w') \<and>
       (es \<noteq> [] \<longrightarrow> (int (length es) - 1) * (500 * millisecond) < deadline - now w))"
  using assms
proof (induction E cfg deadline w arbitrary: c w' rule: awaitPeerPrimary.induct)
  case (1 E cfg deadline w)
  show ?case
  proof (cases "now w < deadline")
    case False
    with "1.prems" show ?thesis by (auto simp: awaitPeerPrimary.simps [of E cfg deadline w])
  next
    case True
    obtain st w1 where f: "fetchPeerStatus E cfg w = (st, w1)" by (rule prod.exhaust)
    then have obs1: "only_observed w w1" using only_observed_peer(2) [of w E cfg] by simp
    define e where "e = EvStatus (status_reply E (calls w))"
    have tr1: "trace w1 = trace w @ (if PeerHost cfg = [] then [] else [e])"
      using fetchPeerStatus_trace [of E cfg w] f by (simp add: e_def)
    show ?thesis
    proof (cases "st = Inr ''primary''")
      case True
      with f have "PeerHost cfg \<noteq> []" and "reports ''primary'' e"
        using fetchPeerStatus_Inr [of E cfg w "''primary''"] by (simp_all add: e_def reports_def)
      with "1.prems" True f obs1 tr1 \<open>now w < deadline\<close> show ?thesis
        by (auto simp: awaitPeerPrimary.simps [of E cfg deadline w] e_def)
    next
      case False
      define w2 where "w2 = sleep E (500 * millisecond) w1"
      have rec: "awaitPeerPrimary E cfg deadline w2 = (c, w')"
        using "1.prems" True False f
        by (simp add: awaitPeerPrimary.simps [of E cfg deadline w] w2_def)
      from "1.IH" [OF True f [symmetric] refl False] rec
      obtain es where IH: "only_observed w2 w'" "trace w' = trace w2 @ es"
        "\<forall>e \<in> set es. \<exists>r. e = EvStatus r" "c \<longrightarrow> es \<noteq> [] \<and> reports ''primary'' (last es)"
        "\<not> c \<longrightarrow> deadline \<le> now w'"
        "es \<noteq> [] \<longrightarrow> (int (length es) - 1) * (500 * millisecond) < deadline - now w2"
        unfolding w2_def by blast
      have obs: "only_observed w w'"
        using obs1 IH(1) only_observed_sleep only_observed_trans unfolding w2_def by metis
      have adv: "now w + 500 * millisecond \<le> now w2"
        using later_now [OF only_observedD(1) [OF obs1]] sleep_advances [of w1 "500 * millisecond" E]
        by (simp add: w2_def)
      have tr: "trace w' = trace w @ (if PeerHost cfg = [] then es else e # es)"
        using IH(2) tr1 by (simp add: w2_def)
      have len: "es \<noteq> [] \<longrightarrow> int (length es) * (500 * millisecond) < deadline - now w"
        using IH(6) adv by (auto simp: algebra_simps)
      show ?thesis
      proof (cases "PeerHost cfg = []")
        case True
        have "es \<noteq> [] \<longrightarrow> (int (length es) - 1) * (500 * millisecond) < deadline - now w"
          using len by (auto simp: time_units)
        with True tr obs IH(3-5) show ?thesis by auto
      next
        case False
        have "(int (length (e # es)) - 1) * (500 * millisecond) < deadline - now w"
          using len \<open>now w < deadline\<close> by (cases es) auto
        moreover have "\<forall>x \<in> set (e # es). \<exists>r. x = EvStatus r"
          using IH(3) by (simp add: e_def)
        ultimately show ?thesis
          using False tr obs IH(4,5) by (intro conjI exI [of _ "e # es"]) auto
      qed
    qed
  qed
qed

lemma awaitPeerPrimary_polls:
  assumes "awaitPeerPrimary E cfg (now w + peerPromoteConfirmDeadline) w = (c, w')"
  shows "length (fresh_events w w') \<le> 20"
proof -
  from awaitPeerPrimary_spec [OF assms] obtain es where
    "trace w' = trace w @ es" and
    b: "es \<noteq> [] \<longrightarrow> (int (length es) - 1) * (500 * millisecond) < peerPromoteConfirmDeadline"
    by auto
  moreover from b have "length es \<le> 20"
    by (cases es) (auto simp: peerPromoteConfirmDeadline_def time_units)
  ultimately show ?thesis by (simp add: fresh_events_def)
qed

section \<open>The ways a handover can go\<close>

lemma coordinateHandover_cases:
  assumes "coordinateHandover E cfg p sig policy w = (r, w')"
  obtains (forced) "policy = ''force''" "stopLocal E cfg p sig w = (r, w')"
    | (standby) w1 where "policy \<noteq> ''force''" "isInRecovery E w = (Inr True, w1)"
        "coordinateStandbyHandover E cfg p sig policy w1 = (r, w')"
    | (refused) w1 st where "policy = ''require-switchover''" "w1 = snd (isInRecovery E w)"
        "fetchPeerStatus E cfg w1 = (st, w')" "st \<noteq> Inr ''standby''" "r = Inl (Err ''refusing handover'')"
    | (stop_failed) w1 w2 st e where "policy \<noteq> ''force''" "w1 = snd (isInRecovery E w)"
        "fetchPeerStatus E cfg w1 = (st, w2)" "stopLocal E cfg p sig w2 = (Inl e, w')"
        "policy = ''require-switchover'' \<longrightarrow> st = Inr ''standby''"
        "r = Inl (Wrap ''stopping local postgres'' e)"
    | (stopped) w1 w2 w3 st where "policy \<noteq> ''force''" "w1 = snd (isInRecovery E w)"
        "fst (isInRecovery E w) \<noteq> Inr True"
        "fetchPeerStatus E cfg w1 = (st, w2)" "stopLocal E cfg p sig w2 = (Inr (), w3)"
        "policy = ''require-switchover'' \<longrightarrow> st = Inr ''standby''"
        "(\<exists>e. requestPeerPromote E cfg w3 = (Inl e, w') \<and>
            r = (if policy = ''require-switchover''
                 then Inl (Wrap ''local postgres stopped but peer promote request failed'' e)
                 else Inr ())) \<or>
         (\<exists>w4 c. requestPeerPromote E cfg w3 = (Inr (), w4) \<and>
            awaitPeerPrimary E cfg (now w4 + peerPromoteConfirmDeadline) w4 = (c, w') \<and>
            r = (if \<not> c \<and> policy = ''require-switchover''
                 then Inl (Err ''local postgres stopped but peer did not confirm primary'')
                 else Inr ()))"
proof -
  obtain rec w1 where i: "isInRecovery E w = (rec, w1)" by (rule prod.exhaust)
  obtain st w2 where f: "fetchPeerStatus E cfg w1 = (st, w2)" by (rule prod.exhaust)
  obtain sr w3 where s: "stopLocal E cfg p sig w2 = (sr, w3)" by (rule prod.exhaust)
  obtain pr w4 where q: "requestPeerPromote E cfg w3 = (pr, w4)" by (rule prod.exhaust)
  obtain c w5 where a: "awaitPeerPrimary E cfg (now w4 + peerPromoteConfirmDeadline) w4 = (c, w5)"
    by (rule prod.exhaust)
  note eqs = i f s q a
  show thesis
  proof (cases "policy = ''force''")
    case True
    with assms show thesis by (intro forced) (auto simp: coordinateHandover_def)
  next
    case nforce: False
    show thesis
    proof (cases "rec = Inr True")
      case True
      with assms nforce i show thesis
        by (intro standby [of w1]) (auto simp: coordinateHandover_def)
    next
      case nrec: False
      show thesis
      proof (cases "policy = ''require-switchover'' \<and> st \<noteq> Inr ''standby''")
        case True
        with assms nrec eqs show thesis
          by (intro refused [of w1 st]) (auto simp: coordinateHandover_def)
      next
        case False
        show thesis
        proof (cases sr)
          case (Inl e)
          with assms nforce nrec False eqs show thesis
            by (intro stop_failed [of w1 st w2 e]) (auto simp: coordinateHandover_def)
        next
          case (Inr u)
          show thesis
          proof (rule stopped [of w1 st w2 w3])
            show "(\<exists>e. requestPeerPromote E cfg w3 = (Inl e, w') \<and>
                r = (if policy = ''require-switchover''
                     then Inl (Wrap ''local postgres stopped but peer promote request failed'' e)
                     else Inr ())) \<or>
             (\<exists>w4 c. requestPeerPromote E cfg w3 = (Inr (), w4) \<and>
                awaitPeerPrimary E cfg (now w4 + peerPromoteConfirmDeadline) w4 = (c, w') \<and>
                r = (if \<not> c \<and> policy = ''require-switchover''
                     then Inl (Err ''local postgres stopped but peer did not confirm primary'')
                     else Inr ()))"
              using assms nforce nrec False Inr eqs
              by (cases pr) (auto simp: coordinateHandover_def)
          qed (use nforce nrec False Inr eqs in auto)
        qed
      qed
    qed
  qed
qed

lemma coordinateStandbyHandover_cases:
  assumes "coordinateStandbyHandover E cfg p sig policy w = (r, w')"
  obtains (refused) st where "policy = ''require-switchover''"
        "fetchPeerStatus E cfg w = (st, w')" "st \<noteq> Inr ''primary''"
        "r = Inl (Err ''refusing standby shutdown'')"
    | (stop) st w1 sr where "fetchPeerStatus E cfg w = (st, w1)"
        "policy = ''require-switchover'' \<longrightarrow> st = Inr ''primary''"
        "stopLocal E cfg p sig w1 = (sr, w')"
        "r = (case sr of Inl e \<Rightarrow> Inl (Wrap ''stopping local postgres'' e) | Inr _ \<Rightarrow> Inr ())"
proof -
  obtain st w1 where f: "fetchPeerStatus E cfg w = (st, w1)" by (rule prod.exhaust)
  obtain sr w2 where s: "stopLocal E cfg p sig w1 = (sr, w2)" by (rule prod.exhaust)
  show thesis
  proof (cases "policy = ''require-switchover'' \<and> st \<noteq> Inr ''primary''")
    case True
    with assms f show thesis
      by (intro refused [of st]) (auto simp: coordinateStandbyHandover_def)
  next
    case False
    with assms f s show thesis
      by (intro stop [of st w1 sr]) (auto simp: coordinateStandbyHandover_def split: sum.splits)
  qed
qed

section \<open>What a handover adds to the trace\<close>

text \<open>The parts of the contracts above that the theorems below combine.\<close>

lemma adds_stopLocal:
  assumes "stopLocal E cfg p sig w = (r, w')"
  shows "adds is_stop_action w w'"
proof (cases r)
  case (Inl e)
  then have "stopLocal E cfg p sig w = (Inl e, w')" using assms by simp
  from stopLocal_failed(3) [OF this] show ?thesis unfolding adds_def by blast
next
  case (Inr u)
  then have "stopLocal E cfg p sig w = (Inr (), w')" using assms by simp
  from stopLocal_ok(3) [OF this] obtain es where
    "trace w' = trace w @ es @ [EvCleared p]" "\<forall>e \<in> set es. is_stop_action e" by blast
  then show ?thesis
    by (intro addsI [of w' w "es @ [EvCleared p]"]) auto
qed

fun is_observation :: "event \<Rightarrow> bool" where
  "is_observation (EvRole r) = True"
| "is_observation (EvStatus s) = True"
| "is_observation (EvHealth b) = True"
| "is_observation _ = False"

lemma observation_kinds:
  "is_observation e \<Longrightarrow> \<not> is_promote_post e" "is_observation e \<Longrightarrow> \<not> is_stop_action e"
  by (cases e; simp)+

lemma adds_isInRecovery [simp, intro]: "adds is_observation w (snd (isInRecovery E w))"
  by (rule addsI [OF isInRecovery_trace]) simp

lemma adds_fetchPeerStatus [simp, intro]: "adds is_observation w (snd (fetchPeerStatus E cfg w))"
  by (rule addsI [OF fetchPeerStatus_trace]) simp

lemma adds_observed:
  assumes "w1 = snd (isInRecovery E w)" and "fetchPeerStatus E cfg w1 = (st, w2)"
  shows "adds is_observation w w2" and "only_observed w w2"
proof -
  let ?v = "snd (isInRecovery E w)"
  from assms have w2: "w2 = snd (fetchPeerStatus E cfg ?v)" by simp
  show "adds is_observation w w2"
    unfolding w2 by (rule adds_trans [OF adds_isInRecovery adds_fetchPeerStatus])
  show "only_observed w w2"
    unfolding w2 by (rule only_observed_trans [OF only_observed_peer(5) only_observed_peer(2)])
qed

text \<open>A status that was read is in the trace.\<close>

lemma fetch_reports:
  assumes "fetchPeerStatus E cfg w = (Inr role, w')"
  shows "\<exists>e. trace w' = trace w @ [e] \<and> reports role e"
proof -
  have "PeerHost cfg \<noteq> []" "status_reply E (calls w) = StatusReply 200 (Some role)"
    using fetchPeerStatus_Inr [of E cfg w role] assms by simp_all
  then show ?thesis using fetchPeerStatus_trace [of E cfg w] assms by (simp add: reports_def)
qed

lemma adds_standby:
  assumes "coordinateStandbyHandover E cfg p sig policy w = (r, w')"
  shows "adds (\<lambda>e. \<not> is_promote_post e) w w'"
  using assms
proof (cases rule: coordinateStandbyHandover_cases)
  case (refused st)
  then have "adds is_observation w w'" using adds_fetchPeerStatus [of w E cfg] by simp
  then show ?thesis by (rule adds_mono) (simp add: observation_kinds)
next
  case (stop st w1 sr)
  have "adds is_observation w w1" using stop(1) adds_fetchPeerStatus [of w E cfg] by simp
  then have "adds (\<lambda>e. \<not> is_promote_post e) w w1"
    by (rule adds_mono) (simp add: observation_kinds)
  also have "adds (\<lambda>e. \<not> is_promote_post e) w1 w'"
    by (rule adds_mono [OF adds_stopLocal [OF stop(3)]]) (simp add: stop_action_not_post)
  finally show ?thesis .
qed

lemma child_only_standby:
  assumes "coordinateStandbyHandover E cfg p sig policy w = (r, w')"
  shows "child_only w w'"
  using assms
proof (cases rule: coordinateStandbyHandover_cases)
  case (refused st)
  with only_observed_peer(2) [of w E cfg] show ?thesis by auto
next
  case (stop st w1 sr)
  have "child_only w w1" using only_observed_peer(2) [of w E cfg] stop(1) by auto
  also have "child_only w1 w'" using child_only_stopLocal [of w1 E cfg p sig] stop(3) by simp
  finally show ?thesis .
qed

lemma adds_coordinateHandover_unstopped:
  assumes "coordinateHandover E cfg p sig policy w = (r, w')"
    and "r = Inl e" "\<forall>k. e \<noteq> Wrap ''local postgres stopped but peer promote request failed'' k"
      "e \<noteq> Err ''local postgres stopped but peer did not confirm primary''"
  shows "adds (\<lambda>e. \<not> is_promote_post e) w w'"
  using assms(1)
proof (cases rule: coordinateHandover_cases)
  case forced
  show ?thesis
    by (rule adds_mono [OF adds_stopLocal [OF forced(2)]]) (simp add: stop_action_not_post)
next
  case (standby w1)
  have "adds (\<lambda>e. \<not> is_promote_post e) w w1"
    using standby(2) adds_mono [OF adds_isInRecovery [of w E]] observation_kinds(1) by simp
  with adds_standby [OF standby(3)] show ?thesis by (meson adds_trans)
next
  case (refused w1 st)
  show ?thesis
    by (rule adds_mono [OF adds_observed(1) [OF refused(2,3)]]) (simp add: observation_kinds)
next
  case (stop_failed w1 w2 st e)
  have "adds (\<lambda>e. \<not> is_promote_post e) w w2"
    by (rule adds_mono [OF adds_observed(1) [OF stop_failed(2,3)]]) (simp add: observation_kinds)
  also have "adds (\<lambda>e. \<not> is_promote_post e) w2 w'"
    by (rule adds_mono [OF adds_stopLocal [OF stop_failed(4)]]) (simp add: stop_action_not_post)
  finally show ?thesis .
next
  case (stopped w1 w2 w3 st)
  with assms(2-4) show ?thesis by (auto split: if_splits)
qed

section \<open>What each outcome means\<close>

definition is_refusal :: "pg_error \<Rightarrow> bool" where
  "is_refusal e \<longleftrightarrow> e = Err ''refusing handover'' \<or> e = Err ''refusing standby shutdown''"

fun is_stopped_without_successor :: "pg_error \<Rightarrow> bool" where
  "is_stopped_without_successor (Wrap m e) =
     (m = ''local postgres stopped but peer promote request failed'')"
| "is_stopped_without_successor (Err m) =
     (m = ''local postgres stopped but peer did not confirm primary'')"
| "is_stopped_without_successor _ = False"

lemma outcome_names [simp]:
  "is_refusal (Err ''refusing handover'')" "is_refusal (Err ''refusing standby shutdown'')"
  "\<not> is_refusal (Wrap m k)" "\<not> is_stopped_without_successor (Err ''refusing handover'')"
  "\<not> is_refusal (Err ''local postgres stopped but peer did not confirm primary'')"
  "\<not> is_stopped_without_successor (Err ''refusing standby shutdown'')"
  by (simp_all add: is_refusal_def)

lemma standby_outcome:
  assumes "coordinateStandbyHandover E cfg p sig policy w = (r, w')"
  shows "case r of
      Inr _ \<Rightarrow> currentChild w' = None \<and> \<not> postgresRunning w' \<and>
        (policy = ''require-switchover'' \<longrightarrow>
           (\<exists>e \<in> set (fresh_events w w'). reports ''primary'' e))
    | Inl e \<Rightarrow> \<not> is_stopped_without_successor e \<and> same_child w w' \<and>
        (is_refusal e \<longrightarrow> policy = ''require-switchover'' \<and> only_observed w w' \<and>
           adds is_observation w w')"
  using assms
proof (cases rule: coordinateStandbyHandover_cases)
  case (refused st)
  with only_observed_peer(2) [of w E cfg] adds_fetchPeerStatus [of w E cfg] show ?thesis
    by (simp add: only_observedD(2))
next
  case (stop st w1 sr)
  have obs: "only_observed w w1" using only_observed_peer(2) [of w E cfg] stop(1) by simp
  show ?thesis
  proof (cases sr)
    case (Inl e)
    have "same_child w1 w'" using stopLocal_failed(1) [OF stop(3) [unfolded Inl]] .
    with obs Inl stop(4) show ?thesis by (auto dest: only_observedD(2) same_child_trans)
  next
    case (Inr u)
    then have ok: "stopLocal E cfg p sig w1 = (Inr (), w')" using stop(3) by simp
    have "\<exists>e \<in> set (fresh_events w w'). reports ''primary'' e"
      if req: "policy = ''require-switchover''"
    proof -
      obtain e where "trace w1 = trace w @ [e]" "reports ''primary'' e"
        using fetch_reports [of E cfg w "''primary''" w1] stop(1,2) req by auto
      with stopLocal_ok(3) [OF ok] show ?thesis by (auto simp: fresh_events_def)
    qed
    with stopLocal_ok(1,2) [OF ok] Inr stop(4) show ?thesis by simp
  qed
qed

lemma coordinateHandover_outcome:
  assumes "coordinateHandover E cfg p sig policy w = (r, w')"
  shows "case r of
      Inr _ \<Rightarrow> currentChild w' = None \<and> \<not> postgresRunning w' \<and>
        (policy = ''require-switchover'' \<longrightarrow>
           (\<exists>e \<in> set (fresh_events w w'). reports ''primary'' e))
    | Inl e \<Rightarrow>
        (if is_stopped_without_successor e
         then policy = ''require-switchover'' \<and> currentChild w' = None \<and> \<not> postgresRunning w'
         else same_child w w' \<and>
           (is_refusal e \<longrightarrow> policy = ''require-switchover'' \<and> only_observed w w' \<and>
              adds is_observation w w'))"
  using assms
proof (cases rule: coordinateHandover_cases)
  case forced
  show ?thesis
  proof (cases r)
    case (Inl e)
    from stopLocal_failed(1,2) [OF forced(2) [unfolded Inl]] Inl show ?thesis by auto
  next
    case (Inr u)
    from stopLocal_ok(1,2) [of E cfg p sig w w'] forced Inr show ?thesis by simp
  qed
next
  case (standby w1)
  have o: "only_observed w w1" "adds is_observation w w1"
    using only_observed_peer(5) [of w E] adds_isInRecovery [of w E] standby(2) by simp_all
  have l: "later w1 w'"
    using child_only_standby [OF standby(3)] child_onlyD(1) by blast
  have sub: "set (fresh_events w1 w') \<subseteq> set (fresh_events w w')"
    using fresh_events_trans [OF only_observedD(1) [OF o(1)] l] by simp
  note out = standby_outcome [OF standby(3)]
  show ?thesis
  proof (cases r)
    case (Inl e)
    with out have e: "\<not> is_stopped_without_successor e" "same_child w1 w'"
      "is_refusal e \<longrightarrow> policy = ''require-switchover'' \<and> only_observed w1 w' \<and>
         adds is_observation w1 w'" by simp_all
    have "same_child w w'" using same_child_trans [OF only_observedD(2) [OF o(1)] e(2)] .
    moreover have "is_refusal e \<Longrightarrow> only_observed w w' \<and> adds is_observation w w'"
      using e(3) only_observed_trans [OF o(1)] adds_trans [OF o(2)] by blast
    ultimately show ?thesis using Inl e(1,3) by simp
  next
    case (Inr u)
    with out sub show ?thesis by auto
  qed
next
  case (refused w1 st)
  with adds_observed [OF refused(2,3)] show ?thesis by (simp add: only_observedD(2))
next
  case (stop_failed w1 w2 st e)
  from stopLocal_failed(1) [OF stop_failed(4)] adds_observed(2) [OF stop_failed(2,3)] stop_failed(6)
  show ?thesis by (auto dest: only_observedD(2) same_child_trans)
next
  case (stopped w1 w2 w3 st)
  show ?thesis
  proof -
    note st = stopLocal_ok(1,2) [OF stopped(5)]
    have l: "later w w3"
      using only_observedD(1) [OF adds_observed(2) [OF stopped(2,4)]]
        child_onlyD(1) [OF child_only_stopLocal [of w2 E cfg p sig]] stopped(5) later_trans
      by (metis snd_conv)
    from stopped(7) show ?thesis
    proof (elim disjE exE conjE)
      fix e assume q: "requestPeerPromote E cfg w3 = (Inl e, w')"
        "r = (if policy = ''require-switchover''
              then Inl (Wrap ''local postgres stopped but peer promote request failed'' e)
              else Inr ())"
      have "same_child w3 w'" using only_observed_peer(3) [of w3 E cfg] q(1) only_observedD(2) by simp
      with st q(2) show ?thesis by (simp add: same_child_def)
    next
      fix w4 c assume q: "requestPeerPromote E cfg w3 = (Inr (), w4)"
        "awaitPeerPrimary E cfg (now w4 + peerPromoteConfirmDeadline) w4 = (c, w')"
        "r = (if \<not> c \<and> policy = ''require-switchover''
              then Inl (Err ''local postgres stopped but peer did not confirm primary'') else Inr ())"
      have o: "only_observed w3 w4" using only_observed_peer(3) [of w3 E cfg] q(1) by simp
      from awaitPeerPrimary_spec [OF q(2)] obtain es where es: "only_observed w4 w'"
        "trace w' = trace w4 @ es" "c \<longrightarrow> es \<noteq> [] \<and> reports ''primary'' (last es)" by blast
      have "currentChild w' = None" "\<not> postgresRunning w'"
        using st o es(1) by (simp_all add: only_observedD)
      moreover have "\<exists>e \<in> set (fresh_events w w'). reports ''primary'' e" if "c"
      proof -
        from es(3) that have "last es \<in> set es" "reports ''primary'' (last es)" by auto
        moreover have "fresh_events w w' = fresh_events w w4 @ es"
          using es(2) later_trans [OF l only_observedD(1) [OF o]]
          by (auto simp: fresh_events_def later_def prefix_def)
        ultimately show ?thesis by auto
      qed
      ultimately show ?thesis using q(3) by auto
    qed
  qed
qed

section \<open>Properties\<close>

text \<open>
  C2. A peer is asked to promote itself only after the local child was recorded as stopped, and
  by then the child had exited or a kill had been delivered to it; under require-switchover the peer had also
  reported itself a standby before.
\<close>

theorem handover_stops_before_promote:
  assumes "coordinateHandover E cfg p sig policy w = (r, w')"
    and "fresh_events w w' = ys @ x # zs" and "is_promote_post x"
  shows "EvCleared p \<in> set ys \<and>
    (exit_of w' p \<noteq> None \<or> (\<exists>q. sup_proc w = Some q \<and> EvKill q \<in> set ys)) \<and>
    (policy = ''require-switchover'' \<longrightarrow> (\<exists>e \<in> set ys. reports ''standby'' e))"
  using assms(1)
proof (cases rule: coordinateHandover_cases)
  case forced
  from adds_split [OF adds_stopLocal [OF forced(2)] assms(2)] assms(3) show ?thesis
    by (simp add: stop_action_not_post)
next
  case (standby w1)
  have "adds (\<lambda>e. \<not> is_promote_post e) w w1"
    using standby(2) adds_mono [OF adds_isInRecovery [of w E]] observation_kinds(1) by simp
  from adds_split [OF adds_trans [OF this adds_standby [OF standby(3)]] assms(2)] assms(3)
  show ?thesis by simp
next
  case (refused w1 st)
  from adds_split [OF adds_observed(1) [OF refused(2,3)] assms(2)] assms(3) show ?thesis
    by (simp add: observation_kinds)
next
  case (stop_failed w1 w2 st e)
  from adds_coordinateHandover_unstopped [OF assms(1) stop_failed(6)] assms(2,3) show ?thesis
    using adds_split by fastforce
next
  case (stopped w1 w2 w3 st)
  from adds_observed [OF stopped(2,4)] obtain os where os:
    "only_observed w w2" "trace w2 = trace w @ os" "\<forall>e \<in> set os. is_observation e"
    by (auto simp: adds_def)
  have seen: "policy = ''require-switchover'' \<Longrightarrow> \<exists>e \<in> set os. reports ''standby'' e"
    using fetch_reports [of E cfg w1 "''standby''" w2] stopped(2,4,6) isInRecovery_trace [of E w] os(2)
    by auto
  from stopLocal_ok(3) [OF stopped(5)] obtain es where es:
    "trace w3 = trace w2 @ es @ [EvCleared p]" "\<forall>e \<in> set es. is_stop_action e"
    "exit_of w3 p \<noteq> None \<or> (\<exists>q. sup_proc w2 = Some q \<and> EvKill q \<in> set es)" by blast
  have lat: "later w3 w'"
    using stopped(7) later_peer(3) [of w3 E cfg] awaitPeerPrimary_spec only_observedD(1) later_trans
    by (metis snd_conv)
  then obtain rest where "trace w' = trace w3 @ rest" by (auto simp: later_def prefix_def)
  with os(2) es(1) have "fresh_events w w' = (os @ es @ [EvCleared p]) @ rest"
    by (simp add: fresh_events_def)
  moreover have "x \<notin> set (os @ es @ [EvCleared p])"
    using os(3) es(2) assms(3) stop_action_not_post observation_kinds(1) by auto
  ultimately obtain C where ys: "ys = (os @ es @ [EvCleared p]) @ C"
    using split_after_prefix assms(2) by metis
  have "exit_of w3 p \<noteq> None \<Longrightarrow> exit_of w' p \<noteq> None"
    using lat by (auto simp: later_def)
  moreover have "sup_proc w2 = sup_proc w" using os(1) by (simp add: only_observedD)
  ultimately show ?thesis using ys es(3) seen by auto
qed

text \<open>A run in which the peer takes over: the fourth call finds the child exited, and from the
  fifth on the peer reports itself primary.\<close>

definition handover_env :: env where
  "handover_env = (calm_exit 3)\<lparr>status_reply :=
     (\<lambda>k. StatusReply 200 (Some (if k < 4 then ''standby'' else ''primary'')))\<rparr>"

lemmas handover_eval_defs [evals] =
  coordinateHandover_def coordinateStandbyHandover_def coordinateReboot_def stopLocal_def
  awaitPeerPrimary.simps handover_env_def peerPromoteConfirmDeadline_def
  handoverKillConfirmTimeout_def

definition handover_run :: "(pg_error + unit) \<times> world" where
  "handover_run = coordinateHandover handover_env demo_config 0 SIGTERM ''require-switchover''
     (running_world 0 (\<lambda>_. None))"

lemma handover_run_eval:
  "fst handover_run = Inr ()" "currentChild (snd handover_run) = None"
  "fresh_events (running_world 0 (\<lambda>_. None)) (snd handover_run) =
     [EvRole (Some False), EvStatus (StatusReply 200 (Some ''standby'')), EvPoolReset,
      EvSignal 0 SIGTERM, EvCleared 0] @
     EvPostPromote ''http://node-1:8080/api/promote?force=true'' [] #
     [EvStatus (StatusReply 200 (Some ''primary''))]"
  by (simp_all add: handover_run_def evals)

theorem handover_stops_before_promote_witness:
  "EvCleared 0 \<in> set (take 5 (fresh_events (running_world 0 (\<lambda>_. None)) (snd handover_run)))"
  using handover_stops_before_promote [OF prod.collapse [symmetric, of handover_run,
        unfolded handover_run_def] handover_run_eval(3) [unfolded handover_run_def]]
    handover_run_eval(3)
  by simp

text \<open>
  A handover under require-switchover that reports success has stopped the local server and
  heard the peer report itself primary, whichever of the two roles this node had.
\<close>

theorem handover_success_needs_primary:
  assumes "coordinateHandover E cfg p sig ''require-switchover'' w = (Inr (), w')"
  shows "currentChild w' = None \<and> \<not> postgresRunning w' \<and>
    (\<exists>e \<in> set (fresh_events w w'). reports ''primary'' e)"
  using coordinateHandover_outcome [OF assms] by simp

lemma handover_run_eq:
  "coordinateHandover handover_env demo_config 0 SIGTERM ''require-switchover''
     (running_world 0 (\<lambda>_. None)) = (Inr (), snd handover_run)"
  using handover_run_eval(1) by (simp add: handover_run_def prod_eq_iff)

theorem handover_success_needs_primary_witness:
  "currentChild (snd handover_run) = None \<and> \<not> postgresRunning (snd handover_run)"
  using handover_success_needs_primary [OF handover_run_eq] by blast


definition refused_run :: "(pg_error + unit) \<times> world" where
  "refused_run = coordinateHandover (calm\<lparr>status_reply := (\<lambda>_. StatusUnreachable)\<rparr>) demo_config 0
     SIGTERM ''require-switchover'' (running_world 0 (\<lambda>_. None))"

lemma refused_run_eval: "fst refused_run = Inl (Err ''refusing handover'')"
  by (simp add: refused_run_def evals)


text \<open>
  A reboot never asks the peer to promote itself. A node that is not known to be a standby
  and has a peer sends it exactly one reboot notice, before anything is done to the local
  server.
\<close>

theorem reboot_never_promotes:
  assumes "coordinateReboot E cfg p sig w = (r, w')"
  shows "(\<forall>e \<in> set (fresh_events w w'). \<not> is_promote_post e) \<and>
    (PeerHost cfg \<noteq> [] \<and> recovery_reply E (calls w) \<noteq> Some True \<longrightarrow>
       (\<exists>es. fresh_events w w' = EvRole (recovery_reply E (calls w)) #
          EvPostRebootNotice (peerAPIURL cfg ''/api/reboot-notice'') (authorization cfg) # es \<and>
          (\<forall>e \<in> set es. is_stop_action e)))"
proof (cases "recovery_reply E (calls w) = Some True")
  case True
  define w1 where "w1 = snd (isInRecovery E w)"
  have "coordinateStandbyHandover E cfg p sig (ShutdownPolicy cfg) w1 = (r, w')"
    using assms True isInRecovery_fst [of E w True]
    by (simp add: coordinateReboot_def split_beta w1_def)
  note post = adds_standby [OF this]
  have "adds (\<lambda>e. \<not> is_promote_post e) w w1"
    unfolding w1_def by (rule adds_mono [OF adds_isInRecovery]) (rule observation_kinds)
  note all = adds_trans [OF this post]
  have "\<forall>e \<in> set (fresh_events w w'). \<not> is_promote_post e"
    using adds_fresh [OF all] by blast
  then show ?thesis using True by simp
next
  case False
  define w2 where "w2 = snd (notifyPeerReboot E cfg (snd (isInRecovery E w)))"
  have "stopLocal E cfg p sig w2 = (r, w')"
    using assms False isInRecovery_fst [of E w True]
    by (simp add: coordinateReboot_def split_beta w2_def)
  from adds_stopLocal [OF this] obtain es where
    es: "trace w' = trace w2 @ es" "\<forall>e \<in> set es. is_stop_action e" by (auto simp: adds_def)
  have "trace w2 = trace w @ EvRole (recovery_reply E (calls w)) #
      (if PeerHost cfg = [] then [] else
       [EvPostRebootNotice (peerAPIURL cfg ''/api/reboot-notice'') (authorization cfg)])"
    by (simp add: w2_def notifyPeerReboot_trace isInRecovery_trace)
  with es show ?thesis by (auto simp: fresh_events_def stop_action_not_post split: if_splits)
qed

theorem reboot_never_promotes_witness:
  "EvPostRebootNotice (peerAPIURL demo_config ''/api/reboot-notice'') (authorization demo_config)
     \<in> set (fresh_events (running_world 0 (\<lambda>_. None))
              (snd (coordinateReboot (calm_exit 3) demo_config 0 SIGTERM
                      (running_world 0 (\<lambda>_. None)))))"
  using reboot_never_promotes [of "calm_exit 3" demo_config 0 SIGTERM "running_world 0 (\<lambda>_. None)",
      OF prod.collapse [symmetric]]
  by (auto simp: calm_exit_def calm_def demo_config_def)

end
