(* ===== verification/Rejoin.thy ===== *)
theory Rejoin
  imports Hba Persist Handover
begin

text \<open>
  \<open>src/src/rewind.go\<close> and \<open>src/src/runcmd.go\<close>: making the stopped data directory a standby of the
  peer, by \<open>pg_rewind\<close> or, when that fails, by a new clone with \<open>pg_basebackup\<close>. A tool is a
  function of the environment from its arguments and the data directory to its exit code and the
  data directory it leaves.
\<close>

section \<open>Operations off the supervised child\<close>

text \<open>
  \<open>off_child w w'\<close>: everything but the files, the counters and what an observation changes is as
  before. All of bootstrap and rejoin is of this kind.
\<close>

definition off_child :: "world \<Rightarrow> world \<Rightarrow> bool" where
  "off_child w w' \<longleftrightarrow>
     later w w' \<and> same_child w w' \<and>
     restartPending w' = restartPending w \<and>
     restartAt w' = restartAt w \<and>
     crashTimestamps w' = crashTimestamps w \<and>
     proc_exit w' = proc_exit w \<and>
     rebootSuppressUntil w' = rebootSuppressUntil w \<and>
     failoverPromoteDeadline w' = failoverPromoteDeadline w \<and>
     maintenanceActive w' = maintenanceActive w \<and>
     maintenanceWasPrimary w' = maintenanceWasPrimary w \<and>
     shutdownInProgress w' = shutdownInProgress w \<and>
     switchoverInProgress w' = switchoverInProgress w \<and>
     backupInProgress w' = backupInProgress w"

lemma off_childD:
  assumes "off_child w w'"
  shows "later w w'" "same_child w w'"
    "restartPending w' = restartPending w"
    "restartAt w' = restartAt w"
    "crashTimestamps w' = crashTimestamps w"
    "proc_exit w' = proc_exit w"
    "rebootSuppressUntil w' = rebootSuppressUntil w"
    "failoverPromoteDeadline w' = failoverPromoteDeadline w"
    "maintenanceActive w' = maintenanceActive w"
    "maintenanceWasPrimary w' = maintenanceWasPrimary w"
    "shutdownInProgress w' = shutdownInProgress w"
    "switchoverInProgress w' = switchoverInProgress w"
    "backupInProgress w' = backupInProgress w"
    "currentChild w' = currentChild w" "postgresRunning w' = postgresRunning w"
    "sup_proc w' = sup_proc w" "next_pid w' = next_pid w"
  using assms unfolding off_child_def same_child_def by blast+

lemma off_child_refl [simp, intro]: "off_child w w"
  by (simp add: off_child_def)

lemma off_child_trans [trans]:
  assumes "off_child u v" and "off_child v w"
  shows "off_child u w"
  using later_trans [OF off_childD(1) [OF assms(1)] off_childD(1) [OF assms(2)]]
    same_child_trans [OF off_childD(2) [OF assms(1)] off_childD(2) [OF assms(2)]]
  by (simp add: off_child_def off_childD [OF assms(2)] off_childD [OF assms(1)])

lemma off_child_observed [intro]: "only_observed w w' \<Longrightarrow> off_child w w'"
  by (simp add: off_child_def only_observedD same_child_def)

lemma off_child_basic [simp, intro]:
  "off_child w (tick E w)" "off_child w (emit e w)" "off_child w (sleep E d w)"
  by (auto simp: off_child_def same_child_def)

lemma off_child_files [simp, intro]:
  "off_child w (w\<lparr>pgdata := d\<rparr>)" "off_child w (w\<lparr>met := c\<rparr>)" "off_child w (w\<lparr>disk := f\<rparr>)"
  by (auto simp: off_child_def same_child_def later_def)

lemma off_child_store [simp, intro]: "off_child w (store_at cfg path c w)"
  by (auto simp: store_at_def)

text \<open>Chains of such steps, by simplification.\<close>

lemma off_child_updates:
  "off_child w u \<Longrightarrow> off_child w (u\<lparr>pgdata := d\<rparr>)"
  "off_child w u \<Longrightarrow> off_child w (u\<lparr>met := c\<rparr>)"
  "off_child w u \<Longrightarrow> off_child w (u\<lparr>disk := f\<rparr>)"
  "off_child w u \<Longrightarrow> off_child w (tick E u)"
  "off_child w u \<Longrightarrow> off_child w (emit e u)"
  "off_child w u \<Longrightarrow> off_child w (sleep E d' u)"
  "off_child w u \<Longrightarrow> off_child w (store_at cfg path c' u)"
  using off_child_trans off_child_files off_child_basic off_child_store by blast+

section \<open>Running a tool\<close>

definition pgTool :: "config \<Rightarrow> string \<Rightarrow> string" where
  "pgTool cfg name = JoinPath [Dir (PostgresBin cfg), name @ Ext (PostgresBin cfg)]"

definition runLoggedCommand ::
  "env \<Rightarrow> string \<Rightarrow> string list \<Rightarrow> world \<Rightarrow> (pg_error + unit) \<times> world" where
  "runLoggedCommand E tool args w =
     (let w1 = tick E w
      in if \<not> spawn_ok E (calls w) then (Inl (Err ''starting command''), w1)
         else
           (let (code, d) = tool_reply E (calls w) tool args (pgdata w1);
                w2 = emit (EvTool tool args code) (w1\<lparr>pgdata := d\<rparr>)
            in if code \<noteq> 0 then (Inl (ErrCode ''exit status'' code), w2) else (Inr (), w2)))"

section \<open>Rewinding and cloning\<close>

definition rewind_args :: "config \<Rightarrow> string list" where
  "rewind_args cfg =
     [''--target-pgdata='' @ PGData cfg, ''--source-server='' @ rewindSource cfg, ''--progress'']"

definition runRewind :: "env \<Rightarrow> config \<Rightarrow> world \<Rightarrow> (pg_error + unit) \<times> world" where
  "runRewind E cfg w = runLoggedCommand E (pgTool cfg ''pg_rewind'') (rewind_args cfg) w"

definition refuseIfPostgresRunning :: "env \<Rightarrow> config \<Rightarrow> world \<Rightarrow> (pg_error + unit) \<times> world" where
  "refuseIfPostgresRunning E cfg w =
     (if dial_ok E (calls w)
      then (Inl (ErrCode ''refusing to wipe PGDATA: something is still listening'' (PGPort cfg)), tick E w)
      else (Inr (), tick E w))"

text \<open>Removing the entries of \<open>PGDATA\<close> one by one; a failure leaves some of them removed.\<close>

definition clear_pgdata :: "env \<Rightarrow> world \<Rightarrow> (pg_error + unit) \<times> world" where
  "clear_pgdata E w =
     (let w1 = tick E w; w2 = tick E w1; w3 = tick E w2
      in if \<not> io_ok E (calls w) then (Inl (Err ''creating PGDATA''), w1)
         else if \<not> io_ok E (calls w1) then (Inl (Err ''reading PGDATA to clear it''), w2)
         else if io_ok E (calls w2)
              then (Inr (), emit EvWipe (w3\<lparr>pgdata := (\<lambda>_. None)\<rparr>))
         else (Inl (Err ''clearing PGDATA''),
               emit EvWipe (w3\<lparr>pgdata :=
                 (\<lambda>name. if removed E (calls w2) name then None else pgdata w3 name)\<rparr>)))"

definition basebackup_args :: "config \<Rightarrow> string list" where
  "basebackup_args cfg =
     [''-h'', PeerHost cfg, ''-p'', Itoa (PGPort cfg), ''-U'', ReplUser cfg,
      ''-D'', PGData cfg, ''-P'', ''-R'', ''-X'', ''stream'']"

definition runBasebackup :: "env \<Rightarrow> config \<Rightarrow> world \<Rightarrow> (pg_error + unit) \<times> world" where
  "runBasebackup E cfg w =
     (case refuseIfPostgresRunning E cfg w of
        (Inl e, w1) \<Rightarrow> (Inl e, w1)
      | (Inr _, w1) \<Rightarrow>
          (case clear_pgdata E w1 of
             (Inl e, w2) \<Rightarrow> (Inl e, w2)
           | (Inr _, w2) \<Rightarrow>
               runLoggedCommand E (pgTool cfg ''pg_basebackup'') (basebackup_args cfg) w2))"

definition write_signal :: "env \<Rightarrow> world \<Rightarrow> bool \<times> world" where
  "write_signal E w =
     (let w1 = tick E w
      in if io_ok E (calls w) then (True, w1\<lparr>pgdata := (pgdata w1)(''standby.signal'' \<mapsto> [])\<rparr>)
         else (False, if torn E (calls w) = None then w1
                      else w1\<lparr>pgdata := (pgdata w1)(''standby.signal'' \<mapsto> [])\<rparr>))"

definition primary_conninfo_text :: "config \<Rightarrow> string" where
  "primary_conninfo_text cfg =
     [newline] @ ''primary_conninfo = '' @ dsnQuote (standbyConnInfo cfg) @ [newline]"

definition configureAsStandby :: "env \<Rightarrow> config \<Rightarrow> world \<Rightarrow> (pg_error + unit) \<times> world" where
  "configureAsStandby E cfg w =
     (case write_signal E w of
        (False, w1) \<Rightarrow> (Inl (Err ''creating standby.signal''), w1)
      | (True, w1) \<Rightarrow>
          (case append_pgdata E ''postgresql.auto.conf'' (primary_conninfo_text cfg) w1 of
             (False, w2) \<Rightarrow> (Inl (Err ''writing primary_conninfo''), w2)
           | (True, w2) \<Rightarrow> (Inr (), w2)))"

definition record_rejoin :: "gotime \<Rightarrow> world \<Rightarrow> world" where
  "record_rejoin began w =
     w\<lparr>met := (met w)\<lparr>lastRejoinDuration := now w - began,
                     rejoinsCounter := rejoinsCounter (met w) + 1\<rparr>\<rparr>"

definition rejoinAsStandby :: "env \<Rightarrow> config \<Rightarrow> world \<Rightarrow> (pg_error + unit) \<times> world" where
  "rejoinAsStandby E cfg w =
     (case runRewind E cfg w of
        (Inl _, w1) \<Rightarrow>
          (case runBasebackup E cfg w1 of
             (Inl e, w2) \<Rightarrow> (Inl (Wrap ''pg_basebackup fallback also failed'' e), w2)
           | (Inr _, w2) \<Rightarrow> (Inr (), record_rejoin (now w) w2))
      | (Inr _, w1) \<Rightarrow>
          (case configureAsStandby E cfg w1 of
             (Inl e, w2) \<Rightarrow> (Inl (Wrap ''configuring standby after pg_rewind'' e), w2)
           | (Inr _, w2) \<Rightarrow> (Inr (), record_rejoin (now w) w2)))"

section \<open>Frames\<close>

lemma off_child_tools [simp, intro]:
  "off_child w (snd (runLoggedCommand E tool args w))"
  "off_child w (snd (runRewind E cfg w))"
  "off_child w (snd (refuseIfPostgresRunning E cfg w))"
  "off_child w (snd (clear_pgdata E w))"
  "off_child w (snd (write_signal E w))"
  "off_child w (snd (append_pgdata E name content w))"
  "off_child w (record_rejoin t w)"
  by (auto simp: runLoggedCommand_def runRewind_def refuseIfPostgresRunning_def clear_pgdata_def
      write_signal_def append_pgdata_def record_rejoin_def Let_def
      intro!: off_child_updates split: prod.splits option.splits)

lemma off_child_snd: "f = (r, w') \<Longrightarrow> off_child w (snd f) \<Longrightarrow> off_child w w'"
  by simp

lemma off_child_runBasebackup [simp, intro]: "off_child w (snd (runBasebackup E cfg w))"
proof -
  obtain r w1 where a: "refuseIfPostgresRunning E cfg w = (r, w1)" by (rule prod.exhaust)
  obtain s w2 where b: "clear_pgdata E w1 = (s, w2)" by (rule prod.exhaust)
  have 1: "off_child w w1" using off_child_tools(3) [of w E cfg] a by simp
  have 2: "off_child w w2" using off_child_trans [OF 1] off_child_tools(4) [of w1 E] b by simp
  have 3: "off_child w (snd (runLoggedCommand E t args w2))" for t args
    using off_child_trans [OF 2] by simp
  show ?thesis using 1 2 3 by (auto simp: runBasebackup_def a b split: sum.splits)
qed

lemma off_child_configureAsStandby [simp, intro]: "off_child w (snd (configureAsStandby E cfg w))"
proof -
  obtain r w1 where a: "write_signal E w = (r, w1)" by (rule prod.exhaust)
  have 1: "off_child w w1" using off_child_tools(5) [of w E] a by simp
  have 2: "off_child w (snd (append_pgdata E name content w1))" for name content
    using off_child_trans [OF 1] by simp
  show ?thesis
    using 1 off_child_snd [OF _ 2] by (auto simp: configureAsStandby_def a split: bool.splits prod.splits)
qed

lemma off_child_rejoinAsStandby [simp, intro]: "off_child w (snd (rejoinAsStandby E cfg w))"
proof -
  obtain r w1 where a: "runRewind E cfg w = (r, w1)" by (rule prod.exhaust)
  obtain s w2 where b: "runBasebackup E cfg w1 = (s, w2)" by (rule prod.exhaust)
  obtain t w3 where c: "configureAsStandby E cfg w1 = (t, w3)" by (rule prod.exhaust)
  have 1: "off_child w w1" using off_child_tools(2) [of w E cfg] a by simp
  have 2: "off_child w w2" using off_child_trans [OF 1] off_child_runBasebackup [of w1 E cfg] b by simp
  have 3: "off_child w w3" using off_child_trans [OF 1] off_child_configureAsStandby [of w1 E cfg] c by simp
  have r: "off_child w (record_rejoin x u)" if "off_child w u" for x u
    using off_child_trans [OF that] by simp
  show ?thesis using 2 3 r by (auto simp: rejoinAsStandby_def a b c split: sum.splits)
qed

section \<open>Properties\<close>

text \<open>
  What the documentation of \<open>pg_basebackup -R\<close> promises: a clone that succeeds has written
  \<open>standby.signal\<close>.
\<close>

definition clone_is_standby :: "env \<Rightarrow> bool" where
  "clone_is_standby E \<longleftrightarrow>
     (\<forall>k tool args d d'. ''-R'' \<in> set args \<longrightarrow> tool_reply E k tool args d = (0, d') \<longrightarrow>
        d' ''standby.signal'' \<noteq> None)"

lemma runBasebackup_ok:
  assumes "runBasebackup E cfg w = (Inr (), w')"
  shows "\<exists>k d d'. tool_reply E k (pgTool cfg ''pg_basebackup'') (basebackup_args cfg) d = (0, d') \<and>
    pgdata w' = d' \<and> \<not> dial_ok E (calls w)"
  using assms
  by (auto simp: runBasebackup_def refuseIfPostgresRunning_def runLoggedCommand_def Let_def
      split: sum.splits prod.splits if_splits) blast

lemma met_tools [simp]:
  "met (snd (runLoggedCommand E tool args w)) = met w"
  "met (snd (refuseIfPostgresRunning E cfg w)) = met w"
  "met (snd (clear_pgdata E w)) = met w"
  "met (snd (write_signal E w)) = met w"
  "met (snd (append_pgdata E name content w)) = met w"
  by (auto simp: runLoggedCommand_def refuseIfPostgresRunning_def clear_pgdata_def
      write_signal_def append_pgdata_def Let_def split: prod.splits option.splits)

lemma met_runRewind [simp]: "met (snd (runRewind E cfg w)) = met w"
  by (simp add: runRewind_def)

lemma met_runBasebackup [simp]: "met (snd (runBasebackup E cfg w)) = met w"
proof -
  obtain r w1 where a: "refuseIfPostgresRunning E cfg w = (r, w1)" by (rule prod.exhaust)
  obtain s w2 where b: "clear_pgdata E w1 = (s, w2)" by (rule prod.exhaust)
  show ?thesis using met_tools(2) [of E cfg w] met_tools(3) [of E w1] a b
    by (auto simp: runBasebackup_def split: sum.splits)
qed

lemma met_configureAsStandby [simp]: "met (snd (configureAsStandby E cfg w)) = met w"
proof -
  obtain r w1 where a: "write_signal E w = (r, w1)" by (rule prod.exhaust)
  obtain s w2 where b: "append_pgdata E ''postgresql.auto.conf'' (primary_conninfo_text cfg) w1 = (s, w2)"
    by (rule prod.exhaust)
  show ?thesis
    using met_tools(4) [of E w] met_tools(5) [of E "''postgresql.auto.conf''" "primary_conninfo_text cfg" w1] a b
    by (auto simp: configureAsStandby_def split: bool.splits)
qed

lemma met_results:
  "runRewind E cfg w = (r, w') \<Longrightarrow> met w' = met w"
  "runBasebackup E cfg w = (r, w') \<Longrightarrow> met w' = met w"
  "configureAsStandby E cfg w = (r, w') \<Longrightarrow> met w' = met w"
  by (metis met_runRewind snd_conv, metis met_runBasebackup snd_conv,
      metis met_configureAsStandby snd_conv)

lemma configureAsStandby_ok:
  assumes "configureAsStandby E cfg w = (Inr (), w')"
  shows "pgdata w' ''standby.signal'' = Some []" and
    "pgdata w' ''postgresql.auto.conf'' = Some
       ((case pgdata w ''postgresql.auto.conf'' of None \<Rightarrow> [] | Some c \<Rightarrow> c) @ primary_conninfo_text cfg)"
  using assms
  by (auto simp: configureAsStandby_def write_signal_def append_pgdata_def Let_def
      split: prod.splits bool.splits if_splits)

lemma rejoinAsStandby_cases:
  assumes "rejoinAsStandby E cfg w = (Inr (), w')"
  obtains (rewound) w1 w2 where "runRewind E cfg w = (Inr (), w1)"
      "configureAsStandby E cfg w1 = (Inr (), w2)" "w' = record_rejoin (now w) w2"
    | (cloned) e w1 w2 where "runRewind E cfg w = (Inl e, w1)"
      "runBasebackup E cfg w1 = (Inr (), w2)" "w' = record_rejoin (now w) w2"
  using assms by (auto simp: rejoinAsStandby_def split: sum.splits prod.splits)

lemma rejoinAsStandby_failed:
  assumes "rejoinAsStandby E cfg w = (Inl e, w')"
  shows "met w' = met w"
  using assms
  by (auto simp: rejoinAsStandby_def split: sum.splits prod.splits) (metis met_results)+

lemma rejoin_writes_signal:
  assumes "rejoinAsStandby E cfg w = (Inr (), w')" and "clone_is_standby E"
  shows "pgdata w' ''standby.signal'' \<noteq> None"
  using assms(1)
proof (cases rule: rejoinAsStandby_cases)
  case (rewound w1 w2)
  from configureAsStandby_ok(1) [OF rewound(2)] rewound(3) show ?thesis
    by (simp add: record_rejoin_def)
next
  case (cloned e w1 w2)
  from runBasebackup_ok [OF cloned(2)] assms(2) have "pgdata w2 ''standby.signal'' \<noteq> None"
    unfolding clone_is_standby_def by (metis basebackup_args_def list.set_intros(1,2))
  with cloned(3) show ?thesis by (simp add: record_rejoin_def)
qed

text \<open>
  C8. A rejoin that succeeds leaves a data directory that starts as a standby, by either path,
  and counts exactly one rejoin with its duration; one that fails counts none. The supervised
  child is not touched.
\<close>

theorem rejoin_makes_standby:
  assumes "rejoinAsStandby E cfg w = (r, w')" and "clone_is_standby E"
  shows "(case r of
      Inl _ \<Rightarrow> met w' = met w
    | Inr _ \<Rightarrow> pgdata w' ''standby.signal'' \<noteq> None \<and>
        rejoinsCounter (met w') = rejoinsCounter (met w) + 1 \<and>
        0 \<le> lastRejoinDuration (met w') \<and> lastRejoinDuration (met w') \<le> now w' - now w) \<and>
    off_child w w'"
proof -
  have off: "off_child w w'" using off_child_rejoinAsStandby [of w E cfg] assms(1) by simp
  show ?thesis
  proof (cases r)
    case (Inl e)
    with rejoinAsStandby_failed [of E cfg w e w'] assms(1) off show ?thesis by simp
  next
    case (Inr u)
    then have ok: "rejoinAsStandby E cfg w = (Inr (), w')" using assms(1) by simp
    from ok have "rejoinsCounter (met w') = rejoinsCounter (met w) + 1 \<and>
        lastRejoinDuration (met w') = now w' - now w"
    proof (cases rule: rejoinAsStandby_cases)
      case (rewound w1 w2)
      with met_runRewind [of E cfg w] met_configureAsStandby [of E cfg w1] show ?thesis
        by (simp add: record_rejoin_def)
    next
      case (cloned e w1 w2)
      with met_runRewind [of E cfg w] met_runBasebackup [of E cfg w1] show ?thesis
        by (simp add: record_rejoin_def)
    qed
    moreover have "now w \<le> now w'" using later_now [OF off_childD(1) [OF off]] .
    ultimately show ?thesis using rejoin_writes_signal [OF ok assms(2)] off Inr by simp
  qed
qed

text \<open>An environment whose tools work: a clone leaves a standby's files.\<close>

definition cloning :: env where
  "cloning = calm\<lparr>tool_reply := (\<lambda>k tool args d.
     if ''-R'' \<in> set args then (0, [''PG_VERSION'' \<mapsto> ''18'', ''standby.signal'' \<mapsto> []])
     else if ''--progress'' \<in> set args then (1, d) else (0, d(''PG_VERSION'' \<mapsto> ''18'')))\<rparr>"

lemma cloning_is_standby: "clone_is_standby cloning"
  by (simp add: clone_is_standby_def cloning_def)

lemmas rejoin_eval_defs [evals] =
  runLoggedCommand_def runRewind_def rewind_args_def refuseIfPostgresRunning_def clear_pgdata_def
  basebackup_args_def runBasebackup_def write_signal_def configureAsStandby_def record_rejoin_def
  rejoinAsStandby_def append_pgdata_def cloning_def

theorem rejoin_makes_standby_witness:
  "fst (rejoinAsStandby cloning demo_config (init_world 0 [''PG_VERSION'' \<mapsto> ''18''])) = Inr () \<and>
   rejoinsCounter (met (snd (rejoinAsStandby cloning demo_config
     (init_world 0 [''PG_VERSION'' \<mapsto> ''18''])))) = 1"
  using rejoin_makes_standby [of cloning demo_config "init_world 0 [''PG_VERSION'' \<mapsto> ''18'']",
      OF prod.collapse [symmetric] cloning_is_standby]
  by (simp add: evals)

text \<open>
  C9. A data directory is wiped for a new clone only after nothing answered on the local
  PostgreSQL port; when something does, not one file changes and the clone is refused.
\<close>

theorem clone_never_wipes_live_data:
  assumes "runBasebackup E cfg w = (r, w')"
  shows "if dial_ok E (calls w)
    then pgdata w' = pgdata w \<and> trace w' = trace w \<and> \<not> is_ok r
    else \<exists>es. trace w' = trace w @ es \<and> (\<forall>e \<in> set es. e = EvWipe \<or> (\<exists>t a c. e = EvTool t a c))"
  using assms
  by (auto simp: runBasebackup_def refuseIfPostgresRunning_def clear_pgdata_def runLoggedCommand_def
      Let_def split: sum.splits prod.splits if_splits)

theorem clone_never_wipes_live_data_witness:
  "pgdata (snd (runBasebackup (cloning\<lparr>dial_ok := (\<lambda>_. True)\<rparr>) demo_config
     (running_world 0 [''PG_VERSION'' \<mapsto> ''18'']))) ''PG_VERSION'' = Some ''18''"
  using clone_never_wipes_live_data [of "cloning\<lparr>dial_ok := (\<lambda>_. True)\<rparr>" demo_config
      "running_world 0 [''PG_VERSION'' \<mapsto> ''18'']", OF prod.collapse [symmetric]]
  by (simp add: running_world_def init_world_def)

end
