(* ===== verification/Polling.thy ===== *)
theory Polling
  imports World
begin

text \<open>
  The waiting loops of the program have one shape: a turn looks at the peer or the server and
  either is done, with a result, or has slept and lets the loop go round again; a deadline
  bounds the number of turns. The locale states that shape; its induction rule is what the
  lemmas on every such loop use.
\<close>

locale poll_loop =
  fixes turn :: "world \<Rightarrow> ('r \<times> world) + world"
    and run :: "world \<Rightarrow> 'r \<times> world"
    and bound :: "world \<Rightarrow> nat"
  assumes run_unfold: "run w = (case turn w of Inl res \<Rightarrow> res | Inr w' \<Rightarrow> run w')"
    and turn_progress: "turn w = Inr w' \<Longrightarrow> bound w' < bound w"
begin

lemma run_induct:
  assumes "\<And>w res. turn w = Inl res \<Longrightarrow> P w res"
    and "\<And>w w'. turn w = Inr w' \<Longrightarrow> P w' (run w') \<Longrightarrow> P w (run w')"
  shows "P w (run w)"
proof (induction "bound w" arbitrary: w rule: less_induct)
  case less
  show ?case
  proof (cases "turn w")
    case (Inl res)
    with assms(1) run_unfold [of w] show ?thesis by simp
  next
    case (Inr w')
    have "P w' (run w')" using less turn_progress [OF Inr] by blast
    with assms(2) [OF Inr] run_unfold [of w] Inr show ?thesis by simp
  qed
qed

text \<open>A reflexive and transitive relation kept by every turn is kept by the loop.\<close>

lemma run_keeps:
  assumes "\<And>w r w'. turn w = Inl (r, w') \<Longrightarrow> R w w'"
    and "\<And>w w'. turn w = Inr w' \<Longrightarrow> R w w'"
    and "\<And>u v w. R u v \<Longrightarrow> R v w \<Longrightarrow> R u w"
  shows "R w (snd (run w))"
  by (rule run_induct [where P = "\<lambda>w res. R w (snd res)"])
     (use assms in \<open>(fastforce, blast)\<close>)

text \<open>The loop ends in a turn that is done, reached from the start by turns that go on.\<close>

lemma run_last_turn:
  "\<exists>u. (\<lambda>v v'. turn v = Inr v')\<^sup>*\<^sup>* w u \<and> turn u = Inl (run w)"
proof (rule run_induct [where P = "\<lambda>w res. \<exists>u. (\<lambda>v v'. turn v = Inr v')\<^sup>*\<^sup>* w u \<and> turn u = Inl res"])
  fix w res
  assume "turn w = Inl res"
  then show "\<exists>u. (\<lambda>v v'. turn v = Inr v')\<^sup>*\<^sup>* w u \<and> turn u = Inl res" by blast
next
  fix w w'
  assume "turn w = Inr w'" and "\<exists>u. (\<lambda>v v'. turn v = Inr v')\<^sup>*\<^sup>* w' u \<and> turn u = Inl (run w')"
  then show "\<exists>u. (\<lambda>v v'. turn v = Inr v')\<^sup>*\<^sup>* w u \<and> turn u = Inl (run w')"
    by (meson converse_rtranclp_into_rtranclp)
qed

text \<open>No more turns than the bound at the start.\<close>

lemma turns_bounded:
  "((\<lambda>v v'. turn v = Inr v') ^^ n) w u \<Longrightarrow> n + bound u \<le> bound w"
proof (induction n arbitrary: u)
  case 0
  then show ?case by simp
next
  case (Suc n)
  then obtain v where "((\<lambda>v v'. turn v = Inr v') ^^ n) w v" "turn v = Inr u" by auto
  with Suc.IH [of v] turn_progress [of v u] show ?case by simp
qed

end

text \<open>
  The bound all of them use: the time left until the deadline, one more where the deadline
  itself still counts.
\<close>

definition time_left :: "gotime \<Rightarrow> world \<Rightarrow> nat" where
  "time_left deadline w = nat (deadline + 1 - now w)"

lemma time_left_sleep:
  assumes "now w \<le> now v" and "now v \<le> deadline" and "0 < d"
  shows "time_left deadline (sleep E d v) < time_left deadline w"
  using assms sleep_advances [of v d E] by (simp add: time_left_def)

end
