(* ===== verification/Bootstrap.thy ===== *)
theory Bootstrap
  imports Rejoin Polling
begin

text \<open>
  \<open>src/src/bootstrap.go\<close>: the first-run decision between \<open>initdb\<close> and a clone, its waiting
  loops, and the creation of the replication role and the database once the server runs.
\<close>

section \<open>Initialising as primary\<close>

definition needsBootstrap :: "env \<Rightarrow> world \<Rightarrow> bool \<times> world" where
  "needsBootstrap E w =
     (\<not> io_ok E (calls w) \<or> pgdata w ''PG_VERSION'' = None, tick E w)"

text \<open>The password file for \<open>initdb\<close>: its directory, its creation, its content may each fail.\<close>

definition stage_password :: "env \<Rightarrow> config \<Rightarrow> world \<Rightarrow> (pg_error + string) \<times> world" where
  "stage_password E cfg w =
     (let w1 = tick E w; w2 = tick E w1; w3 = tick E w2; name = temp_name E (calls w1)
      in if PostgresPassword cfg = [] then (Inr [], w)
         else if \<not> io_ok E (calls w) then (Inl (Err ''staging initdb password file''), w1)
         else if \<not> io_ok E (calls w1) then (Inl (Err ''creating initdb password file''), w2)
         else if \<not> io_ok E (calls w2) then
           (Inl (Err ''writing initdb password file''), w3\<lparr>disk := (disk w3)(name := None)\<rparr>)
         else (Inr name, w3\<lparr>disk := write_file name (PostgresPassword cfg) 384 (disk w3)\<rparr>))"

definition unstage_password :: "env \<Rightarrow> string \<Rightarrow> world \<Rightarrow> world" where
  "unstage_password E pwfile w =
     (if pwfile = [] then w
      else (let w1 = tick E w
            in if io_ok E (calls w) then w1\<lparr>disk := (disk w1)(pwfile := None)\<rparr> else w1))"

definition initdb_args :: "config \<Rightarrow> string \<Rightarrow> string list" where
  "initdb_args cfg pwfile =
     [''-D'', PGData cfg, ''-U'', PostgresUser cfg, ''-E'', ''UTF8'', ''--auth-local=trust'',
      ''--auth-host='' @ hba_auth cfg] @ (if pwfile = [] then [] else [''--pwfile='' @ pwfile])"

definition initdb_and_configure :: "env \<Rightarrow> config \<Rightarrow> string \<Rightarrow> world \<Rightarrow> (pg_error + unit) \<times> world" where
  "initdb_and_configure E cfg pwfile w =
     (case runLoggedCommand E (pgTool cfg ''initdb'') (initdb_args cfg pwfile) w of
        (Inl e, w1) \<Rightarrow> (Inl (Wrap ''initdb failed'' e), w1)
      | (Inr _, w1) \<Rightarrow>
          (case writeBootstrapHBA E cfg (hba_auth cfg) w1 of
             (False, w2) \<Rightarrow> (Inl (Err ''configuring pg_hba.conf''), w2)
           | (True, w2) \<Rightarrow>
               (case writeBootstrapPostgresConf E w2 of
                  (False, w3) \<Rightarrow> (Inl (Err ''configuring postgresql.conf''), w3)
                | (True, w3) \<Rightarrow> (Inr (), w3))))"

definition bootstrapAsPrimary :: "env \<Rightarrow> config \<Rightarrow> world \<Rightarrow> (pg_error + unit) \<times> world" where
  "bootstrapAsPrimary E cfg w =
     (case stage_password E cfg w of
        (Inl e, w1) \<Rightarrow> (Inl e, w1)
      | (Inr pwfile, w1) \<Rightarrow>
          (let (r, w2) = initdb_and_configure E cfg pwfile w1
           in (r, unstage_password E pwfile w2)))"

section \<open>Waiting for a primary peer\<close>

text \<open>One turn of \<open>bootstrapAsStandbyWithRetry\<close>.\<close>

definition standby_turn ::
  "env \<Rightarrow> config \<Rightarrow> gotime \<Rightarrow> world \<Rightarrow> ((pg_error + unit) \<times> world) + world" where
  "standby_turn E cfg deadline w =
     (let (st, w1) = fetchPeerStatus E cfg w
      in if st \<noteq> Inr ''primary'' then
           (if now w1 > deadline then Inl (Inl (Err ''peer never became primary within 120s''), w1)
            else Inr (sleep E bootstrapRetryInterval w1))
         else
           (case runBasebackup E cfg w1 of
              (Inl e, w2) \<Rightarrow>
                (if now w2 > deadline then Inl (Inl (Wrap ''cloning from peer'' e), w2)
                 else Inr (sleep E bootstrapRetryInterval w2))
            | (Inr _, w2) \<Rightarrow> Inl (Inr (), w2)))"

lemma now_observed: "now w \<le> now (snd (fetchPeerStatus E cfg w))"
  by (rule later_now) (rule later_peer)

lemma now_off_child: "off_child w w' \<Longrightarrow> now w \<le> now w'"
  using later_now off_childD(1) by blast

lemma standby_turn_progress:
  assumes "standby_turn E cfg deadline w = Inr w'"
  shows "time_left deadline w' < time_left deadline w"
proof -
  obtain st w1 where f: "fetchPeerStatus E cfg w = (st, w1)" by (rule prod.exhaust)
  obtain r w2 where b: "runBasebackup E cfg w1 = (r, w2)" by (rule prod.exhaust)
  have n1: "now w \<le> now w1" using now_observed [of w E cfg] f by simp
  have n2: "now w \<le> now w2"
    using n1 now_off_child [OF off_child_runBasebackup [of w1 E cfg]] b by simp
  from assms consider "now w1 \<le> deadline" "w' = sleep E bootstrapRetryInterval w1"
    | "now w2 \<le> deadline" "w' = sleep E bootstrapRetryInterval w2"
    by (auto simp: standby_turn_def f b split: if_splits sum.splits)
  then show ?thesis
    by cases (use n1 n2 time_left_sleep [of w _ deadline bootstrapRetryInterval E] in simp_all)
qed

function standby_retry :: "env \<Rightarrow> config \<Rightarrow> gotime \<Rightarrow> world \<Rightarrow> (pg_error + unit) \<times> world" where
  "standby_retry E cfg deadline w =
     (case standby_turn E cfg deadline w of
        Inl res \<Rightarrow> res | Inr w' \<Rightarrow> standby_retry E cfg deadline w')"
  by pat_completeness auto
termination
  by (relation "measure (\<lambda>(E, cfg, deadline, w). time_left deadline w)")
     (auto dest: standby_turn_progress)

declare standby_retry.simps [simp del]

definition bootstrapAsStandbyWithRetry :: "env \<Rightarrow> config \<Rightarrow> world \<Rightarrow> (pg_error + unit) \<times> world" where
  "bootstrapAsStandbyWithRetry E cfg w =
     standby_retry E cfg (now w + bootstrapStandbyTiebreakTimeout) w"

text \<open>The tiebreak loop of \<open>runBootstrap\<close>: does the peer report itself primary before the deadline?\<close>

definition tiebreak_turn :: "env \<Rightarrow> config \<Rightarrow> gotime \<Rightarrow> world \<Rightarrow> (bool \<times> world) + world" where
  "tiebreak_turn E cfg deadline w =
     (let (st, w1) = fetchPeerStatus E cfg w
      in if st = Inr ''primary'' then Inl (True, w1)
         else if now w1 > deadline then Inl (False, w1)
         else Inr (sleep E bootstrapPollInterval w1))"

lemma tiebreak_turn_progress:
  assumes "tiebreak_turn E cfg deadline w = Inr w'"
  shows "time_left deadline w' < time_left deadline w"
proof -
  obtain st w1 where f: "fetchPeerStatus E cfg w = (st, w1)" by (rule prod.exhaust)
  have "now w \<le> now w1" using now_observed [of w E cfg] f by simp
  with assms show ?thesis
    using time_left_sleep [of w w1 deadline bootstrapPollInterval E]
    by (auto simp: tiebreak_turn_def f split: if_splits)
qed

function tiebreak :: "env \<Rightarrow> config \<Rightarrow> gotime \<Rightarrow> world \<Rightarrow> bool \<times> world" where
  "tiebreak E cfg deadline w =
     (case tiebreak_turn E cfg deadline w of
        Inl res \<Rightarrow> res | Inr w' \<Rightarrow> tiebreak E cfg deadline w')"
  by pat_completeness auto
termination
  by (relation "measure (\<lambda>(E, cfg, deadline, w). time_left deadline w)")
     (auto dest: tiebreak_turn_progress)

declare tiebreak.simps [simp del]

section \<open>The decision\<close>

definition is_ordinal_zero :: "env \<Rightarrow> config \<Rightarrow> world \<Rightarrow> bool" where
  "is_ordinal_zero E cfg w \<longleftrightarrow>
     PeerHost cfg = [] \<or>
     (case host_name E (calls w) of None \<Rightarrow> True | Some h \<Rightarrow> \<not> HasSuffix h ''-1'')"

definition runBootstrap :: "env \<Rightarrow> config \<Rightarrow> world \<Rightarrow> (pg_error + unit) \<times> world" where
  "runBootstrap E cfg w =
     (if BootstrapRole cfg = ''primary'' then bootstrapAsPrimary E cfg w
      else if BootstrapRole cfg = ''standby'' then runBasebackup E cfg w
      else
        (let w1 = tick E w
         in if \<not> is_ordinal_zero E cfg w then bootstrapAsStandbyWithRetry E cfg w1
            else if PeerHost cfg = [] then bootstrapAsPrimary E cfg w1
            else
              (let (primary, w2) = tiebreak E cfg (now w1 + bootstrapPrimaryTiebreakTimeout) w1
               in if primary then bootstrapAsStandbyWithRetry E cfg w2
                  else bootstrapAsPrimary E cfg w2)))"

section \<open>Role and database\<close>

definition ensure_role :: "env \<Rightarrow> config \<Rightarrow> world \<Rightarrow> world" where
  "ensure_role E cfg w =
     (if ReplUser cfg = PostgresUser cfg then w
      else (case query_flag E ''checking role'' w of
              (Inr False, w1) \<Rightarrow> snd (exec_sql E (createRoleSQL cfg) w1)
            | (_, w1) \<Rightarrow> w1))"

definition ensure_database :: "env \<Rightarrow> config \<Rightarrow> world \<Rightarrow> world" where
  "ensure_database E cfg w =
     (if PostgresDB cfg = [] \<or> PostgresDB cfg = ''postgres'' then w
      else (case query_flag E ''checking database'' w of
              (Inr False, w1) \<Rightarrow> snd (exec_sql E (createDatabaseSQL cfg) w1)
            | (_, w1) \<Rightarrow> w1))"

definition ensureRoleAndDatabase :: "env \<Rightarrow> config \<Rightarrow> world \<Rightarrow> (pg_error + unit) \<times> world" where
  "ensureRoleAndDatabase E cfg w =
     (let w1 = tick E w
      in if \<not> connect_ok E (calls w) then (Inl (Err ''connecting to maintenance database''), w1)
         else
           (case query_flag E ''querying pg_is_in_recovery'' w1 of
              (Inl e, w2) \<Rightarrow> (Inl e, w2)
            | (Inr True, w2) \<Rightarrow> (Inr (), w2)
            | (Inr False, w2) \<Rightarrow>
                (let w3 = snd (ensureReplicationHBA E cfg w2);
                     w4 = ensure_role E cfg w3;
                     w5 = ensure_database E cfg w4
                 in (Inr (), snd (exec_sql E ''CHECKPOINT'' w5)))))"

definition ensure_turn :: "env \<Rightarrow> config \<Rightarrow> gotime \<Rightarrow> world \<Rightarrow> (unit \<times> world) + world" where
  "ensure_turn E cfg deadline w =
     (if \<not> now w < deadline then Inl ((), w)
      else (case ensureRoleAndDatabase E cfg w of
              (Inr _, w1) \<Rightarrow> Inl ((), w1)
            | (Inl _, w1) \<Rightarrow> Inr (sleep E bootstrapRetryInterval w1)))"

section \<open>Frames\<close>

text \<open>
  The upkeep of the server (its grants, role and database) is made of a few primitives; a
  relation between worlds that is kept by each of them is kept by all of it.
\<close>

locale upkeep_frame =
  fixes R :: "world \<Rightarrow> world \<Rightarrow> bool"
  assumes R_refl: "R w w"
    and R_trans: "R u v \<Longrightarrow> R v w \<Longrightarrow> R u w"
    and R_tick: "R w (tick E w)"
    and R_sleep: "R w (sleep E d w)"
    and R_sql: "R w (emit (EvSQL sql) w)"
    and R_store: "R w (store_at cfg path content w)"
begin

lemma R_snd: "f = (r, w') \<Longrightarrow> R w (snd f) \<Longrightarrow> R w w'"
  by simp

lemma queries:
  "R w (snd (exec_sql E sql w))" "R w (snd (query_flag E what w))" "R w (snd (query_hba_file E w))"
  "R w (snd (read_op E cfg path w))" "R w (snd (write_op E cfg path content w))"
  using R_trans [OF R_sql R_tick] R_trans [OF R_tick R_sql] R_trans [OF R_tick R_store] R_tick
  by (auto simp: exec_sql_def query_flag_def query_hba_file_def read_op_def write_op_def Let_def
      split: option.splits)

lemma hbaUpsertLine: "R w (snd (hbaUpsertLine E cfg path pre d w))"
proof -
  obtain r w1 where a: "read_op E cfg path w = (r, w1)" by (rule prod.exhaust)
  have 1: "R w w1" using queries(4) [of w E cfg path] a by simp
  have 2: "R w (snd (write_op E cfg path content w1))" for content
    using R_trans [OF 1 queries(5)] .
  show ?thesis
    using 1 R_snd [OF _ 2]
    by (auto simp: hbaUpsertLine_def a Let_def split: option.splits prod.splits)
qed

lemma upsert_and_reload: "R w (snd (upsert_and_reload E cfg path pre d w))"
proof -
  obtain r w1 where a: "hbaUpsertLine E cfg path pre d w = (r, w1)" by (rule prod.exhaust)
  have 1: "R w w1" using hbaUpsertLine [of w E cfg path pre d] a by simp
  have "R w (snd (exec_sql E sql w1))" for sql using R_trans [OF 1 queries(1)] .
  with 1 show ?thesis
    by (simp add: upsert_and_reload_def a Let_def split_beta split: sum.splits bool.splits)
qed

lemma ensureReplicationHBA: "R w (snd (ensureReplicationHBA E cfg w))"
proof -
  obtain r w1 where a: "query_hba_file E (tick E w) = (r, w1)" by (rule prod.exhaust)
  have 1: "R w w1"
    using R_trans [OF R_tick queries(3) [of "tick E w" E]] a by simp
  have "R w (snd (upsert_and_reload E cfg path pre d w1))" for path pre d
    using R_trans [OF 1 upsert_and_reload] .
  with 1 R_tick R_refl show ?thesis
    by (auto simp: ensureReplicationHBA_def a Let_def split: option.splits list.splits sum.splits)
qed

lemma ensure_parts: "R w (ensure_role E cfg w)" "R w (ensure_database E cfg w)"
proof -
  have flag: "R w (case query_flag E what w of
      (Inr False, v) \<Rightarrow> snd (exec_sql E sql v) | (_, v) \<Rightarrow> v)" for what sql
  proof -
    obtain r v where q: "query_flag E what w = (r, v)" by (rule prod.exhaust)
    have 1: "R w v" using queries(2) [of w E what] q by simp
    have 2: "R w (snd (exec_sql E sql v))" using R_trans [OF 1 queries(1)] .
    from 1 2 show ?thesis by (simp add: q split: sum.splits bool.splits)
  qed
  from flag show "R w (ensure_role E cfg w)" by (simp add: ensure_role_def R_refl)
  from flag show "R w (ensure_database E cfg w)" by (simp add: ensure_database_def R_refl)
qed

lemma ensureRoleAndDatabase: "R w (snd (ensureRoleAndDatabase E cfg w))"
proof -
  obtain r w1 where a: "query_flag E ''querying pg_is_in_recovery'' (tick E w) = (r, w1)"
    by (rule prod.exhaust)
  have 1: "R w w1"
    using R_trans [OF R_tick queries(2) [of "tick E w" E "''querying pg_is_in_recovery''"]] a by simp
  have 2: "R w1 (snd (exec_sql E ''CHECKPOINT''
      (ensure_database E cfg (ensure_role E cfg (snd (ensureReplicationHBA E cfg w1))))))"
    by (rule R_trans [OF R_trans [OF R_trans [OF ensureReplicationHBA ensure_parts(1)] ensure_parts(2)]
          queries(1)])
  note 3 = R_trans [OF 1 2]
  show ?thesis
    using 1 3 R_tick
    by (simp add: ensureRoleAndDatabase_def a Let_def split: sum.splits bool.splits)
qed

lemma ensure_turn:
  "ensure_turn E cfg deadline w = Inl (r, w') \<Longrightarrow> R w w'"
  "ensure_turn E cfg deadline w = Inr w' \<Longrightarrow> R w w'"
proof -
  obtain b w1 where b: "ensureRoleAndDatabase E cfg w = (b, w1)" by (rule prod.exhaust)
  have 1: "R w w1" using ensureRoleAndDatabase [of w E cfg] b by simp
  then have 2: "R w (sleep E d w1)" for d using R_trans [OF _ R_sleep] by blast
  show "ensure_turn E cfg deadline w = Inl (r, w') \<Longrightarrow> R w w'"
    "ensure_turn E cfg deadline w = Inr w' \<Longrightarrow> R w w'"
    using 1 2 R_refl by (auto simp: ensure_turn_def b split: if_splits sum.splits)
qed

end

interpretation child_upkeep: upkeep_frame off_child
  by unfold_locales (blast intro: off_child_trans)+

text \<open>Its only effect on the outside are statements.\<close>

definition only_sql :: "world \<Rightarrow> world \<Rightarrow> bool" where
  "only_sql = adds (\<lambda>e. \<exists>sql. e = EvSQL sql)"

interpretation sql_upkeep: upkeep_frame only_sql
proof
  show "only_sql w w" for w by (simp add: only_sql_def adds_same)
  show "only_sql u v \<Longrightarrow> only_sql v w \<Longrightarrow> only_sql u w" for u v w
    unfolding only_sql_def by (rule adds_trans)
  show "only_sql w (tick E w)" "only_sql w (sleep E d w)" "only_sql w (store_at cfg path content w)"
    for w E d cfg path content by (simp_all add: only_sql_def adds_same)
  show "only_sql w (emit (EvSQL sql) w)" for w sql
    unfolding only_sql_def by (rule addsI [where es = "[EvSQL sql]"]) simp_all
qed

lemmas off_child_upkeep [simp, intro] =
  child_upkeep.queries child_upkeep.hbaUpsertLine child_upkeep.upsert_and_reload
  child_upkeep.ensureReplicationHBA child_upkeep.ensureRoleAndDatabase

lemma ensure_turn_progress:
  assumes "ensure_turn E cfg deadline w = Inr w'"
  shows "time_left deadline w' < time_left deadline w"
proof -
  obtain r w1 where a: "ensureRoleAndDatabase E cfg w = (r, w1)" by (rule prod.exhaust)
  have n: "now w \<le> now w1"
    using now_off_child [OF child_upkeep.ensureRoleAndDatabase [of w E cfg]] a by simp
  from assms have "now w < deadline" "w' = sleep E bootstrapRetryInterval w1"
    by (auto simp: ensure_turn_def a split: if_splits sum.splits)
  then show ?thesis
    using n sleep_advances [of w1 bootstrapRetryInterval E] poll_intervals_pos(2)
    by (simp add: time_left_def del: poll_intervals_pos)
qed

function ensure_loop :: "env \<Rightarrow> config \<Rightarrow> gotime \<Rightarrow> world \<Rightarrow> unit \<times> world" where
  "ensure_loop E cfg deadline w =
     (case ensure_turn E cfg deadline w of
        Inl res \<Rightarrow> res | Inr w' \<Rightarrow> ensure_loop E cfg deadline w')"
  by pat_completeness auto
termination
  by (relation "measure (\<lambda>(E, cfg, deadline, w). time_left deadline w)")
     (auto dest: ensure_turn_progress)

declare ensure_loop.simps [simp del]

definition ensureRoleAndDatabaseBlocking :: "env \<Rightarrow> config \<Rightarrow> world \<Rightarrow> world" where
  "ensureRoleAndDatabaseBlocking E cfg w =
     (if \<not> postgresRunning w then w
      else snd (ensure_loop E cfg (now w + ensureRoleAndDatabaseTimeout) w))"

section \<open>The loops as polling loops\<close>

interpretation standby_loop: poll_loop "standby_turn E cfg deadline" "standby_retry E cfg deadline"
    "time_left deadline"
  by unfold_locales (rule standby_retry.simps, rule standby_turn_progress)

interpretation tiebreak_loop: poll_loop "tiebreak_turn E cfg deadline" "tiebreak E cfg deadline"
    "time_left deadline"
  by unfold_locales (rule tiebreak.simps, rule tiebreak_turn_progress)

interpretation ready_loop: poll_loop "ensure_turn E cfg deadline" "ensure_loop E cfg deadline"
    "time_left deadline"
  by unfold_locales (rule ensure_loop.simps, rule ensure_turn_progress)

context upkeep_frame
begin

lemma ensureRoleAndDatabaseBlocking: "R w (ensureRoleAndDatabaseBlocking E cfg w)"
proof -
  have "R w (snd (ensure_loop E cfg d w))" for d
    by (rule ready_loop.run_keeps [where R = R])
       (fact ensure_turn, fact ensure_turn, fact R_trans)
  then show ?thesis by (simp add: ensureRoleAndDatabaseBlocking_def R_refl)
qed

end

lemmas off_child_ensureBlocking [simp, intro] = child_upkeep.ensureRoleAndDatabaseBlocking

lemma off_child_standby_turn:
  "standby_turn E cfg deadline w = Inl (r, w') \<Longrightarrow> off_child w w'"
  "standby_turn E cfg deadline w = Inr w' \<Longrightarrow> off_child w w'"
proof -
  obtain st w1 where f: "fetchPeerStatus E cfg w = (st, w1)" by (rule prod.exhaust)
  obtain b w2 where b: "runBasebackup E cfg w1 = (b, w2)" by (rule prod.exhaust)
  have 1: "off_child w w1"
    using off_child_observed [OF only_observed_peer(2) [of w E cfg]] f by simp
  have 2: "off_child w w2" using off_child_trans [OF 1] off_child_runBasebackup [of w1 E cfg] b by simp
  show "standby_turn E cfg deadline w = Inl (r, w') \<Longrightarrow> off_child w w'"
    "standby_turn E cfg deadline w = Inr w' \<Longrightarrow> off_child w w'"
    using 1 2 by (auto simp: standby_turn_def f b intro: off_child_updates split: if_splits sum.splits)
qed

lemma off_child_standby_retry [simp, intro]: "off_child w (snd (standby_retry E cfg deadline w))"
  by (rule standby_loop.run_keeps [where R = off_child])
     (fact off_child_standby_turn, fact off_child_standby_turn, fact off_child_trans)

lemma tiebreak_turn_observes:
  "tiebreak_turn E cfg deadline w = Inl (r, w') \<Longrightarrow> only_observed w w'"
  "tiebreak_turn E cfg deadline w = Inr w' \<Longrightarrow> only_observed w w'"
proof -
  obtain st w1 where f: "fetchPeerStatus E cfg w = (st, w1)" by (rule prod.exhaust)
  have 1: "only_observed w w1" using only_observed_peer(2) [of w E cfg] f by simp
  note 2 = only_observed_trans [OF 1 only_observed_sleep]
  show "tiebreak_turn E cfg deadline w = Inl (r, w') \<Longrightarrow> only_observed w w'"
    "tiebreak_turn E cfg deadline w = Inr w' \<Longrightarrow> only_observed w w'"
    using 1 2 by (auto simp: tiebreak_turn_def f split: if_splits)
qed

lemma tiebreak_observes [simp, intro]: "only_observed w (snd (tiebreak E cfg deadline w))"
  by (rule tiebreak_loop.run_keeps [where R = only_observed])
     (fact tiebreak_turn_observes, fact tiebreak_turn_observes, fact only_observed_trans)

lemma off_child_bootstrapAsPrimary [simp, intro]: "off_child w (snd (bootstrapAsPrimary E cfg w))"
proof -
  obtain r w1 where s: "stage_password E cfg w = (r, w1)" by (rule prod.exhaust)
  have 1: "off_child w w1"
    using s by (auto simp: stage_password_def Let_def intro!: off_child_updates split: if_splits)
  have 2: "off_child v (unstage_password E pw v)" for pw v
    by (simp add: unstage_password_def Let_def off_child_updates)
  have peer: "off_child v (snd (bootstrap_peer_addr E cfg v))" for v
    by (simp add: bootstrap_peer_addr_def split: option.splits list.splits)
  have 3: "off_child v (snd (initdb_and_configure E cfg pw v))" for pw v
  proof -
    obtain a v1 where a: "runLoggedCommand E (pgTool cfg ''initdb'') (initdb_args cfg pw) v = (a, v1)"
      by (rule prod.exhaust)
    obtain b v2 where b: "writeBootstrapHBA E cfg (hba_auth cfg) v1 = (b, v2)" by (rule prod.exhaust)
    obtain c v3 where c: "writeBootstrapPostgresConf E v2 = (c, v3)" by (rule prod.exhaust)
    have "off_child v (snd (runLoggedCommand E (pgTool cfg ''initdb'') (initdb_args cfg pw) v))"
      by (rule off_child_tools(1))
    then have v1: "off_child v v1" by (simp add: a)
    have "off_child v1 (snd (writeBootstrapHBA E cfg (hba_auth cfg) v1))"
      unfolding writeBootstrapHBA_def split_beta Let_def by (rule off_child_trans [OF peer off_child_tools(6)])
    then have "off_child v1 v2" by (simp add: b)
    note v2 = off_child_trans [OF v1 this]
    have "off_child v2 (snd (writeBootstrapPostgresConf E v2))"
      unfolding writeBootstrapPostgresConf_def by (rule off_child_tools(6))
    then have "off_child v2 v3" by (simp add: c)
    note v3 = off_child_trans [OF v2 this]
    show ?thesis using v1 v2 v3
      by (simp add: initdb_and_configure_def a b c split: sum.splits bool.splits)
  qed
  show ?thesis
    using 1 off_child_trans [OF off_child_trans [OF 1 3] 2]
    by (simp add: bootstrapAsPrimary_def s split_beta split: sum.splits)
qed

section \<open>Events of a bootstrap\<close>

fun is_initdb :: "event \<Rightarrow> bool" where
  "is_initdb (EvTool tool (a # args) code) = (a = ''-D'')"
| "is_initdb _ = False"

fun is_clone_event :: "event \<Rightarrow> bool" where
  "is_clone_event (EvStatus r) = True"
| "is_clone_event EvWipe = True"
| "is_clone_event (EvTool tool (a # args) code) = (a = ''-h'')"
| "is_clone_event _ = False"

fun is_status :: "event \<Rightarrow> bool" where
  "is_status (EvStatus r) = True"
| "is_status _ = False"

lemma clone_event_kinds:
  "is_clone_event e \<Longrightarrow> \<not> is_initdb e" "is_status e \<Longrightarrow> is_clone_event e"
  "is_status e \<Longrightarrow> \<not> is_initdb e"
  by (cases e rule: is_clone_event.cases; simp)+

lemma adds_runLoggedCommand:
  "(\<And>c. P (EvTool tool args c)) \<Longrightarrow> adds P w (snd (runLoggedCommand E tool args w))"
  by (auto simp: runLoggedCommand_def adds_def Let_def split: prod.splits)

lemma adds_runBasebackup: "adds is_clone_event w (snd (runBasebackup E cfg w))"
proof -
  obtain r w1 where a: "refuseIfPostgresRunning E cfg w = (r, w1)" by (rule prod.exhaust)
  obtain s w2 where b: "clear_pgdata E w1 = (s, w2)" by (rule prod.exhaust)
  have 1: "adds is_clone_event w w1"
    using a by (auto simp: refuseIfPostgresRunning_def split: if_splits)
  have "adds is_clone_event w1 w2"
    using b by (auto simp: clear_pgdata_def Let_def adds_def split: if_splits)
  note 2 = adds_trans [OF 1 this]
  have "adds is_clone_event w2 (snd (runLoggedCommand E tool (basebackup_args cfg) w2))" for tool
    by (rule adds_runLoggedCommand) (simp add: basebackup_args_def)
  note 3 = adds_trans [OF 2 this]
  show ?thesis using 1 2 3 by (simp add: runBasebackup_def a b split: sum.splits)
qed

lemma adds_status: "adds is_status w (snd (fetchPeerStatus E cfg w))"
  by (rule addsI [OF fetchPeerStatus_trace]) simp

lemma adds_standby_turn:
  "standby_turn E cfg deadline w = Inl (r, w') \<Longrightarrow> adds is_clone_event w w'"
  "standby_turn E cfg deadline w = Inr w' \<Longrightarrow> adds is_clone_event w w'"
proof -
  obtain st w1 where f: "fetchPeerStatus E cfg w = (st, w1)" by (rule prod.exhaust)
  obtain b w2 where b: "runBasebackup E cfg w1 = (b, w2)" by (rule prod.exhaust)
  have 1: "adds is_clone_event w w1"
    using adds_mono [OF adds_status [of w E cfg]] clone_event_kinds(2) f by simp
  have 2: "adds is_clone_event w w2"
    using adds_trans [OF 1] adds_runBasebackup [of w1 E cfg] b by simp
  have s: "adds is_clone_event w (sleep E d u)" if "adds is_clone_event w u" for u d
    using that by (simp add: adds_def)
  show "standby_turn E cfg deadline w = Inl (r, w') \<Longrightarrow> adds is_clone_event w w'"
    "standby_turn E cfg deadline w = Inr w' \<Longrightarrow> adds is_clone_event w w'"
    using 1 2 s by (auto simp: standby_turn_def f b split: if_splits sum.splits)
qed

lemma adds_standby_retry: "adds is_clone_event w (snd (standby_retry E cfg deadline w))"
  by (rule standby_loop.run_keeps [where R = "adds is_clone_event"])
     (fact adds_standby_turn, fact adds_standby_turn, fact adds_trans)

text \<open>What one can conclude from the end of the two waiting loops.\<close>

lemma standby_retry_result:
  "case standby_retry E cfg deadline w of
     (Inl e, w') \<Rightarrow> deadline < now w'
   | (Inr _, w') \<Rightarrow> \<exists>k d. tool_reply E k (pgTool cfg ''pg_basebackup'') (basebackup_args cfg) d =
        (0, pgdata w')"
proof (rule standby_loop.run_induct [where P = "\<lambda>w res. case res of
     (Inl e, w') \<Rightarrow> deadline < now w'
   | (Inr _, w') \<Rightarrow> \<exists>k d. tool_reply E k (pgTool cfg ''pg_basebackup'') (basebackup_args cfg) d =
        (0, pgdata w')"])
  fix w res
  assume t: "standby_turn E cfg deadline w = Inl res"
  obtain st w1 where f: "fetchPeerStatus E cfg w = (st, w1)" by (rule prod.exhaust)
  obtain b w2 where b: "runBasebackup E cfg w1 = (b, w2)" by (rule prod.exhaust)
  show "case res of
     (Inl e, w') \<Rightarrow> deadline < now w'
   | (Inr _, w') \<Rightarrow> \<exists>k d. tool_reply E k (pgTool cfg ''pg_basebackup'') (basebackup_args cfg) d =
        (0, pgdata w')"
  proof (cases b)
    case (Inl e)
    with t show ?thesis by (auto simp: standby_turn_def f b split: if_splits)
  next
    case (Inr u)
    with runBasebackup_ok [of E cfg w1 w2] b t show ?thesis
      by (auto simp: standby_turn_def f split: if_splits) blast
  qed
qed

lemma tiebreak_result:
  "case tiebreak E cfg deadline w of (primary, w') \<Rightarrow>
     \<exists>es. trace w' = trace w @ es \<and> (\<forall>e \<in> set es. is_status e) \<and>
       (if primary then \<exists>e \<in> set es. reports ''primary'' e
        else (\<forall>e \<in> set es. \<not> reports ''primary'' e) \<and> deadline < now w')"
proof (rule tiebreak_loop.run_induct [where P = "\<lambda>w res. case res of (primary, w') \<Rightarrow>
     \<exists>es. trace w' = trace w @ es \<and> (\<forall>e \<in> set es. is_status e) \<and>
       (if primary then \<exists>e \<in> set es. reports ''primary'' e
        else (\<forall>e \<in> set es. \<not> reports ''primary'' e) \<and> deadline < now w')"])
  fix w res
  assume t: "tiebreak_turn E cfg deadline w = Inl res"
  obtain st w1 where f: "fetchPeerStatus E cfg w = (st, w1)" by (rule prod.exhaust)
  show "case res of (primary, w') \<Rightarrow>
     \<exists>es. trace w' = trace w @ es \<and> (\<forall>e \<in> set es. is_status e) \<and>
       (if primary then \<exists>e \<in> set es. reports ''primary'' e
        else (\<forall>e \<in> set es. \<not> reports ''primary'' e) \<and> deadline < now w')"
  proof (cases "st = Inr ''primary''")
    case True
    with fetch_reports [of E cfg w "''primary''" w1] f obtain e where
      "trace w1 = trace w @ [e]" "reports ''primary'' e" by auto
    with True t show ?thesis by (auto simp: tiebreak_turn_def f reports_def)
  next
    case False
    then have "\<not> reports ''primary'' (EvStatus (status_reply E (calls w))) \<or> PeerHost cfg = []"
      using fetchPeerStatus_Inr [of E cfg w "''primary''"] f by (auto simp: reports_def)
    with False t f fetchPeerStatus_trace [of E cfg w] show ?thesis
      by (auto simp: tiebreak_turn_def split: if_splits)
  qed
next
  fix w w'
  assume t: "tiebreak_turn E cfg deadline w = Inr w'"
    and IH: "case tiebreak E cfg deadline w' of (primary, w'') \<Rightarrow>
     \<exists>es. trace w'' = trace w' @ es \<and> (\<forall>e \<in> set es. is_status e) \<and>
       (if primary then \<exists>e \<in> set es. reports ''primary'' e
        else (\<forall>e \<in> set es. \<not> reports ''primary'' e) \<and> deadline < now w'')"
  obtain st w1 where f: "fetchPeerStatus E cfg w = (st, w1)" by (rule prod.exhaust)
  from t have st: "st \<noteq> Inr ''primary''" "trace w' = trace w1"
    by (auto simp: tiebreak_turn_def f split: if_splits)
  then have "\<not> reports ''primary'' (EvStatus (status_reply E (calls w))) \<or> PeerHost cfg = []"
    using fetchPeerStatus_Inr [of E cfg w "''primary''"] f by (auto simp: reports_def)
  moreover have "trace w' = trace w @ (if PeerHost cfg = [] then [] else [EvStatus (status_reply E (calls w))])"
    using fetchPeerStatus_trace [of E cfg w] f st(2) by simp
  ultimately obtain fs where "trace w' = trace w @ fs"
    "\<forall>e \<in> set fs. is_status e \<and> \<not> reports ''primary'' e" by (auto split: if_splits)
  with IH show "case tiebreak E cfg deadline w' of (primary, w'') \<Rightarrow>
     \<exists>es. trace w'' = trace w @ es \<and> (\<forall>e \<in> set es. is_status e) \<and>
       (if primary then \<exists>e \<in> set es. reports ''primary'' e
        else (\<forall>e \<in> set es. \<not> reports ''primary'' e) \<and> deadline < now w'')"
    by (fastforce split: prod.splits if_splits)
qed

lemma trace_appends [simp]:
  "trace (snd (append_pgdata E name content w)) = trace w"
  "trace (snd (bootstrap_peer_addr E cfg w)) = trace w"
  "trace (snd (writeBootstrapHBA E cfg mode w)) = trace w"
  "trace (snd (writeBootstrapPostgresConf E w)) = trace w"
proof -
  show a: "trace (snd (append_pgdata E name content w)) = trace w" for name content w
    by (simp add: append_pgdata_def Let_def split: option.splits)
  show b: "trace (snd (bootstrap_peer_addr E cfg w)) = trace w"
    by (simp add: bootstrap_peer_addr_def split: option.splits list.splits)
  from a b show "trace (snd (writeBootstrapHBA E cfg mode w)) = trace w"
    by (simp add: writeBootstrapHBA_def split_beta)
  from a show "trace (snd (writeBootstrapPostgresConf E w)) = trace w"
    by (simp add: writeBootstrapPostgresConf_def)
qed

lemma trace_initdb_and_configure:
  "trace (snd (initdb_and_configure E cfg pw w)) =
     trace (snd (runLoggedCommand E (pgTool cfg ''initdb'') (initdb_args cfg pw) w))"
proof -
  obtain r w1 where a: "runLoggedCommand E (pgTool cfg ''initdb'') (initdb_args cfg pw) w = (r, w1)"
    by (rule prod.exhaust)
  obtain b w2 where b: "writeBootstrapHBA E cfg (hba_auth cfg) w1 = (b, w2)" by (rule prod.exhaust)
  obtain c w3 where c: "writeBootstrapPostgresConf E w2 = (c, w3)" by (rule prod.exhaust)
  show ?thesis
    using trace_appends(3) [of E cfg "hba_auth cfg" w1] trace_appends(4) [of E w2] b c
    by (auto simp: initdb_and_configure_def a b c split: sum.splits bool.splits)
qed

lemma trace_bootstrapAsPrimary:
  "trace (snd (bootstrapAsPrimary E cfg w)) = trace w \<or>
   (\<exists>pw c. trace (snd (bootstrapAsPrimary E cfg w)) =
      trace w @ [EvTool (pgTool cfg ''initdb'') (initdb_args cfg pw) c])"
proof -
  obtain r w1 where s: "stage_password E cfg w = (r, w1)" by (rule prod.exhaust)
  have t: "trace w1 = trace w" using s by (auto simp: stage_password_def Let_def split: if_splits)
  have u: "trace (unstage_password E pw v) = trace v" for pw v
    by (simp add: unstage_password_def Let_def)
  have run: "trace (snd (runLoggedCommand E tool args v)) = trace v \<or>
      (\<exists>c. trace (snd (runLoggedCommand E tool args v)) = trace v @ [EvTool tool args c])" for tool args v
    by (auto simp: runLoggedCommand_def Let_def split: prod.splits)
  show ?thesis
  proof (cases r)
    case (Inl e)
    with t show ?thesis by (simp add: bootstrapAsPrimary_def s)
  next
    case (Inr pw)
    have "trace (snd (bootstrapAsPrimary E cfg w)) =
        trace (snd (runLoggedCommand E (pgTool cfg ''initdb'') (initdb_args cfg pw) w1))"
      using Inr u by (simp add: bootstrapAsPrimary_def s split_beta trace_initdb_and_configure)
    with run [of "pgTool cfg ''initdb''" "initdb_args cfg pw" w1] t show ?thesis by metis
  qed
qed

lemma adds_retry: "adds is_clone_event u (snd (bootstrapAsStandbyWithRetry E cfg u))"
  by (simp add: bootstrapAsStandbyWithRetry_def adds_standby_retry)

text \<open>The tiebreak only asks the peer; a node that becomes primary after it never heard of one.\<close>

lemma tiebreak_observations:
  assumes "tiebreak E cfg (now (tick E w) + bootstrapPrimaryTiebreakTimeout) (tick E w) = (primary, w2)"
  shows "adds is_clone_event w w2"
    and "\<not> primary \<Longrightarrow> now w + bootstrapPrimaryTiebreakTimeout < now w2 \<and>
      (\<exists>es. trace w2 = trace w @ es \<and> (\<forall>x \<in> set es. \<not> reports ''primary'' x))"
proof -
  from tiebreak_result [where E = E and cfg = cfg and w = "tick E w" and
      deadline = "now (tick E w) + bootstrapPrimaryTiebreakTimeout"] assms
  obtain es where es: "trace w2 = trace w @ es" "\<forall>x \<in> set es. is_status x"
    "if primary then \<exists>x \<in> set es. reports ''primary'' x
     else (\<forall>x \<in> set es. \<not> reports ''primary'' x) \<and> now (tick E w) + bootstrapPrimaryTiebreakTimeout < now w2"
    by auto
  show "adds is_clone_event w w2" using es(1,2) clone_event_kinds(2) by (auto intro!: addsI)
  show "now w + bootstrapPrimaryTiebreakTimeout < now w2 \<and>
      (\<exists>es. trace w2 = trace w @ es \<and> (\<forall>x \<in> set es. \<not> reports ''primary'' x))" if "\<not> primary"
    using es(1,3) that tick_now [of w E] by auto
qed

lemma tiebreak_lost:
  assumes "tiebreak E cfg (now (tick E w) + bootstrapPrimaryTiebreakTimeout) (tick E w) = (False, w2)"
  shows "now w + bootstrapPrimaryTiebreakTimeout < now (snd (bootstrapAsPrimary E cfg w2)) \<and>
    (\<forall>x \<in> set (fresh_events w (snd (bootstrapAsPrimary E cfg w2))). \<not> reports ''primary'' x)"
proof -
  from tiebreak_observations(2) [OF assms] obtain es where es: "trace w2 = trace w @ es"
    "\<forall>x \<in> set es. \<not> reports ''primary'' x" "now w + bootstrapPrimaryTiebreakTimeout < now w2" by auto
  have "now w2 \<le> now (snd (bootstrapAsPrimary E cfg w2))"
    by (rule now_off_child) (rule off_child_bootstrapAsPrimary)
  moreover have "\<forall>x \<in> set (fresh_events w (snd (bootstrapAsPrimary E cfg w2))). \<not> reports ''primary'' x"
    using trace_bootstrapAsPrimary [of E cfg w2] es(1,2) by (auto simp: fresh_events_def reports_def)
  ultimately show ?thesis using es(3) by simp
qed

section \<open>Properties\<close>

text \<open>
  C10. Without an explicit role, a node initialises a new cluster only when its host name does not
  end in \<open>-1\<close> and, if it has a peer, only after the peer failed to report itself primary for the
  whole tiebreak time.
\<close>

theorem initdb_only_after_tiebreak:
  assumes "runBootstrap E cfg w = (r, w')"
    and "BootstrapRole cfg \<noteq> ''primary''"
    and "e \<in> set (fresh_events w w')" and "is_initdb e"
  shows "is_ordinal_zero E cfg w \<and>
    (PeerHost cfg \<noteq> [] \<longrightarrow>
       now w + bootstrapPrimaryTiebreakTimeout < now w' \<and>
       (\<forall>x \<in> set (fresh_events w w'). \<not> reports ''primary'' x))"
proof -
  have clone: False if "adds is_clone_event w w'"
    using adds_fresh [OF that assms(3)] clone_event_kinds(1) assms(4) by blast
  have role: "BootstrapRole cfg \<noteq> ''standby''"
    using clone assms(1,2) adds_runBasebackup [of w E cfg] by (auto simp: runBootstrap_def)
  have zero: "is_ordinal_zero E cfg w"
  proof (rule ccontr)
    assume "\<not> is_ordinal_zero E cfg w"
    with assms(1,2) role have "w' = snd (bootstrapAsStandbyWithRetry E cfg (tick E w))"
      by (simp add: runBootstrap_def Let_def)
    with adds_retry [of "tick E w" E cfg] have "adds is_clone_event w w'" by (simp add: adds_def)
    then show False by (rule clone)
  qed
  show ?thesis
  proof (cases "PeerHost cfg = []")
    case True
    with zero show ?thesis by simp
  next
    case False
    obtain primary w2 where t: "tiebreak E cfg (now (tick E w) + bootstrapPrimaryTiebreakTimeout) (tick E w) = (primary, w2)"
      by (rule prod.exhaust)
    have w': "w' = snd (if primary then bootstrapAsStandbyWithRetry E cfg w2 else bootstrapAsPrimary E cfg w2)"
      using assms(1,2) role zero False t by (simp add: runBootstrap_def Let_def)
    show ?thesis
    proof (cases primary)
      case True
      with adds_trans [OF tiebreak_observations(1) [OF t] adds_retry] w' clone show ?thesis by simp
    next
      case False
      with t have "tiebreak E cfg (now (tick E w) + bootstrapPrimaryTiebreakTimeout) (tick E w) = (False, w2)"
        by simp
      from tiebreak_lost [OF this] w' False zero show ?thesis by simp
    qed
  qed
qed

text \<open>The files \<open>initdb\<close> was asked for, seen in a run in which every call takes twenty seconds.\<close>

definition slow_env :: env where
  "slow_env = cloning\<lparr>lat := (\<lambda>_. 20000000000)\<rparr>"

definition fresh_bootstrap :: "(pg_error + unit) \<times> world" where
  "fresh_bootstrap = runBootstrap slow_env demo_config (init_world 0 (\<lambda>_. None))"

lemma fresh_bootstrap_trace:
  "fresh_events (init_world 0 (\<lambda>_. None)) (snd fresh_bootstrap) =
     [EvStatus (StatusReply 200 (Some ''standby'')),
      EvTool (pgTool demo_config ''initdb'') (initdb_args demo_config []) 0]"
  by (simp add: fresh_bootstrap_def runBootstrap_def is_ordinal_zero_def tiebreak.simps
      tiebreak_turn_def bootstrapAsPrimary_def stage_password_def initdb_and_configure_def
      unstage_password_def writeBootstrapHBA_def writeBootstrapPostgresConf_def
      bootstrap_peer_addr_def append_pgdata_def runLoggedCommand_def fetchPeerStatus_def
      initdb_args_def hba_auth_def bootstrapPrimaryTiebreakTimeout_def slow_env_def cloning_def
      calm_def demo_config_def zero_config_def init_world_def fresh_events_def world_evals
      HasSuffix_def time_units Let_def split_beta)

theorem initdb_only_after_tiebreak_witness:
  "is_ordinal_zero slow_env demo_config (init_world 0 (\<lambda>_. None)) \<and>
   bootstrapPrimaryTiebreakTimeout < now (snd fresh_bootstrap)"
  using initdb_only_after_tiebreak [of slow_env demo_config "init_world 0 (\<lambda>_. None)"
      "fst fresh_bootstrap" "snd fresh_bootstrap"
      "EvTool (pgTool demo_config ''initdb'') (initdb_args demo_config []) 0"]
    fresh_bootstrap_trace
  by (simp add: fresh_bootstrap_def demo_config_def initdb_args_def init_world_def)


definition second_env :: env where
  "second_env = cloning\<lparr>host_name := (\<lambda>_. Some ''node-1''),
     status_reply := (\<lambda>_. StatusReply 200 (Some ''primary''))\<rparr>"




end
