(* ===== verification/Startup.thy ===== *)
theory Startup
  imports Bootstrap
begin

text \<open>
  Starting the server, from \<open>src/src/main.go\<close>: the first-run bootstrap, the rejoin decision and
  the start itself (\<open>startPostgres\<close>).
\<close>

section \<open>Operations\<close>

definition alreadyConfiguredAsStandby :: "env \<Rightarrow> world \<Rightarrow> bool \<times> world" where
  "alreadyConfiguredAsStandby E w =
     (io_ok E (calls w) \<and> pgdata w ''standby.signal'' \<noteq> None, tick E w)"

text \<open>One turn of the loop of \<open>rejoinAtStartupIfNeeded\<close>.\<close>

definition rejoin_turn ::
  "env \<Rightarrow> config \<Rightarrow> gotime \<Rightarrow> world \<Rightarrow> ((pg_error + unit) \<times> world) + world" where
  "rejoin_turn E cfg deadline w =
     (case fetchPeerStatus E cfg w of
        (Inl e, w1) \<Rightarrow>
          (if now w1 > deadline
           then Inl (Inl (Wrap ''could not confirm peer role within 30s'' e), w1)
           else Inr (sleep E startupRejoinPollInterval w1))
      | (Inr role, w1) \<Rightarrow>
          (if role \<noteq> ''primary'' then Inl (Inr (), w1)
           else
             (case rejoinAsStandby E cfg w1 of
                (Inr _, w2) \<Rightarrow> Inl (Inr (), w2)
              | (Inl e, w2) \<Rightarrow>
                  (if now w2 > deadline then Inl (Inl e, w2)
                   else Inr (sleep E startupRejoinRetryInterval w2)))))"

lemma off_child_rejoin_turn:
  "rejoin_turn E cfg deadline w = Inl (r, w') \<Longrightarrow> off_child w w'"
  "rejoin_turn E cfg deadline w = Inr w' \<Longrightarrow> off_child w w'"
proof -
  obtain st w1 where f: "fetchPeerStatus E cfg w = (st, w1)" by (rule prod.exhaust)
  obtain b w2 where b: "rejoinAsStandby E cfg w1 = (b, w2)" by (rule prod.exhaust)
  have 1: "off_child w w1"
    using off_child_observed [OF only_observed_peer(2) [of w E cfg]] f by simp
  have 2: "off_child w w2" using off_child_trans [OF 1] off_child_rejoinAsStandby [of w1 E cfg] b by simp
  show "rejoin_turn E cfg deadline w = Inl (r, w') \<Longrightarrow> off_child w w'"
    "rejoin_turn E cfg deadline w = Inr w' \<Longrightarrow> off_child w w'"
    using 1 2 by (auto simp: rejoin_turn_def f b intro: off_child_updates split: if_splits sum.splits)
qed

lemma rejoin_turn_progress:
  assumes "rejoin_turn E cfg deadline w = Inr w'"
  shows "time_left deadline w' < time_left deadline w"
proof -
  obtain st w1 where f: "fetchPeerStatus E cfg w = (st, w1)" by (rule prod.exhaust)
  obtain b w2 where b: "rejoinAsStandby E cfg w1 = (b, w2)" by (rule prod.exhaust)
  have n1: "now w \<le> now w1" using now_observed [of w E cfg] f by simp
  have n2: "now w \<le> now w2"
    using n1 now_off_child [OF off_child_rejoinAsStandby [of w1 E cfg]] b by simp
  from assms consider "now w1 \<le> deadline" "w' = sleep E startupRejoinPollInterval w1"
    | "now w2 \<le> deadline" "w' = sleep E startupRejoinRetryInterval w2"
    by (auto simp: rejoin_turn_def f b split: if_splits sum.splits)
  then show ?thesis
    by cases (use n1 n2 time_left_sleep [of w _ deadline _ E] in simp_all)
qed

function rejoin_loop :: "env \<Rightarrow> config \<Rightarrow> gotime \<Rightarrow> world \<Rightarrow> (pg_error + unit) \<times> world" where
  "rejoin_loop E cfg deadline w =
     (case rejoin_turn E cfg deadline w of
        Inl res \<Rightarrow> res | Inr w' \<Rightarrow> rejoin_loop E cfg deadline w')"
  by pat_completeness auto
termination
  by (relation "measure (\<lambda>(E, cfg, deadline, w). time_left deadline w)")
     (auto dest: rejoin_turn_progress)

declare rejoin_loop.simps [simp del]

definition rejoinAtStartupIfNeeded :: "env \<Rightarrow> config \<Rightarrow> world \<Rightarrow> (pg_error + unit) \<times> world" where
  "rejoinAtStartupIfNeeded E cfg w =
     (if PeerHost cfg = [] then (Inr (), w)
      else
        (let (standby, w1) = alreadyConfiguredAsStandby E w
         in if standby then (Inr (), w1)
            else rejoin_loop E cfg (now w1 + startupRejoinDecisionTimeout) w1))"

text \<open>\<open>os.Exit\<close>: a process exits once.\<close>

definition exit_process :: "int \<Rightarrow> world \<Rightarrow> world" where
  "exit_process code w =
     (if proc_exit w = None then emit (EvExit code) (w\<lparr>proc_exit := Some code\<rparr>) else w)"

definition bootstrap_if_needed :: "env \<Rightarrow> config \<Rightarrow> world \<Rightarrow> (pg_error + unit) \<times> world" where
  "bootstrap_if_needed E cfg w =
     (let (needed, w1) = needsBootstrap E w
      in if \<not> needed then (Inr (), w1)
         else
           (case runBootstrap E cfg w1 of
              (Inl e, w2) \<Rightarrow> (Inl e, w2)
            | (Inr _, w2) \<Rightarrow>
                (Inr (), w2\<lparr>met := (met w2)\<lparr>lastBootstrapDuration := now w2 - now w1\<rparr>\<rparr>)))"

definition start_child :: "env \<Rightarrow> config \<Rightarrow> world \<Rightarrow> world" where
  "start_child E cfg w =
     (case start E cfg w of
        (Inl _, w1) \<Rightarrow> exit_process 1 w1
      | (Inr p, w1) \<Rightarrow> watch_child p w1)"

definition startPostgres :: "env \<Rightarrow> config \<Rightarrow> world \<Rightarrow> world" where
  "startPostgres E cfg w =
     (case bootstrap_if_needed E cfg w of
        (Inl _, w1) \<Rightarrow> w1
      | (Inr _, w1) \<Rightarrow>
          (case rejoinAtStartupIfNeeded E cfg w1 of
             (Inl _, w2) \<Rightarrow> w2
           | (Inr _, w2) \<Rightarrow> start_child E cfg w2))"

section \<open>The loop\<close>

interpretation startup_loop: poll_loop "rejoin_turn E cfg deadline" "rejoin_loop E cfg deadline"
    "time_left deadline"
  by unfold_locales (rule rejoin_loop.simps, rule rejoin_turn_progress)

lemma off_child_rejoin_loop [simp, intro]: "off_child w (snd (rejoin_loop E cfg deadline w))"
  by (rule startup_loop.run_keeps [where R = off_child])
     (fact off_child_rejoin_turn, fact off_child_rejoin_turn, fact off_child_trans)

text \<open>The last status read was not a primary's, or the data directory is a standby's.\<close>

definition cleared_to_start :: "world \<Rightarrow> bool" where
  "cleared_to_start w \<longleftrightarrow> pgdata w ''standby.signal'' \<noteq> None \<or>
     (\<exists>role. role \<noteq> ''primary'' \<and> trace w \<noteq> [] \<and> reports role (last (trace w)))"

lemma rejoin_turn_done:
  assumes "rejoin_turn E cfg deadline w = Inl (r, w')" and "clone_is_standby E"
  shows "case r of Inl e \<Rightarrow> deadline < now w' | Inr _ \<Rightarrow> cleared_to_start w'"
proof -
  obtain st w1 where f: "fetchPeerStatus E cfg w = (st, w1)" by (rule prod.exhaust)
  show ?thesis
  proof (cases st)
    case (Inl e)
    with assms(1) show ?thesis by (auto simp: rejoin_turn_def f split: if_splits)
  next
    case (Inr role)
    obtain b w2 where b: "rejoinAsStandby E cfg w1 = (b, w2)" by (rule prod.exhaust)
    show ?thesis
    proof (cases "role = ''primary''")
      case True
      show ?thesis
      proof (cases b)
        case (Inl e)
        with assms(1) f Inr True b show ?thesis by (auto simp: rejoin_turn_def split: if_splits)
      next
        case ok: (Inr u)
        with rejoin_writes_signal [of E cfg w1 w2] assms f Inr True b show ?thesis
          by (auto simp: rejoin_turn_def cleared_to_start_def)
      qed
    next
      case False
      with fetch_reports [of E cfg w role w1] f Inr obtain e where
        "trace w1 = trace w @ [e]" "reports role e" by auto
      with False assms(1) f Inr show ?thesis
        by (auto simp: rejoin_turn_def cleared_to_start_def)
    qed
  qed
qed

lemma rejoin_loop_result:
  assumes "clone_is_standby E" and "rejoin_loop E cfg deadline w = (r, w')"
  shows "case r of Inl e \<Rightarrow> deadline < now w' | Inr _ \<Rightarrow> cleared_to_start w'"
proof -
  obtain u where "rejoin_turn E cfg deadline u = Inl (r, w')"
    using startup_loop.run_last_turn [of E cfg deadline w] assms(2) by auto
  from rejoin_turn_done [OF this assms(1)] show ?thesis .
qed

section \<open>Starting\<close>

lemma off_child_runBootstrap [simp, intro]: "off_child w (snd (runBootstrap E cfg w))"
proof -
  let ?w1 = "tick E w"
  obtain b w2 where t: "tiebreak E cfg (now ?w1 + bootstrapPrimaryTiebreakTimeout) ?w1 = (b, w2)"
    by (rule prod.exhaust)
  have 1: "off_child w ?w1" by simp
  have 2: "off_child w w2"
    using off_child_trans [OF 1 off_child_observed [OF tiebreak_observes [of ?w1 E cfg
            "now ?w1 + bootstrapPrimaryTiebreakTimeout"]]] t by simp
  have s: "off_child w (snd (bootstrapAsStandbyWithRetry E cfg u))" if "off_child w u" for u
    using off_child_trans [OF that off_child_standby_retry] by (simp add: bootstrapAsStandbyWithRetry_def)
  have p: "off_child w (snd (bootstrapAsPrimary E cfg u))" if "off_child w u" for u
    using off_child_trans [OF that off_child_bootstrapAsPrimary] .
  show ?thesis
    using s [OF 1] s [OF 2] p [OF 1] p [OF 2] by (simp add: runBootstrap_def t Let_def)
qed

lemma off_child_bootstrap_if_needed [simp, intro]: "off_child w (snd (bootstrap_if_needed E cfg w))"
proof -
  obtain r w2 where r: "runBootstrap E cfg (tick E w) = (r, w2)" by (rule prod.exhaust)
  have "off_child w w2"
    using off_child_trans [OF off_child_basic(1) off_child_runBootstrap [of "tick E w" E cfg]] r
    by simp
  then show ?thesis
    by (simp add: bootstrap_if_needed_def needsBootstrap_def r off_child_updates split: sum.splits)
qed

lemma off_child_rejoinAtStartupIfNeeded [simp, intro]:
  "off_child w (snd (rejoinAtStartupIfNeeded E cfg w))"
  using off_child_trans [OF off_child_basic(1) [of w E] off_child_rejoin_loop
      [of "tick E w" E cfg "now (tick E w) + startupRejoinDecisionTimeout"]]
  by (simp add: rejoinAtStartupIfNeeded_def alreadyConfiguredAsStandby_def Let_def)

lemma rejoinAtStartup_result:
  assumes "rejoinAtStartupIfNeeded E cfg w = (r, w')" and "clone_is_standby E"
  shows "case r of
      Inl e \<Rightarrow> now w + startupRejoinDecisionTimeout < now w'
    | Inr _ \<Rightarrow> PeerHost cfg = [] \<or> cleared_to_start w'"
proof (cases "PeerHost cfg = []")
  case True
  with assms(1) show ?thesis by (auto simp: rejoinAtStartupIfNeeded_def)
next
  case False
  show ?thesis
  proof (cases "io_ok E (calls w) \<and> pgdata w ''standby.signal'' \<noteq> None")
    case True
    with False assms(1) show ?thesis
      by (auto simp: rejoinAtStartupIfNeeded_def alreadyConfiguredAsStandby_def cleared_to_start_def)
  next
    case nsig: False
    with False assms(1) have
      "rejoin_loop E cfg (now (tick E w) + startupRejoinDecisionTimeout) (tick E w) = (r, w')"
      by (auto simp: rejoinAtStartupIfNeeded_def alreadyConfiguredAsStandby_def Let_def split: if_splits)
    from rejoin_loop_result [OF assms(2) this] tick_now [of w E] show ?thesis
      by (auto split: sum.splits)
  qed
qed

lemma startPostgres_cases:
  obtains (left_stopped) "off_child w (startPostgres E cfg w)"
    | (spawn_failed) w2 w3 e where "off_child w w2" "start E cfg w2 = (Inl e, w3)"
        "startPostgres E cfg w = exit_process 1 w3"
    | (started) w1 w2 w3 p where "off_child w w1" "rejoinAtStartupIfNeeded E cfg w1 = (Inr (), w2)"
        "off_child w w2" "start E cfg w2 = (Inr p, w3)" "startPostgres E cfg w = watch_child p w3"
proof -
  obtain b w1 where b: "bootstrap_if_needed E cfg w = (b, w1)" by (rule prod.exhaust)
  obtain r w2 where r: "rejoinAtStartupIfNeeded E cfg w1 = (r, w2)" by (rule prod.exhaust)
  obtain s w3 where s: "start E cfg w2 = (s, w3)" by (rule prod.exhaust)
  have 1: "off_child w w1" using off_child_bootstrap_if_needed [of w E cfg] b by simp
  have 2: "off_child w w2"
    using off_child_trans [OF 1 off_child_rejoinAtStartupIfNeeded [of w1 E cfg]] r by simp
  show thesis
  proof (cases b)
    case (Inl e)
    with 1 b show thesis by (intro left_stopped) (simp add: startPostgres_def)
  next
    case bo: (Inr u)
    show thesis
    proof (cases r)
      case (Inl e)
      with 2 b bo r show thesis by (intro left_stopped) (simp add: startPostgres_def)
    next
      case ro: (Inr v)
      show thesis
      proof (cases s)
        case (Inl e)
        with 2 b bo r ro s show thesis
          by (intro spawn_failed [of w2 e w3]) (simp_all add: startPostgres_def start_child_def)
      next
        case (Inr p)
        with 1 2 b bo r ro s show thesis
          by (intro started [of w1 w2 p w3]) (simp_all add: startPostgres_def start_child_def)
      qed
    qed
  qed
qed

section \<open>Properties\<close>

text \<open>
  C12. The server is started at most once, as the last thing \<open>startPostgres\<close> does. With a peer
  configured, at that moment the data directory is a standby's, or the last thing learnt was the
  peer reporting a role other than primary: an unreachable peer never clears a start.
\<close>

theorem start_needs_a_cleared_peer:
  assumes "currentChild w = None" and "currentChild (startPostgres E cfg w) = Some p"
    and "PeerHost cfg \<noteq> []" and "clone_is_standby E"
  shows "\<exists>v. off_child w v \<and> cleared_to_start v \<and>
    trace (startPostgres E cfg w) = trace v @ [EvStart p] \<and> p = next_pid w \<and>
    pgdata (startPostgres E cfg w) = pgdata v"
proof (cases rule: startPostgres_cases [of w E cfg])
  case left_stopped
  with assms(1,2) off_childD(14) show ?thesis by simp
next
  case (spawn_failed w2 w3 e)
  with assms(1,2) start_Inl [OF spawn_failed(2)] off_childD(14) [OF spawn_failed(1)] show ?thesis
    by (simp add: exit_process_def split: if_splits)
next
  case (started w1 w2 w3 q)
  have "cleared_to_start w2"
    using rejoinAtStartup_result [OF started(2) assms(4)] assms(3) by simp
  moreover have "q = p" using assms(2) started(5) by (simp add: watch_child_def)
  moreover have "pgdata w3 = pgdata w2"
    using started(4) by (auto simp: start_def Let_def split: if_splits)
  ultimately show ?thesis
    using started(3,5) start_Inr [OF started(4)] off_childD(17) [OF started(3)]
    by (intro exI [of _ w2]) (simp add: watch_child_def)
qed

lemmas startup_eval_defs [evals] =
  alreadyConfiguredAsStandby_def rejoin_turn_def rejoin_loop.simps rejoinAtStartupIfNeeded_def
  needsBootstrap_def bootstrap_if_needed_def start_child_def startPostgres_def exit_process_def
  startupRejoinDecisionTimeout_def

definition standby_data :: datadir where
  "standby_data = [''PG_VERSION'' \<mapsto> ''18'', ''standby.signal'' \<mapsto> []]"

definition primary_data :: datadir where
  "primary_data = [''PG_VERSION'' \<mapsto> ''18'']"

lemma rejoined_start:
  "currentChild (startPostgres second_env demo_config (init_world 0 primary_data)) = Some 0"
  by (simp add: evals second_env_def primary_data_def)

theorem start_needs_a_cleared_peer_witness:
  "\<exists>v. cleared_to_start v \<and>
     trace (startPostgres second_env demo_config (init_world 0 primary_data)) = trace v @ [EvStart 0]"
  using start_needs_a_cleared_peer [OF _ rejoined_start]
  by (force simp: init_world_def demo_config_def clone_is_standby_def second_env_def cloning_def)

text \<open>
  The rejoin decision at startup gives up only after its thirty seconds, and when it says yes
  to a start the data directory is a standby's or the peer has just reported another role.
\<close>

theorem rejoin_decision:
  assumes "rejoinAtStartupIfNeeded E cfg w = (r, w')" and "clone_is_standby E"
  shows "(case r of
      Inl e \<Rightarrow> now w + startupRejoinDecisionTimeout < now w'
    | Inr _ \<Rightarrow> PeerHost cfg = [] \<or> cleared_to_start w') \<and> off_child w w'"
  using rejoinAtStartup_result [OF assms] off_child_rejoinAtStartupIfNeeded [of w E cfg] assms(1)
  by simp

theorem rejoin_decision_witness:
  "cleared_to_start (snd (rejoinAtStartupIfNeeded cloning demo_config (init_world 0 primary_data)))"
proof -
  have ok: "fst (rejoinAtStartupIfNeeded cloning demo_config (init_world 0 primary_data)) = Inr ()"
    by (simp add: evals primary_data_def)
  have peer: "PeerHost demo_config \<noteq> []" by (simp add: demo_config_def)
  from rejoin_decision [of cloning demo_config "init_world 0 primary_data", OF
      prod.collapse [symmetric] cloning_is_standby] ok peer
  show ?thesis by simp
qed

text \<open>
  A peer that answers but reports the role unknown, as a peer does whose own server has not
  started yet, counts as definitely no primary: the node starts at once, on the data directory of
  a former primary, without having become a standby.
\<close>

theorem unknown_role_clears_start:
  assumes "pgdata w ''PG_VERSION'' \<noteq> None" and "pgdata w ''standby.signal'' = None"
    and "PeerHost cfg \<noteq> []" and "\<forall>k. io_ok E k \<and> spawn_ok E k"
    and "\<forall>k. status_reply E k = StatusReply 200 (Some ''unknown'')"
  shows "currentChild (startPostgres E cfg w) = Some (next_pid w) \<and>
    pgdata (startPostgres E cfg w) = pgdata w \<and>
    now (startPostgres E cfg w) = now w + int (lat E (calls w)) + int (lat E (Suc (calls w)))
      + int (lat E (Suc (Suc (calls w)))) + int (lat E (Suc (Suc (Suc (calls w)))))"
  using assms by (simp add: evals)

theorem unknown_role_clears_start_witness:
  "currentChild (startPostgres (calm\<lparr>status_reply := (\<lambda>_. StatusReply 200 (Some ''unknown''))\<rparr>)
     demo_config (init_world 0 primary_data)) = Some 0"
  using unknown_role_clears_start [of "init_world 0 primary_data" demo_config
      "calm\<lparr>status_reply := (\<lambda>_. StatusReply 200 (Some ''unknown''))\<rparr>"]
  by (simp add: primary_data_def init_world_def demo_config_def calm_def)

end
