(* ===== verification/MainLoop.thy ===== *)
theory MainLoop
  imports Startup
begin

text \<open>
  The main goroutine of \<open>src/src/main.go\<close> after startup: termination signals, crashes of the
  child and their restart budget, and the requests the API handlers hand over. The loop's
  \<open>select\<close> is a step relation in which any ready case may be taken; between two of its steps the
  other goroutines may change everything they own (\<open>background\<close>).
\<close>

section \<open>Handlers of the loop\<close>

definition exitCodeSwitchoverRestart :: int where
  "exitCodeSwitchoverRestart = 78"

definition shutdownSignal :: signal where
  "shutdownSignal = SIGTERM"

text \<open>Coordinated first, forced when that fails; the child is forgotten either way.\<close>

definition stop_or_force ::
  "env \<Rightarrow> config \<Rightarrow> nat \<Rightarrow> signal \<Rightarrow> ((pg_error + unit) \<times> world) \<Rightarrow> world" where
  "stop_or_force E cfg p sig res =
     (case res of
        (Inr _, w) \<Rightarrow> forget_child w
      | (Inl _, w) \<Rightarrow> forget_child (snd (coordinateHandover E cfg p sig ''force'' w)))"

definition handleTerminationSignal :: "env \<Rightarrow> config \<Rightarrow> signal \<Rightarrow> world \<Rightarrow> int \<times> world" where
  "handleTerminationSignal E cfg sig w =
     (case currentChild w of
        None \<Rightarrow> (0, w)
      | Some p \<Rightarrow>
          (if ShutdownMode cfg = ''reboot''
           then (exitCodeSwitchoverRestart,
                 stop_or_force E cfg p sig (coordinateReboot E cfg p sig w))
           else (0, stop_or_force E cfg p sig
                      (coordinateHandover E cfg p sig (ShutdownPolicy cfg) w))))"

text \<open>\<open>crashTimestamps\<close> after a crash at time \<open>t\<close>.\<close>

definition record_crash :: "duration \<Rightarrow> gotime list \<Rightarrow> gotime \<Rightarrow> gotime list" where
  "record_crash window ts t = filter (\<lambda>x. t - window < x) ts @ [t]"

definition recordCrashAndCheckLimit :: "config \<Rightarrow> world \<Rightarrow> bool \<times> world" where
  "recordCrashAndCheckLimit cfg w =
     (let ts = record_crash (PostgresRestartWindow cfg) (crashTimestamps w) (now w)
      in (int (length ts) \<le> PostgresRestartLimit cfg, w\<lparr>crashTimestamps := ts\<rparr>))"

definition recordPostgresCrash :: "world \<Rightarrow> world" where
  "recordPostgresCrash w = w\<lparr>met := (met w)\<lparr>lastPostgresCrashUnixNano := now w\<rparr>\<rparr>"

text \<open>\<open>case <-childDone\<close>: the child \<open>p\<close> exited with \<open>code\<close>.\<close>

definition handle_crash :: "env \<Rightarrow> config \<Rightarrow> nat \<Rightarrow> int \<Rightarrow> world \<Rightarrow> world" where
  "handle_crash E cfg p code w =
     (let w1 = persistState E cfg (recordPostgresCrash (forget_child (emit (EvCrash p code) w)))
      in if PostgresRestartLimit cfg = 0 then exit_process code w1
         else
           (let (within, w2) = recordCrashAndCheckLimit cfg w1
            in if \<not> within then exit_process code w2
               else w2\<lparr>restartPending := True, restartAt := Some (now w2 + PostgresRestartBackoff cfg)\<rparr>))"

text \<open>\<open>case <-restartAt\<close>.\<close>

definition handle_restart :: "env \<Rightarrow> config \<Rightarrow> world \<Rightarrow> world" where
  "handle_restart E cfg w =
     (let w1 = emit EvRestart (w\<lparr>restartAt := None, restartPending := False\<rparr>)
      in if currentChild w1 \<noteq> None then w1
         else
           (let w2 = w1\<lparr>met := (met w1)\<lparr>postgresRestartsCounter := postgresRestartsCounter (met w1) + 1\<rparr>\<rparr>;
                w3 = startPostgres E cfg (persistState E cfg w2)
            in if currentChild w3 = None then exit_process 1 w3 else w3))"

definition request_rejoin :: "env \<Rightarrow> config \<Rightarrow> world \<Rightarrow> (pg_error + unit) \<times> world" where
  "request_rejoin E cfg w =
     (if restartPending w then (Inl RestartIsPending, w)
      else if currentChild w \<noteq> None then (Inl (Err ''postgres is currently running''), w)
      else
        (case rejoinAsStandby E cfg w of
           (Inl e, w1) \<Rightarrow> (Inl (Wrap ''rejoin failed'' e), w1)
         | (Inr _, w1) \<Rightarrow>
             (case start E cfg w1 of
                (Inl e, w2) \<Rightarrow> (Inl (Wrap ''starting postgres after rejoin'' e), w2)
              | (Inr p, w2) \<Rightarrow> (Inr (), watch_child p w2))))"

definition request_start :: "env \<Rightarrow> config \<Rightarrow> world \<Rightarrow> (pg_error + unit) \<times> world" where
  "request_start E cfg w =
     (if restartPending w then (Inl RestartIsPending, w)
      else if currentChild w \<noteq> None then (Inl (Err ''postgres is already running''), w)
      else
        (let w1 = startPostgres E cfg w
         in if currentChild w1 = None then (Inl (Err ''postgres failed to start''), w1)
            else (Inr (), w1)))"

text \<open>\<open>handleHandoverRequest\<close>: the value is what is sent on the request's result channel.\<close>

definition request_stop ::
  "((nat \<Rightarrow> world \<Rightarrow> (pg_error + unit) \<times> world)) \<Rightarrow> world \<Rightarrow> (pg_error + unit) \<times> world" where
  "request_stop stop w =
     (case currentChild w of
        None \<Rightarrow> (Inl PostgresNotRunning, w)
      | Some p \<Rightarrow>
          (case stop p w of
             (Inl e, w1) \<Rightarrow> (Inl e, w1)
           | (Inr _, w1) \<Rightarrow> (Inr (), forget_child w1)))"

definition handleHandoverRequest ::
  "env \<Rightarrow> config \<Rightarrow> string \<Rightarrow> world \<Rightarrow> (pg_error + unit) \<times> world" where
  "handleHandoverRequest E cfg kind w =
     (if kind \<in> {''shutdown'', ''switchover'', ''maintenance''} then
        request_stop (\<lambda>p. coordinateHandover E cfg p shutdownSignal (ShutdownPolicy cfg)) w
      else if kind = ''reboot'' then
        request_stop (\<lambda>p. coordinateReboot E cfg p shutdownSignal) w
      else if kind = ''rejoin'' then request_rejoin E cfg w
      else if kind = ''start'' then request_start E cfg w
      else (Inl (Err ''unknown handover request kind''), w))"

section \<open>The loop\<close>

text \<open>
  What the other goroutines (HTTP handlers, failover monitor, backups, exits of the child seen
  by the reaper) may do between two steps of the loop: anything but what the loop owns.
\<close>

definition background :: "world \<Rightarrow> world \<Rightarrow> bool" where
  "background w w' \<longleftrightarrow>
     later w w' \<and> same_child w w' \<and> restartPending w' = restartPending w \<and>
     restartAt w' = restartAt w \<and> crashTimestamps w' = crashTimestamps w \<and>
     proc_exit w' = proc_exit w"

inductive loop_step :: "env \<Rightarrow> config \<Rightarrow> world \<Rightarrow> world \<Rightarrow> bool" for E cfg where
  other: "proc_exit w = None \<Longrightarrow> background w w' \<Longrightarrow> loop_step E cfg w w'"
| signalled: "proc_exit w = None \<Longrightarrow> handleTerminationSignal E cfg sig w = (code, w') \<Longrightarrow>
    loop_step E cfg w (exit_process code w')"
| child_done: "proc_exit w = None \<Longrightarrow> currentChild w = Some p \<Longrightarrow> exit_of w p = Some code \<Longrightarrow>
    loop_step E cfg w (handle_crash E cfg p code w)"
| restart: "proc_exit w = None \<Longrightarrow> restartAt w = Some t \<Longrightarrow> t \<le> now w \<Longrightarrow>
    loop_step E cfg w (handle_restart E cfg w)"
| request: "proc_exit w = None \<Longrightarrow> handleHandoverRequest E cfg kind w = (r, w') \<Longrightarrow>
    loop_step E cfg w (emit (EvReply kind r) w')"
| exit_requested: "proc_exit w = None \<Longrightarrow> loop_step E cfg w (exit_process code w)"

text \<open>
  From the start of the process, with whatever it finds in the data directory, on the disk and in the
  backup directory: the first start, then the loop.
\<close>

definition boot_world :: "gotime \<Rightarrow> datadir \<Rightarrow> fs \<Rightarrow> (string \<times> bool) list \<Rightarrow> world" where
  "boot_world t d f bs = (init_world t d)\<lparr>disk := f, backup_entries := bs\<rparr>"

lemma boot_world_empty: "boot_world t d (\<lambda>_. None) [] = init_world t d"
  by (simp add: boot_world_def init_world_def)

text \<open>A first start whose server cannot be spawned ends the process (\<open>logFatal\<close>); nothing comes after it.\<close>

definition first_start :: "env \<Rightarrow> config \<Rightarrow> world \<Rightarrow> world" where
  "first_start E cfg w =
     (let w1 = startPostgres E cfg w
      in if proc_exit w1 \<noteq> None then w1 else ensureRoleAndDatabaseBlocking E cfg w1)"

inductive reachable :: "env \<Rightarrow> config \<Rightarrow> world \<Rightarrow> bool" for E cfg where
  boot: "reachable E cfg (first_start E cfg (initPersistentState E cfg (boot_world t d f bs)))"
| step: "reachable E cfg w \<Longrightarrow> loop_step E cfg w w' \<Longrightarrow> reachable E cfg w'"

inductive_cases loop_stepE: "loop_step E cfg w w'"

section \<open>Stopping as an interface\<close>

text \<open>
  What the loop relies on when it stops the child: only the record of the child changes, success
  means it is cleared, an error leaves it as it was or cleared. The loop's lemmas are proved for
  any such operation; \<open>stopLocal\<close>, the two handovers and the reboot provide it.
\<close>

definition cleared :: "world \<Rightarrow> bool" where
  "cleared w \<longleftrightarrow> currentChild w = None \<and> \<not> postgresRunning w"

definition main_inv :: "config \<Rightarrow> world \<Rightarrow> bool" where
  "main_inv cfg w \<longleftrightarrow>
     (postgresRunning w \<longleftrightarrow> currentChild w \<noteq> None) \<and>
     (restartPending w \<longleftrightarrow> restartAt w \<noteq> None) \<and>
     (restartPending w \<longrightarrow> currentChild w = None) \<and>
     (\<forall>p. currentChild w = Some p \<longrightarrow> sup_proc w = Some p \<and> p < next_pid w) \<and>
     (proc_exit w = None \<longrightarrow>
        int (length (crashTimestamps w)) \<le> max 0 (PostgresRestartLimit cfg)) \<and>
     (\<forall>t \<in> set (crashTimestamps w). t \<le> now w)"

lemma main_inv_same:
  assumes "main_inv cfg w" and "same_child w w'" and "now w \<le> now w'"
    and "restartPending w' = restartPending w" and "restartAt w' = restartAt w"
    and "crashTimestamps w' = crashTimestamps w" and "proc_exit w' = proc_exit w"
  shows "main_inv cfg w'"
  using assms by (fastforce simp: main_inv_def same_child_def)

lemma main_inv_cleared:
  assumes "main_inv cfg w" and "cleared w'" and "now w \<le> now w'"
    and "restartPending w' = restartPending w" and "restartAt w' = restartAt w"
    and "crashTimestamps w' = crashTimestamps w" and "proc_exit w' = proc_exit w"
  shows "main_inv cfg w'"
  using assms by (fastforce simp: main_inv_def cleared_def)

lemma main_inv_off_child: "main_inv cfg w \<Longrightarrow> off_child w w' \<Longrightarrow> main_inv cfg w'"
  by (rule main_inv_same) (simp_all add: off_childD(2-6) now_off_child)

lemma main_inv_background: "main_inv cfg w \<Longrightarrow> background w w' \<Longrightarrow> main_inv cfg w'"
  by (rule main_inv_same) (simp_all add: background_def later_now)

locale stopper =
  fixes stop :: "nat \<Rightarrow> world \<Rightarrow> (pg_error + unit) \<times> world"
  assumes stop_frame: "child_only w (snd (stop p w))"
    and stop_ok: "stop p w = (Inr u, w') \<Longrightarrow> cleared w'"
    and stop_error: "stop p w = (Inl e, w') \<Longrightarrow> same_child w w' \<or> cleared w'"
begin

lemma frame:
  assumes "stop p w = (r, w')"
  shows "child_only w w'"
  using stop_frame [of w p] assms by simp

lemma keeps_inv:
  assumes "stop p w = (r, w')" and "main_inv cfg w"
  shows "main_inv cfg w'"
proof -
  note f = child_onlyD [OF frame [OF assms(1)]]
  from stop_ok [of p w] stop_error [of p w] assms(1) have "same_child w w' \<or> cleared w'"
    by (cases r) auto
  then show ?thesis
    using main_inv_same [OF assms(2) _ later_now [OF f(1)] f(4-7)]
      main_inv_cleared [OF assms(2) _ later_now [OF f(1)] f(4-7)] by blast
qed

lemma request_keeps_inv:
  assumes "main_inv cfg w"
  shows "main_inv cfg (snd (request_stop stop w))"
proof (cases "currentChild w")
  case None
  with assms show ?thesis by (simp add: request_stop_def)
next
  case (Some p)
  obtain r w1 where s: "stop p w = (r, w1)" by (rule prod.exhaust)
  have i: "main_inv cfg w1" using keeps_inv [OF s assms] .
  then have "main_inv cfg (forget_child w1)"
    by (rule main_inv_cleared) (simp_all add: forget_child_def cleared_def)
  with i Some s show ?thesis by (simp add: request_stop_def split: sum.splits)
qed

lemma request_answer:
  assumes "request_stop stop w = (r, w')"
  shows "child_only w w' \<and>
    (case r of Inr _ \<Rightarrow> currentChild w \<noteq> None \<and> cleared w'
     | Inl e \<Rightarrow> (currentChild w = None \<and> e = PostgresNotRunning \<and> w' = w) \<or>
         (currentChild w \<noteq> None \<and> (same_child w w' \<or> cleared w')))"
proof (cases "currentChild w")
  case None
  with assms show ?thesis by (auto simp: request_stop_def)
next
  case (Some p)
  obtain s w1 where s: "stop p w = (s, w1)" by (rule prod.exhaust)
  have f: "child_only w w1" "child_only w (forget_child w1)"
    using frame [OF s] child_only_trans by auto
  have "cleared (forget_child w1)" by (simp add: forget_child_def cleared_def)
  with f Some s assms stop_error [of p w] show ?thesis
    by (auto simp: request_stop_def split: sum.splits)
qed

end

lemma child_only_coordinateHandover [simp, intro]:
  "child_only w (snd (coordinateHandover E cfg p sig policy w))"
proof -
  obtain r w' where eq: "coordinateHandover E cfg p sig policy w = (r, w')" by (rule prod.exhaust)
  have sl: "child_only u v" if "stopLocal E cfg p sig u = (x, v)" for u v x
    using child_only_stopLocal [of u E cfg p sig] that by simp
  from eq have "child_only w w'"
  proof (cases rule: coordinateHandover_cases)
    case forced
    then show ?thesis using sl by blast
  next
    case (standby w1)
    have "child_only w w1" using only_observed_peer(5) [of w E] standby(2) by auto
    with child_only_standby [OF standby(3)] show ?thesis by (blast intro: child_only_trans)
  next
    case (refused w1 st)
    with adds_observed(2) [OF refused(2,3)] show ?thesis by blast
  next
    case (stop_failed w1 w2 st e)
    with adds_observed(2) [OF stop_failed(2,3)] sl [OF stop_failed(4)] show ?thesis
      by (blast intro: child_only_trans)
  next
    case (stopped w1 w2 w3 st)
    have a: "child_only w w3"
      using adds_observed(2) [OF stopped(2,4)] sl [OF stopped(5)] by (blast intro: child_only_trans)
    have "only_observed w3 w'"
      using stopped(7) only_observed_peer(3) [of w3 E cfg] awaitPeerPrimary_spec only_observed_trans
      by (metis snd_conv)
    with a show ?thesis by (blast intro: child_only_trans)
  qed
  with eq show ?thesis by simp
qed

interpretation local_stop: stopper "\<lambda>p. stopLocal E cfg p sig"
proof
  fix p w u w' e
  show "child_only w (snd (stopLocal E cfg p sig w))" by simp
  show "stopLocal E cfg p sig w = (Inr u, w') \<Longrightarrow> cleared w'"
    using stopLocal_ok(1,2) [of E cfg p sig w w'] by (simp add: cleared_def)
  show "stopLocal E cfg p sig w = (Inl e, w') \<Longrightarrow> same_child w w' \<or> cleared w'"
    using stopLocal_failed(1) by blast
qed

interpretation handover_stop: stopper "\<lambda>p. coordinateHandover E cfg p sig policy"
proof
  fix p w u w' e
  show "child_only w (snd (coordinateHandover E cfg p sig policy w))" by simp
  show "coordinateHandover E cfg p sig policy w = (Inr u, w') \<Longrightarrow> cleared w'"
    using coordinateHandover_outcome [of E cfg p sig policy w "Inr u" w'] by (simp add: cleared_def)
  show "coordinateHandover E cfg p sig policy w = (Inl e, w') \<Longrightarrow> same_child w w' \<or> cleared w'"
    using coordinateHandover_outcome [of E cfg p sig policy w "Inl e" w']
    by (auto simp: cleared_def split: if_splits)
qed

lemma coordinateReboot_cases:
  assumes "coordinateReboot E cfg p sig w = (r, w')"
  obtains (standby) w1 where "only_observed w w1"
      "coordinateStandbyHandover E cfg p sig (ShutdownPolicy cfg) w1 = (r, w')"
    | (primary) w1 where "only_observed w w1" "stopLocal E cfg p sig w1 = (r, w')"
proof -
  obtain rec w1 where i: "isInRecovery E w = (rec, w1)" by (rule prod.exhaust)
  have 1: "only_observed w w1" using only_observed_peer(5) [of w E] i by simp
  have 2: "only_observed w (snd (notifyPeerReboot E cfg w1))"
    using only_observed_trans [OF 1 only_observed_peer(4)] .
  from assms i show thesis
    using standby [OF 1] primary [OF 2] by (auto simp: coordinateReboot_def split: if_splits)
qed

interpretation reboot_stop: stopper "\<lambda>p. coordinateReboot E cfg p sig"
proof
  fix p w u w' e
  obtain r v where eq: "coordinateReboot E cfg p sig w = (r, v)" by (rule prod.exhaust)
  from eq have all: "child_only w v \<and> (case r of Inr _ \<Rightarrow> cleared v | Inl _ \<Rightarrow> same_child w v)"
  proof (cases rule: coordinateReboot_cases)
    case (standby w1)
    have "child_only w v" using standby(1) child_only_standby [OF standby(2)]
      by (blast intro: child_only_trans)
    with standby_outcome [OF standby(2)] only_observedD(2) [OF standby(1)] show ?thesis
      by (auto simp: cleared_def intro: same_child_trans split: sum.splits)
  next
    case (primary w1)
    have "child_only w v" using primary child_only_stopLocal [of w1 E cfg p sig]
      by (auto intro: child_only_trans)
    with local_stop.stop_ok [of E cfg p sig w1 _ v] stopLocal_failed(1) [of E cfg p sig w1 _ v]
      only_observedD(2) [OF primary(1)] primary(2) show ?thesis
      by (auto intro: same_child_trans split: sum.splits)
  qed
  from all eq show "child_only w (snd (coordinateReboot E cfg p sig w))" by simp
  from all eq show "coordinateReboot E cfg p sig w = (Inr u, w') \<Longrightarrow> cleared w'" by auto
  from all eq show "coordinateReboot E cfg p sig w = (Inl e, w') \<Longrightarrow> same_child w w' \<or> cleared w'"
    by auto
qed

section \<open>What becomes of a stopped server\<close>

definition gone :: "world \<Rightarrow> nat \<Rightarrow> bool" where
  "gone w p \<longleftrightarrow> exit_of w p \<noteq> None \<or> EvKill p \<in> set (trace w)"

text \<open>The one way to be left running without a record: the kernel refused even the forced kill.\<close>

definition kill_refused :: "world \<Rightarrow> world \<Rightarrow> nat \<Rightarrow> bool" where
  "kill_refused w w' p \<longleftrightarrow> currentChild w = Some p \<and> EvKillRefused p \<in> set (fresh_events w w')"

lemma gone_later: "gone w p \<Longrightarrow> later w w' \<Longrightarrow> gone w' p"
  by (auto simp: gone_def later_def prefix_def)

text \<open>A stopper that also accounts for the process: it is still recorded, or exited or killed.\<close>

locale accounting_stopper = stopper +
  assumes stop_accounts: "stop p w = (r, w') \<Longrightarrow> currentChild w = Some p \<Longrightarrow> sup_proc w = Some p \<Longrightarrow>
    currentChild w' = Some p \<or> gone w' p"
begin

lemma request_accounts:
  assumes "request_stop stop w = (r, w')" and "currentChild w = Some p" and "sup_proc w = Some p"
  shows "currentChild w' = Some p \<or> gone w' p"
proof -
  obtain s w1 where s: "stop p w = (s, w1)" by (rule prod.exhaust)
  note acc = stop_accounts [OF s assms(2,3)]
  show ?thesis
  proof (cases s)
    case (Inl e)
    with assms(1,2) s acc show ?thesis by (simp add: request_stop_def)
  next
    case (Inr u)
    with stop_ok s have "cleared w1" by simp
    with acc have "gone w1 p" by (simp add: cleared_def)
    with assms(1,2) s Inr show ?thesis
      by (auto simp: request_stop_def forget_child_def gone_def)
  qed
qed

end

lemma stopLocal_accounts:
  assumes "stopLocal E cfg p sig w = (r, w')" and "currentChild w = Some p" and "sup_proc w = Some p"
  shows "currentChild w' = Some p \<or> gone w' p"
proof (cases r)
  case (Inl e)
  from stopLocal_failed(1) [OF assms(1) [unfolded Inl]] assms(2) show ?thesis
    by (simp add: same_child_def)
next
  case (Inr u)
  then have "stopLocal E cfg p sig w = (Inr (), w')" using assms(1) by simp
  from stopLocal_ok(3) [OF this] assms(3) show ?thesis by (auto simp: gone_def)
qed

text \<open>After an observation the record of the child is the same.\<close>

lemma observed_child:
  "only_observed w w1 \<Longrightarrow> currentChild w = Some p \<Longrightarrow> sup_proc w = Some p \<Longrightarrow>
   currentChild w1 = Some p \<and> sup_proc w1 = Some p"
  by (simp add: only_observedD)

lemma standby_accounts:
  assumes "coordinateStandbyHandover E cfg p sig policy w = (r, w')"
    and "currentChild w = Some p" and "sup_proc w = Some p"
  shows "currentChild w' = Some p \<or> gone w' p"
  using assms(1)
proof (cases rule: coordinateStandbyHandover_cases)
  case (refused st)
  with only_observed_peer(2) [of w E cfg] assms(2,3) observed_child show ?thesis by simp
next
  case (stop st w1 sr)
  have "currentChild w1 = Some p \<and> sup_proc w1 = Some p"
    using only_observed_peer(2) [of w E cfg] assms(2,3) observed_child stop(1) by simp
  with stopLocal_accounts [OF stop(3)] show ?thesis by blast
qed

lemma handover_accounts:
  assumes "coordinateHandover E cfg p sig policy w = (r, w')"
    and "currentChild w = Some p" and "sup_proc w = Some p"
  shows "currentChild w' = Some p \<or> gone w' p"
  using assms(1)
proof (cases rule: coordinateHandover_cases)
  case forced
  from stopLocal_accounts [OF forced(2) assms(2,3)] show ?thesis .
next
  case (standby w1)
  have "currentChild w1 = Some p \<and> sup_proc w1 = Some p"
    using only_observed_peer(5) [of w E] assms(2,3) observed_child standby(2) by simp
  with standby_accounts [OF standby(3)] show ?thesis by blast
next
  case (refused w1 st)
  from observed_child [OF adds_observed(2) [OF refused(2,3)] assms(2,3)] show ?thesis by simp
next
  case (stop_failed w1 w2 st e)
  from observed_child [OF adds_observed(2) [OF stop_failed(2,3)] assms(2,3)]
    stopLocal_accounts [OF stop_failed(4)] show ?thesis by blast
next
  case (stopped w1 w2 w3 st)
  from observed_child [OF adds_observed(2) [OF stopped(2,4)] assms(2,3)]
    stopLocal_accounts [OF stopped(5)] stopLocal_ok(1) [OF stopped(5)]
  have "gone w3 p" by auto
  moreover have "only_observed w3 w'"
    using stopped(7) only_observed_peer(3) [of w3 E cfg] awaitPeerPrimary_spec only_observed_trans
    by (metis snd_conv)
  ultimately show ?thesis using gone_later only_observedD(1) by blast
qed

lemma reboot_accounts:
  assumes "coordinateReboot E cfg p sig w = (r, w')"
    and "currentChild w = Some p" and "sup_proc w = Some p"
  shows "currentChild w' = Some p \<or> gone w' p"
  using assms(1)
proof (cases rule: coordinateReboot_cases)
  case (standby w1)
  from observed_child [OF standby(1) assms(2,3)] standby_accounts [OF standby(2)] show ?thesis by blast
next
  case (primary w1)
  from observed_child [OF primary(1) assms(2,3)] stopLocal_accounts [OF primary(2)] show ?thesis by blast
qed

interpretation local_stop: accounting_stopper "\<lambda>p. stopLocal E cfg p sig"
  by unfold_locales (rule stopLocal_accounts)

interpretation handover_stop: accounting_stopper "\<lambda>p. coordinateHandover E cfg p sig policy"
  by unfold_locales (rule handover_accounts)

interpretation reboot_stop: accounting_stopper "\<lambda>p. coordinateReboot E cfg p sig"
  by unfold_locales (rule reboot_accounts)

lemma stopLocal_gone:
  assumes "stopLocal E cfg p sig w = (r, w')" and "sup_proc w = Some p"
  shows "gone w' p \<or> is_ok r = False \<and> EvKillRefused p \<in> set (fresh_events w w')"
proof (cases r)
  case (Inr u)
  then have "stopLocal E cfg p sig w = (Inr (), w')" using assms(1) by simp
  from stopLocal_ok(3) [OF this] assms(2) show ?thesis by (auto simp: gone_def)
next
  case (Inl e)
  with assms(1) obtain w3 k where "killChild E w3 = (Inl k, w')"
    "w3 = snd (wait_child E p (ShutdownWait cfg) (snd (stopGracefully E cfg sig (emit EvPoolReset w))))"
    by (cases rule: stopLocal_cases) auto
  moreover from this(2) assms(2) have "sup_proc w3 = Some p" "\<exists>es. trace w3 = trace w @ es"
    using wait_world_steps(2,3) [of w3 E p "ShutdownWait cfg" cfg sig w] by (auto simp: same_child_def)
  ultimately show ?thesis
    using killChild_Inl [of E w3 k w' p] Inl by (auto simp: gone_def fresh_events_def)
qed

section \<open>The invariant of the loop\<close>

definition loop_inv :: "config \<Rightarrow> world \<Rightarrow> bool" where
  "loop_inv cfg w \<longleftrightarrow>
     main_inv cfg w \<and> (\<forall>p < next_pid w. currentChild w = Some p \<or> gone w p)"

lemma loop_inv_same:
  assumes "loop_inv cfg w" and "same_child w w'" and "later w w'" and "main_inv cfg w'"
  shows "loop_inv cfg w'"
proof -
  have "currentChild w' = Some p \<or> gone w' p" if "p < next_pid w'" for p
    using that assms(1,2) gone_later [OF _ assms(3)] unfolding loop_inv_def same_child_def by metis
  with assms(4) show ?thesis by (simp add: loop_inv_def)
qed

lemma loop_inv_off_child: "loop_inv cfg w \<Longrightarrow> off_child w w' \<Longrightarrow> loop_inv cfg w'"
  using loop_inv_same [OF _ off_childD(2) off_childD(1)] main_inv_off_child loop_inv_def by blast

lemma loop_inv_background: "loop_inv cfg w \<Longrightarrow> background w w' \<Longrightarrow> loop_inv cfg w'"
  using loop_inv_same [of cfg w w'] main_inv_background loop_inv_def
  by (auto simp: background_def)

text \<open>The record of the child is cleared, the child accounted for.\<close>

lemma loop_inv_cleared:
  assumes "loop_inv cfg w" and "later w w'" and "next_pid w' = next_pid w" and "main_inv cfg w'"
    and "\<And>p. currentChild w = Some p \<Longrightarrow> gone w' p"
  shows "loop_inv cfg w'"
proof -
  have "gone w' p" if "p < next_pid w'" for p
    using that assms(1,3,5) gone_later [OF _ assms(2)] unfolding loop_inv_def by metis
  with assms(4) show ?thesis by (simp add: loop_inv_def)
qed

lemma loop_inv_started:
  assumes "loop_inv cfg w" and "currentChild w = None" and "\<not> restartPending w"
    and "start E cfg w = (Inr p, w1)"
  shows "loop_inv cfg (watch_child p w1)"
proof -
  note s = start_Inr [OF assms(4)]
  have rest: "restartPending w1 = restartPending w" "restartAt w1 = restartAt w"
    "crashTimestamps w1 = crashTimestamps w" "proc_exit w1 = proc_exit w"
    using assms(4) by (auto simp: start_def Let_def split: if_splits)
  have l: "later w w1" using later_start [of w E cfg] assms(4) by simp
  then have n: "now w \<le> now w1" by (rule later_now)
  have m: "main_inv cfg w" using assms(1) by (simp add: loop_inv_def)
  have "main_inv cfg (watch_child p w1)"
    using m s rest n assms(3) by (fastforce simp: main_inv_def watch_child_def)
  moreover have "currentChild (watch_child p w1) = Some q \<or> gone (watch_child p w1) q"
    if "q < next_pid (watch_child p w1)" for q
  proof (cases "q = p")
    case False
    with that s have "q < next_pid w" by (simp add: watch_child_def)
    with assms(1,2) have "gone w q" by (auto simp: loop_inv_def)
    then show ?thesis using gone_later [OF _ later_trans [OF l later_watch_child]] by blast
  qed (simp add: watch_child_def)
  ultimately show ?thesis by (simp add: loop_inv_def)
qed

lemma loop_inv_exit: "loop_inv cfg w \<Longrightarrow> loop_inv cfg (exit_process code w)"
  by (auto simp: loop_inv_def main_inv_def exit_process_def gone_def)

lemma loop_inv_emit: "loop_inv cfg w \<Longrightarrow> loop_inv cfg (emit e w)"
  by (rule loop_inv_off_child) auto

lemma loop_inv_start_failed:
  assumes "loop_inv cfg w" and "currentChild w = None" and "start E cfg w = (Inl e, w1)"
  shows "loop_inv cfg w1"
proof -
  note s = start_Inl [OF assms(3)]
  have l: "later w w1" using later_start [of w E cfg] assms(3) by simp
  have f: "restartPending w1 = restartPending w" "restartAt w1 = restartAt w"
    "crashTimestamps w1 = crashTimestamps w" "proc_exit w1 = proc_exit w"
    using assms(3) by (auto simp: start_def Let_def split: if_splits)
  have m: "main_inv cfg w" using assms(1) by (simp add: loop_inv_def)
  have "cleared w1" using m s assms(2) by (simp add: cleared_def main_inv_def)
  note mi = main_inv_cleared [OF m this later_now [OF l] f]
  have n: "next_pid w1 = next_pid w" using s by blast
  show ?thesis
    by (rule loop_inv_cleared [OF assms(1) l n mi]) (simp add: assms(2))
qed

lemma loop_inv_startPostgres:
  assumes "loop_inv cfg w" and "currentChild w = None" and "\<not> restartPending w"
  shows "loop_inv cfg (startPostgres E cfg w)"
proof (cases rule: startPostgres_cases [of w E cfg])
  case left_stopped
  with assms(1) show ?thesis by (rule loop_inv_off_child)
next
  case (spawn_failed w2 w3 e)
  have "loop_inv cfg w2" "currentChild w2 = None"
    using loop_inv_off_child [OF assms(1) spawn_failed(1)] off_childD(14) [OF spawn_failed(1)] assms(2)
    by simp_all
  from loop_inv_start_failed [OF this spawn_failed(2)] show ?thesis
    unfolding spawn_failed(3) by (rule loop_inv_exit)
next
  case (started w1 w2 w3 p)
  have "loop_inv cfg w2" "currentChild w2 = None" "\<not> restartPending w2"
    using loop_inv_off_child [OF assms(1) started(3)] off_childD(3,14) [OF started(3)] assms(2,3)
    by simp_all
  from loop_inv_started [OF this started(4)] show ?thesis unfolding started(5) .
qed

section \<open>Every step keeps it\<close>

lemma off_child_persistState [simp, intro]: "off_child w (persistState E cfg w)"
  by (auto simp: persistState_def savePersistedState_def replace_file_def Let_def intro!: off_child_updates
      split: option.splits)

lemma off_child_initPersistentState [simp, intro]: "off_child w (initPersistentState E cfg w)"
proof -
  have "off_child w (persistState E cfg ((tick E w)\<lparr>met := c\<rparr>))" for c
    by (rule off_child_trans [OF off_child_updates(2) [OF off_child_basic(1)] off_child_persistState])
  then show ?thesis
    by (auto simp: initPersistentState_def loadPersistedState_def Let_def split: option.splits)
qed

lemma loop_inv_forget:
  assumes "loop_inv cfg w" and "\<And>p. currentChild w = Some p \<Longrightarrow> gone w p"
  shows "loop_inv cfg (forget_child w)"
proof -
  have m: "main_inv cfg w" using assms(1) by (simp add: loop_inv_def)
  have mi: "main_inv cfg (forget_child w)"
    by (rule main_inv_cleared [OF m]) (simp_all add: forget_child_def cleared_def)
  show ?thesis
    by (rule loop_inv_cleared [OF assms(1) later_forget_child _ mi])
       (use assms(2) in \<open>simp_all add: forget_child_def gone_def\<close>)
qed

text \<open>
  Stopping for good, forced where the first way fails. The server is gone after it, unless the kernel
  refused the forced kill too; every other server was gone before.
\<close>

lemma stop_or_force_accounts:
  assumes "loop_inv cfg w" and "currentChild w = Some p"
    and "stopper stop" and "accounting_stopper stop" and "stop p w = (r, w1)"
    and w': "w' = stop_or_force E cfg' p sig (r, w1)"
  shows "main_inv cfg w'" and "cleared w'" and "later w w'" and "next_pid w' = next_pid w"
    and "\<forall>q < next_pid w. gone w' q \<or> kill_refused w w' q"
proof -
  have m: "main_inv cfg w" using assms(1) by (simp add: loop_inv_def)
  have sup: "sup_proc w = Some p" using m assms(2) by (simp add: main_inv_def)
  note co = child_onlyD [OF stopper.frame [OF assms(3,5)]]
  obtain s w2 where f: "stopLocal E cfg' p sig w1 = (s, w2)" by (rule prod.exhaust)
  have "child_only w1 w2" using child_only_stopLocal [of w1 E cfg' p sig] f by simp
  note co2 = child_onlyD [OF this]
  define v where "v = (if is_ok r then w1 else w2)"
  have end_world: "w' = forget_child v"
    unfolding w' v_def using f by (cases r) (simp_all add: stop_or_force_def coordinateHandover_def)
  have lv: "later w v" "next_pid v = next_pid w"
    using co(1,9) co2(1,9) later_trans by (auto simp: v_def)
  have m1: "main_inv cfg w1" by (rule stopper.keeps_inv [OF assms(3,5) m])
  have "main_inv cfg v" using m1 local_stop.keeps_inv [OF f m1] by (simp add: v_def)
  then show "main_inv cfg w'"
    unfolding end_world by (rule main_inv_cleared) (simp_all add: forget_child_def cleared_def)
  show "cleared w'" by (simp add: end_world forget_child_def cleared_def)
  show l: "later w w'" unfolding end_world by (rule later_trans [OF lv(1) later_forget_child])
  show "next_pid w' = next_pid w" using lv(2) by (simp add: end_world forget_child_def)
  have "gone v p \<or> EvKillRefused p \<in> set (fresh_events w v)"
  proof (cases r)
    case (Inr u)
    with stopper.stop_ok [OF assms(3)] assms(5) have "cleared w1" by blast
    with accounting_stopper.stop_accounts [OF assms(4,5,2) sup] Inr show ?thesis
      by (auto simp: cleared_def v_def)
  next
    case (Inl e)
    have "sup_proc w1 = Some p" using co(8) sup by simp
    from stopLocal_gone [OF f this] Inl show ?thesis
      using fresh_events_trans [OF co(1) co2(1)] by (auto simp: v_def)
  qed
  then have p: "gone w' p \<or> kill_refused w w' p"
    using assms(2) by (auto simp: end_world gone_def kill_refused_def forget_child_def fresh_events_def)
  show "\<forall>q < next_pid w. gone w' q \<or> kill_refused w w' q"
  proof (intro allI impI)
    fix q assume "q < next_pid w"
    with assms(1,2) have "q = p \<or> gone w q" by (auto simp: loop_inv_def)
    with p gone_later [OF _ l] show "gone w' q \<or> kill_refused w w' q" by blast
  qed
qed

lemma handleTerminationSignal_effect:
  assumes "handleTerminationSignal E cfg sig w = (code, w')" and "loop_inv cfg w"
  shows "main_inv cfg w' \<and> cleared w' \<and> later w w' \<and> next_pid w' = next_pid w \<and>
    (\<forall>q < next_pid w. gone w' q \<or> kill_refused w w' q) \<and>
    code = (if currentChild w \<noteq> None \<and> ShutdownMode cfg = ''reboot''
            then exitCodeSwitchoverRestart else 0)"
proof (cases "currentChild w")
  case None
  with assms have "w' = w" "code = 0" by (simp_all add: handleTerminationSignal_def)
  moreover have "cleared w" using None assms(2) by (simp add: loop_inv_def main_inv_def cleared_def)
  ultimately show ?thesis using assms(2) None by (simp add: loop_inv_def)
next
  case (Some p)
  define reboot where "reboot \<longleftrightarrow> ShutdownMode cfg = ''reboot''"
  define stop where "stop = (if reboot then (\<lambda>p. coordinateReboot E cfg p sig)
    else (\<lambda>p. coordinateHandover E cfg p sig (ShutdownPolicy cfg)))"
  obtain r w1 where s: "stop p w = (r, w1)" by (rule prod.exhaust)
  have st: "stopper stop" "accounting_stopper stop"
    unfolding stop_def
    using handover_stop.stopper_axioms reboot_stop.stopper_axioms
      handover_stop.accounting_stopper_axioms reboot_stop.accounting_stopper_axioms by simp_all
  have w': "w' = stop_or_force E cfg p sig (r, w1)"
    "code = (if reboot then exitCodeSwitchoverRestart else 0)"
    using assms(1) Some s by (auto simp: handleTerminationSignal_def stop_def reboot_def split: if_splits)
  from stop_or_force_accounts [OF assms(2) Some st s w'(1)] w'(2) Some show ?thesis
    by (simp add: reboot_def)
qed

section \<open>Crashes, restarts and requests keep it\<close>

lemma record_crash_le: "\<forall>x \<in> set ts. x \<le> t \<Longrightarrow> \<forall>x \<in> set (record_crash d ts t). x \<le> t"
  by (auto simp: record_crash_def)

lemma loop_inv_backoff:
  assumes "loop_inv cfg w" and "currentChild w = None"
    and "int (length (record_crash d (crashTimestamps w) (now w))) \<le> PostgresRestartLimit cfg"
  shows "loop_inv cfg (w\<lparr>crashTimestamps := record_crash d (crashTimestamps w) (now w),
    restartPending := True, restartAt := Some t\<rparr>)"
  using assms record_crash_le [of "crashTimestamps w" "now w" d]
  by (auto simp: loop_inv_def main_inv_def gone_def)

lemma loop_inv_over_budget:
  assumes "loop_inv cfg w"
  shows "loop_inv cfg (exit_process code (w\<lparr>crashTimestamps := record_crash d (crashTimestamps w) (now w)\<rparr>))"
  using assms record_crash_le [of "crashTimestamps w" "now w" d]
  by (auto simp: loop_inv_def main_inv_def gone_def exit_process_def)

text \<open>The world in which the budget is looked at: the child forgotten, the crash counted and saved.\<close>

definition noted_crash :: "env \<Rightarrow> config \<Rightarrow> nat \<Rightarrow> int \<Rightarrow> world \<Rightarrow> world" where
  "noted_crash E cfg p code w =
     persistState E cfg (recordPostgresCrash (forget_child (emit (EvCrash p code) w)))"

lemma noted_crash_off_child:
  "off_child (forget_child (emit (EvCrash p code) w)) (noted_crash E cfg p code w)"
  unfolding noted_crash_def recordPostgresCrash_def
  by (rule off_child_trans [OF off_child_updates(2) [OF off_child_refl] off_child_persistState])

lemma noted_crash_facts:
  "crashTimestamps (noted_crash E cfg p code w) = crashTimestamps w"
  "proc_exit (noted_crash E cfg p code w) = proc_exit w"
  "currentChild (noted_crash E cfg p code w) = None"
  "restartPending (noted_crash E cfg p code w) = restartPending w"
  "now w \<le> now (noted_crash E cfg p code w)"
  using off_childD [OF noted_crash_off_child [of p code w E cfg]]
    later_now [OF off_childD(1) [OF noted_crash_off_child [of p code w E cfg]]]
  by (simp_all add: forget_child_def)

lemma loop_inv_noted_crash:
  assumes "loop_inv cfg w" and "currentChild w = Some p" and "exit_of w p = Some code"
  shows "loop_inv cfg (noted_crash E cfg p code w)"
proof -
  have "loop_inv cfg (forget_child (emit (EvCrash p code) w))"
    by (rule loop_inv_forget [OF loop_inv_emit [OF assms(1)]])
       (use assms(2,3) in \<open>simp add: gone_def\<close>)
  then show ?thesis by (rule loop_inv_off_child [OF _ noted_crash_off_child])
qed

lemma handle_crash_cases:
  obtains (gives_up) "handle_crash E cfg p code w = exit_process code (noted_crash E cfg p code w)"
      "PostgresRestartLimit cfg = 0"
    | (over) d where "d = PostgresRestartWindow cfg" "PostgresRestartLimit cfg \<noteq> 0"
      "handle_crash E cfg p code w = exit_process code ((noted_crash E cfg p code w)
         \<lparr>crashTimestamps := record_crash d (crashTimestamps w) (now (noted_crash E cfg p code w))\<rparr>)"
      "PostgresRestartLimit cfg
         < int (length (record_crash d (crashTimestamps w) (now (noted_crash E cfg p code w))))"
    | (backoff) d t where "d = PostgresRestartWindow cfg" "PostgresRestartLimit cfg \<noteq> 0"
      "t = now (noted_crash E cfg p code w) + PostgresRestartBackoff cfg"
      "handle_crash E cfg p code w = (noted_crash E cfg p code w)
         \<lparr>crashTimestamps := record_crash d (crashTimestamps w) (now (noted_crash E cfg p code w)),
          restartPending := True, restartAt := Some t\<rparr>"
      "int (length (record_crash d (crashTimestamps w) (now (noted_crash E cfg p code w))))
         \<le> PostgresRestartLimit cfg"
  using that noted_crash_facts(1) [of E cfg p code w]
  unfolding handle_crash_def recordCrashAndCheckLimit_def noted_crash_def [symmetric] Let_def
  by (simp split: if_splits) (meson linorder_not_le)

lemma loop_inv_handle_crash:
  assumes "loop_inv cfg w" and "currentChild w = Some p" and "exit_of w p = Some code"
  shows "loop_inv cfg (handle_crash E cfg p code w)"
proof -
  note i = loop_inv_noted_crash [OF assms, of E]
  show ?thesis
  proof (cases rule: handle_crash_cases [of E cfg p code w])
    case gives_up
    then show ?thesis using loop_inv_exit [OF i] by simp
  next
    case (over d)
    then show ?thesis using loop_inv_over_budget [OF i] by (simp add: noted_crash_facts)
  next
    case (backoff d t)
    then show ?thesis using loop_inv_backoff [OF i, of d t] by (simp add: noted_crash_facts)
  qed
qed

lemma loop_inv_restart_due:
  assumes "loop_inv cfg w" and "restartAt w = Some t"
  shows "loop_inv cfg (w\<lparr>restartAt := None, restartPending := False, met := c\<rparr>) \<and> currentChild w = None"
  using assms by (auto simp: loop_inv_def main_inv_def gone_def)

lemma handle_restart_eq:
  assumes "currentChild w = None"
  shows "\<exists>c u. off_child (w\<lparr>restartAt := None, restartPending := False, met := c\<rparr>) u \<and>
    handle_restart E cfg w = (if currentChild (startPostgres E cfg u) = None
      then exit_process 1 (startPostgres E cfg u) else startPostgres E cfg u)"
proof -
  define c where "c = (met w)\<lparr>postgresRestartsCounter := postgresRestartsCounter (met w) + 1\<rparr>"
  define v where "v = (emit EvRestart (w\<lparr>restartAt := None, restartPending := False\<rparr>))\<lparr>met := c\<rparr>"
  have "off_child (w\<lparr>restartAt := None, restartPending := False, met := c\<rparr>) v"
    by (auto simp: v_def emit_def off_child_def same_child_def later_def)
  then have "off_child (w\<lparr>restartAt := None, restartPending := False, met := c\<rparr>) (persistState E cfg v)"
    by (rule off_child_trans) simp
  moreover have "handle_restart E cfg w = (if currentChild (startPostgres E cfg (persistState E cfg v)) = None
      then exit_process 1 (startPostgres E cfg (persistState E cfg v))
      else startPostgres E cfg (persistState E cfg v))"
    using assms by (simp add: handle_restart_def Let_def v_def c_def)
  ultimately show ?thesis by blast
qed

lemma loop_inv_handle_restart:
  assumes "loop_inv cfg w" and "restartAt w = Some t"
  shows "loop_inv cfg (handle_restart E cfg w)"
proof -
  from loop_inv_restart_due [OF assms] have none: "currentChild w = None" by blast
  then obtain c u where u: "off_child (w\<lparr>restartAt := None, restartPending := False, met := c\<rparr>) u"
    "handle_restart E cfg w = (if currentChild (startPostgres E cfg u) = None
      then exit_process 1 (startPostgres E cfg u) else startPostgres E cfg u)"
    using handle_restart_eq by blast
  have "loop_inv cfg u"
    using loop_inv_off_child [OF _ u(1)] loop_inv_restart_due [OF assms] by blast
  moreover have "currentChild u = None" "\<not> restartPending u"
    using off_childD(3,14) [OF u(1)] none by simp_all
  ultimately have i: "loop_inv cfg (startPostgres E cfg u)" by (rule loop_inv_startPostgres)
  show ?thesis unfolding u(2) using i loop_inv_exit [OF i] by simp
qed

lemma request_rejoin_cases:
  assumes "request_rejoin E cfg w = (r, w')"
  obtains (refused) e where "r = Inl e" "w' = w" "restartPending w \<or> currentChild w \<noteq> None"
    | (rejoin_failed) e where "r = Inl e" "off_child w w'" "currentChild w = None" "\<not> restartPending w"
    | (not_started) e k w1 where "r = Inl e" "off_child w w1" "start E cfg w1 = (Inl k, w')"
        "currentChild w = None" "\<not> restartPending w"
    | (started) p w1 w2 where "r = Inr ()" "rejoinAsStandby E cfg w = (Inr (), w1)" "off_child w w1"
        "start E cfg w1 = (Inr p, w2)" "w' = watch_child p w2" "currentChild w = None" "\<not> restartPending w"
proof -
  obtain j w1 where j: "rejoinAsStandby E cfg w = (j, w1)" by (rule prod.exhaust)
  obtain s w2 where s: "start E cfg w1 = (s, w2)" by (rule prod.exhaust)
  have o: "off_child w w1" using off_child_rejoinAsStandby [of w E cfg] j by simp
  show thesis
  proof (cases "restartPending w \<or> currentChild w \<noteq> None")
    case True
    with assms show thesis by (auto simp: request_rejoin_def intro: refused split: if_splits)
  next
    case False
    with assms j s o show thesis
      by (cases j; cases s) (auto simp: request_rejoin_def intro: rejoin_failed not_started started)
  qed
qed

lemma loop_inv_request_rejoin:
  assumes "loop_inv cfg w" and "request_rejoin E cfg w = (r, w')"
  shows "loop_inv cfg w'"
  using assms(2)
proof (cases rule: request_rejoin_cases)
  case (refused e)
  with assms(1) show ?thesis by simp
next
  case (rejoin_failed e)
  show ?thesis by (rule loop_inv_off_child [OF assms(1) rejoin_failed(2)])
next
  case (not_started e k w1)
  have "currentChild w1 = None" using off_childD(14) [OF not_started(2)] not_started(4) by simp
  with loop_inv_off_child [OF assms(1) not_started(2)] show ?thesis
    using loop_inv_start_failed not_started(3) by blast
next
  case (started p w1 w2)
  have "currentChild w1 = None" "\<not> restartPending w1"
    using off_childD(3,14) [OF started(3)] started(6,7) by simp_all
  with loop_inv_off_child [OF assms(1) started(3)] show ?thesis
    using loop_inv_started started(4,5) by blast
qed

lemma request_start_cases:
  assumes "request_start E cfg w = (r, w')"
  obtains (refused) e where "r = Inl e" "w' = w" "restartPending w \<or> currentChild w \<noteq> None"
    | (ran) "w' = startPostgres E cfg w" "currentChild w = None" "\<not> restartPending w"
        "is_ok r \<longleftrightarrow> currentChild w' \<noteq> None"
  using assms by (auto simp: request_start_def Let_def split: if_splits)

lemma loop_inv_request_start:
  assumes "loop_inv cfg w" and "request_start E cfg w = (r, w')"
  shows "loop_inv cfg w'"
  using assms(2) by (cases rule: request_start_cases)
    (use assms(1) loop_inv_startPostgres in simp_all)

lemma loop_inv_request_stop:
  assumes "loop_inv cfg w" and "accounting_stopper stop" and "request_stop stop w = (r, w')"
  shows "loop_inv cfg w'"
proof (cases "currentChild w")
  case None
  with assms show ?thesis by (simp add: request_stop_def)
next
  case (Some p)
  have st: "stopper stop" using assms(2) by (simp add: accounting_stopper_def)
  have m: "main_inv cfg w" using assms(1) by (simp add: loop_inv_def)
  then have sup: "sup_proc w = Some p" using Some by (simp add: main_inv_def)
  have m': "main_inv cfg w'" using stopper.request_keeps_inv [OF st m] assms(3) by simp
  note ans = stopper.request_answer [OF st assms(3)]
  then have co: "child_only w w'" by blast
  from ans Some have sc: "same_child w w' \<or> cleared w'" by (auto split: sum.splits)
  note acc = accounting_stopper.request_accounts [OF assms(2,3) Some sup]
  show ?thesis
  proof (cases "currentChild w' = Some p")
    case True
    with sc have "same_child w w'" by (auto simp: cleared_def)
    from loop_inv_same [OF assms(1) this child_onlyD(1) [OF co] m'] show ?thesis .
  next
    case False
    with acc Some have "\<And>q. currentChild w = Some q \<Longrightarrow> gone w' q" by simp
    from loop_inv_cleared [OF assms(1) child_onlyD(1) [OF co] child_onlyD(9) [OF co] m' this]
    show ?thesis .
  qed
qed

lemma handleHandoverRequest_cases:
  assumes "handleHandoverRequest E cfg kind w = (r, w')"
  obtains (stop) stop where "accounting_stopper stop" "request_stop stop w = (r, w')"
      "kind \<in> {''shutdown'', ''switchover'', ''maintenance'', ''reboot''}"
    | (rejoin) "kind = ''rejoin''" "request_rejoin E cfg w = (r, w')"
    | (start) "kind = ''start''" "request_start E cfg w = (r, w')"
    | (unknown) e where "r = Inl e" "w' = w"
proof (cases "kind \<in> {''shutdown'', ''switchover'', ''maintenance''}")
  case True
  with assms show thesis
    by (intro stop [OF handover_stop.accounting_stopper_axioms]) (auto simp: handleHandoverRequest_def)
next
  case False
  with assms show thesis
    using stop [OF reboot_stop.accounting_stopper_axioms] rejoin start unknown
    by (auto simp: handleHandoverRequest_def split: if_splits)
qed

lemma loop_inv_handleHandoverRequest:
  assumes "loop_inv cfg w" and "handleHandoverRequest E cfg kind w = (r, w')"
  shows "loop_inv cfg w'"
  using assms(2)
proof (cases rule: handleHandoverRequest_cases)
  case (stop s)
  show ?thesis by (rule loop_inv_request_stop [OF assms(1) stop(1,2)])
next
  case rejoin
  show ?thesis by (rule loop_inv_request_rejoin [OF assms(1) rejoin(2)])
next
  case start
  show ?thesis by (rule loop_inv_request_start [OF assms(1) start(2)])
next
  case (unknown e)
  with assms(1) show ?thesis by simp
qed

text \<open>
  The invariant of every state, that of a process that has ended included: only an ended process may
  have left a server behind, one whose kill was refused.
\<close>

definition reach_inv :: "config \<Rightarrow> world \<Rightarrow> bool" where
  "reach_inv cfg w \<longleftrightarrow> main_inv cfg w \<and>
     (\<forall>p < next_pid w. currentChild w = Some p \<or> gone w p \<or>
        proc_exit w \<noteq> None \<and> EvKillRefused p \<in> set (trace w))"

lemma reach_inv_loop_inv: "loop_inv cfg w \<Longrightarrow> reach_inv cfg w"
  by (auto simp: loop_inv_def reach_inv_def)

lemma loop_inv_reach_inv: "reach_inv cfg w \<Longrightarrow> proc_exit w = None \<Longrightarrow> loop_inv cfg w"
  by (auto simp: loop_inv_def reach_inv_def)

lemma reach_inv_signalled:
  assumes "handleTerminationSignal E cfg sig w = (code, w')" and "loop_inv cfg w"
  shows "reach_inv cfg (exit_process c w')"
proof -
  note e = handleTerminationSignal_effect [OF assms]
  then have "\<forall>q < next_pid w'. gone w' q \<or> EvKillRefused q \<in> set (trace w')"
    by (auto simp: kill_refused_def fresh_events_def dest: in_set_dropD)
  with e show ?thesis
    by (auto simp: reach_inv_def main_inv_def exit_process_def gone_def)
qed

lemma reach_inv_step:
  assumes "loop_step E cfg w w'" and "loop_inv cfg w"
  shows "reach_inv cfg w'"
  using assms(1)
proof (cases rule: loop_step.cases)
  case other
  then show ?thesis using loop_inv_background [OF assms(2)] reach_inv_loop_inv by blast
next
  case (signalled sig code v)
  with reach_inv_signalled [OF signalled(3) assms(2)] show ?thesis by simp
next
  case (child_done p code)
  with loop_inv_handle_crash [OF assms(2) child_done(3,4)] reach_inv_loop_inv show ?thesis by simp
next
  case (restart t)
  with loop_inv_handle_restart [OF assms(2) restart(3)] reach_inv_loop_inv show ?thesis by simp
next
  case (request kind r v)
  with loop_inv_handleHandoverRequest [OF assms(2) request(3)] show ?thesis
    using loop_inv_emit reach_inv_loop_inv by simp
next
  case (exit_requested code)
  with assms(2) loop_inv_exit reach_inv_loop_inv show ?thesis by simp
qed

lemma loop_inv_init [simp]: "loop_inv cfg (boot_world t d f bs)"
  by (simp add: loop_inv_def main_inv_def boot_world_def init_world_def)

lemma loop_inv_boot: "loop_inv cfg (first_start E cfg (initPersistentState E cfg (boot_world t d f bs)))"
proof -
  define u where "u = initPersistentState E cfg (boot_world t d f bs)"
  have o: "off_child (boot_world t d f bs) u" by (simp add: u_def)
  have "loop_inv cfg u" by (rule loop_inv_off_child [OF loop_inv_init o])
  moreover have "currentChild u = None" "\<not> restartPending u"
    using off_childD(3,14) [OF o] by (simp_all add: boot_world_def init_world_def)
  ultimately have i: "loop_inv cfg (startPostgres E cfg u)" by (rule loop_inv_startPostgres)
  have "loop_inv cfg (ensureRoleAndDatabaseBlocking E cfg (startPostgres E cfg u))"
    by (rule loop_inv_off_child [OF i]) simp
  with i show ?thesis unfolding u_def [symmetric] first_start_def Let_def by simp
qed

lemma reach_inv_reachable: "reachable E cfg w \<Longrightarrow> reach_inv cfg w"
proof (induction rule: reachable.induct)
  case (boot t d f bs)
  show ?case by (rule reach_inv_loop_inv [OF loop_inv_boot])
next
  case (step w w')
  then have "proc_exit w = None" by (auto elim: loop_stepE)
  with step show ?case using reach_inv_step loop_inv_reach_inv by blast
qed

lemma main_inv_reachable: "reachable E cfg w \<Longrightarrow> main_inv cfg w"
  using reach_inv_reachable by (simp add: reach_inv_def)

lemma loop_inv_reachable: "reachable E cfg w \<Longrightarrow> proc_exit w = None \<Longrightarrow> loop_inv cfg w"
  using reach_inv_reachable loop_inv_reach_inv by blast

section \<open>How many servers a step starts\<close>

lemma next_pid_exit [simp]: "next_pid (exit_process code w) = next_pid w"
  by (simp add: exit_process_def)

definition starts_at_most_one :: "world \<Rightarrow> world \<Rightarrow> bool" where
  "starts_at_most_one w w' \<longleftrightarrow>
     next_pid w' = next_pid w \<or>
     currentChild w = None \<and> \<not> restartPending w' \<and> next_pid w' = Suc (next_pid w) \<and>
       currentChild w' = Some (next_pid w)"

lemma starts_at_most_one_startPostgres:
  assumes "currentChild w = None" and "\<not> restartPending w"
  shows "starts_at_most_one w (startPostgres E cfg w)"
proof (cases rule: startPostgres_cases [of w E cfg])
  case left_stopped
  then show ?thesis using off_childD(17) [OF left_stopped] by (simp add: starts_at_most_one_def)
next
  case (spawn_failed w2 w3 e)
  from off_childD(17) [OF spawn_failed(1)] start_Inl [OF spawn_failed(2)] spawn_failed(3)
  show ?thesis by (simp add: starts_at_most_one_def)
next
  case (started w1 w2 w3 p)
  have "restartPending w3 = restartPending w2"
    using started(4) by (auto simp: start_def Let_def split: if_splits)
  with off_childD(3,17) [OF started(3)] start_Inr [OF started(4)] started(5) assms
  show ?thesis by (simp add: watch_child_def starts_at_most_one_def)
qed

lemma next_pid_startPostgres:
  assumes "currentChild w = None" and "currentChild (startPostgres E cfg w) \<noteq> None"
  shows "currentChild (startPostgres E cfg w) = Some (next_pid w)"
proof (cases rule: startPostgres_cases [of w E cfg])
  case left_stopped
  with assms off_childD(14) show ?thesis by simp
next
  case (spawn_failed w2 w3 e)
  from assms off_childD(14) [OF spawn_failed(1)] start_Inl [OF spawn_failed(2)] spawn_failed(3)
  show ?thesis by (simp add: exit_process_def split: if_splits)
next
  case (started w1 w2 w3 p)
  from off_childD(17) [OF started(3)] start_Inr [OF started(4)] started(5)
  show ?thesis by (simp add: watch_child_def)
qed

lemma starts_at_most_one_request:
  assumes "handleHandoverRequest E cfg kind w = (r, w')"
  shows "starts_at_most_one w w'"
  using assms
proof (cases rule: handleHandoverRequest_cases)
  case (stop s)
  have st: "stopper s" using stop(1) by (simp add: accounting_stopper_def)
  from stopper.request_answer [OF st stop(2)] have "child_only w w'" by blast
  from child_onlyD(9) [OF this] show ?thesis by (simp add: starts_at_most_one_def)
next
  case rejoin
  from rejoin(2) show ?thesis
  proof (cases rule: request_rejoin_cases)
    case (refused e)
    then show ?thesis by (simp add: starts_at_most_one_def)
  next
    case (rejoin_failed e)
    from off_childD(17) [OF rejoin_failed(2)] show ?thesis by (simp add: starts_at_most_one_def)
  next
    case (not_started e k w1)
    from off_childD(17) [OF not_started(2)] start_Inl [OF not_started(3)]
    show ?thesis by (simp add: starts_at_most_one_def)
  next
    case (started p w1 w2)
    have "restartPending w2 = restartPending w1"
      using started(4) by (auto simp: start_def Let_def split: if_splits)
    with off_childD(3,17) [OF started(3)] start_Inr [OF started(4)] started(5-)
    show ?thesis by (simp add: watch_child_def starts_at_most_one_def)
  qed
next
  case start
  from start(2) show ?thesis
    by (cases rule: request_start_cases)
       (simp_all add: starts_at_most_one_startPostgres, simp add: starts_at_most_one_def)
next
  case (unknown e)
  then show ?thesis by (simp add: starts_at_most_one_def)
qed

lemma next_pid_stop_or_force:
  assumes "stopper stop" and "stop p w = (r, w1)"
  shows "next_pid (stop_or_force E cfg p sig (r, w1)) = next_pid w"
  using child_onlyD(9) [OF stopper.frame [OF assms]]
    child_onlyD(9) [OF child_only_coordinateHandover [of w1 E cfg p sig "''force''"]]
  by (cases r) (simp_all add: stop_or_force_def forget_child_def)

lemma next_pid_handleTerminationSignal:
  assumes "handleTerminationSignal E cfg sig w = (code, w')"
  shows "next_pid w' = next_pid w"
proof (cases "currentChild w")
  case None
  with assms show ?thesis by (simp add: handleTerminationSignal_def)
next
  case (Some p)
  obtain r v where r: "coordinateReboot E cfg p sig w = (r, v)" by (rule prod.exhaust)
  obtain h u where h: "coordinateHandover E cfg p sig (ShutdownPolicy cfg) w = (h, u)"
    by (rule prod.exhaust)
  from assms Some r h next_pid_stop_or_force [OF reboot_stop.stopper_axioms r]
    next_pid_stop_or_force [OF handover_stop.stopper_axioms h]
  show ?thesis by (auto simp: handleTerminationSignal_def split: if_splits)
qed

lemma next_pid_handle_crash: "next_pid (handle_crash E cfg p code w) = next_pid w"
  using off_childD(17) [OF noted_crash_off_child [of p code w E cfg]]
  by (cases rule: handle_crash_cases [of E cfg p code w]) (simp_all add: forget_child_def)

lemma starts_at_most_one_restart:
  assumes "loop_inv cfg w" and "restartAt w = Some t"
  shows "starts_at_most_one w (handle_restart E cfg w)"
proof -
  from loop_inv_restart_due [OF assms] have none: "currentChild w = None" by blast
  then obtain c u where u: "off_child (w\<lparr>restartAt := None, restartPending := False, met := c\<rparr>) u"
    "handle_restart E cfg w = (if currentChild (startPostgres E cfg u) = None
      then exit_process 1 (startPostgres E cfg u) else startPostgres E cfg u)"
    using handle_restart_eq by blast
  have f: "currentChild u = None" "\<not> restartPending u" "next_pid u = next_pid w"
    using off_childD(3,14,17) [OF u(1)] none by simp_all
  from starts_at_most_one_startPostgres [OF f(1,2), of E cfg] f(3) none show ?thesis
    unfolding u(2) by (auto simp: starts_at_most_one_def)
qed

lemma starts_at_most_one_step:
  assumes "loop_step E cfg w w'" and "loop_inv cfg w"
  shows "starts_at_most_one w w'"
  using assms(1)
proof (cases rule: loop_step.cases)
  case other
  then show ?thesis by (simp add: background_def same_child_def starts_at_most_one_def)
next
  case (signalled sig code v)
  with next_pid_handleTerminationSignal show ?thesis by (simp add: starts_at_most_one_def)
next
  case (child_done p code)
  with next_pid_handle_crash show ?thesis by (simp add: starts_at_most_one_def)
next
  case (restart t)
  with starts_at_most_one_restart [OF assms(2)] show ?thesis by simp
next
  case (request kind r v)
  with starts_at_most_one_request [of E cfg kind w r v] show ?thesis
    by (simp add: starts_at_most_one_def)
next
  case (exit_requested code)
  then show ?thesis by (simp add: starts_at_most_one_def)
qed

end
