(* ===== verification/LoopProps.thy ===== *)
theory LoopProps
  imports MainLoop
begin

text \<open>
  What the main loop guarantees: the invariant of every reachable state, at most one server at a
  time, how a termination signal ends, the crash budget as a sliding window, what a crash and a
  restart lead to, and what the answers to requests say.
\<close>

section \<open>Example: a standby that has started\<close>

definition booted :: world where
  "booted = first_start cloning demo_config
     (initPersistentState cloning demo_config (init_world 0 standby_data))"

lemma booted_reachable: "reachable cloning demo_config booted"
  unfolding booted_def boot_world_empty [symmetric] by (rule reachable.boot)

lemma booted_eval:
  "currentChild booted = Some 0" "next_pid booted = 1" "crashTimestamps booted = []"
  "restartPending booted = False" "proc_exit booted = None" "exit_of booted 0 = None"
  "now booted = 0" "restartAt booted = None"
  by (simp_all add: booted_def first_start_def evals standby_data_def initPersistentState_def
      ensureRoleAndDatabaseBlocking_def ensure_loop.simps ensure_turn_def ensureRoleAndDatabase_def cloning_def)

text \<open>Its server exits with code 1.\<close>

definition crashed :: world where
  "crashed = booted\<lparr>exit_of := (exit_of booted)(0 \<mapsto> 1)\<rparr>"

lemma crashed_reachable: "reachable cloning demo_config crashed"
proof (rule reachable.step [OF booted_reachable], rule loop_step.other)
  show "background booted crashed"
    by (simp add: background_def crashed_def later_def same_child_def booted_eval)
qed (rule booted_eval)

section \<open>Properties\<close>

text \<open>
  C13. In every state the main loop can reach, from any data directory and under any behaviour of
  the outside: the flag that a server is running agrees with the record of the child, that child is
  the supervisor's process and the youngest process started; a restart is pending exactly while its
  timer is armed, and never beside a recorded child; no crash time lies in the future, and while the
  process runs the crashes remembered are within the restart limit.
\<close>

theorem main_loop_invariant:
  assumes "reachable E cfg w"
  shows "(postgresRunning w \<longleftrightarrow> currentChild w \<noteq> None) \<and>
    (\<forall>p. currentChild w = Some p \<longrightarrow> sup_proc w = Some p \<and> p < next_pid w) \<and>
    (restartPending w \<longleftrightarrow> restartAt w \<noteq> None) \<and>
    (restartPending w \<longrightarrow> currentChild w = None) \<and>
    (\<forall>t \<in> set (crashTimestamps w). t \<le> now w) \<and>
    (proc_exit w = None \<longrightarrow> int (length (crashTimestamps w)) \<le> max 0 (PostgresRestartLimit cfg))"
  using main_inv_reachable [OF assms] by (simp add: main_inv_def)

theorem main_loop_invariant_witness:
  "postgresRunning booted \<and> sup_proc booted = Some 0"
  using main_loop_invariant [OF booted_reachable] by (simp add: booted_eval)

text \<open>
  C14. There is never a second server: in a reachable state every server ever started, except the
  recorded child, has exited or a kill was delivered to it; only a process that has ended may have left
  one behind, after the kernel refused to kill it. A step of the loop starts at most one server, only
  when none is recorded and no restart is left pending, and records it.
\<close>

theorem one_server_at_a_time:
  assumes "reachable E cfg w"
  shows "(\<forall>p < next_pid w. currentChild w = Some p \<or> exit_of w p \<noteq> None \<or> EvKill p \<in> set (trace w) \<or>
      proc_exit w \<noteq> None \<and> EvKillRefused p \<in> set (trace w)) \<and>
    (\<forall>w'. loop_step E cfg w w' \<longrightarrow> next_pid w' = next_pid w \<or>
       currentChild w = None \<and> \<not> restartPending w' \<and> next_pid w' = Suc (next_pid w) \<and>
       currentChild w' = Some (next_pid w))"
proof -
  have "\<forall>p < next_pid w. currentChild w = Some p \<or> exit_of w p \<noteq> None \<or> EvKill p \<in> set (trace w) \<or>
      proc_exit w \<noteq> None \<and> EvKillRefused p \<in> set (trace w)"
    using reach_inv_reachable [OF assms] by (auto simp: reach_inv_def gone_def)
  moreover have "starts_at_most_one w w'" if "loop_step E cfg w w'" for w'
  proof -
    have "proc_exit w = None" using that by (auto elim: loop_stepE)
    from starts_at_most_one_step [OF that loop_inv_reachable [OF assms this]] show ?thesis .
  qed
  ultimately show ?thesis unfolding starts_at_most_one_def by blast
qed

theorem one_server_at_a_time_witness:
  "next_pid (handle_crash cloning demo_config 0 1 crashed) = 1"
proof -
  have "loop_step cloning demo_config crashed (handle_crash cloning demo_config 0 1 crashed)"
    by (rule loop_step.child_done) (simp_all add: crashed_def booted_eval)
  with one_server_at_a_time [OF crashed_reachable] show ?thesis
    by (force simp: crashed_def booted_eval)
qed

text \<open>
  C15. After a termination signal no child is recorded, whatever coordination achieved, and every
  server ever started has exited or a kill was delivered to it. The one exception is the server that
  was running when the signal came, if the kernel refused to kill it while this signal was handled:
  that one may be left running, and the record of it is dropped all the same. The exit code is 0, or
  78 in reboot mode when a server was running: in reboot mode without one the code is 0 all the same.
\<close>

theorem termination_signal_effect:
  assumes "reachable E cfg w" and "proc_exit w = None"
    and "handleTerminationSignal E cfg sig w = (code, w')"
  shows "currentChild w' = None \<and> \<not> postgresRunning w' \<and>
    (\<forall>p < next_pid w'. exit_of w' p \<noteq> None \<or> EvKill p \<in> set (trace w') \<or>
       currentChild w = Some p \<and> EvKillRefused p \<in> set (fresh_events w w')) \<and>
    code = (if ShutdownMode cfg = ''reboot'' \<and> currentChild w \<noteq> None then 78 else 0)"
  using handleTerminationSignal_effect [OF assms(3) loop_inv_reachable [OF assms(1,2)]]
  by (auto simp: cleared_def gone_def kill_refused_def exitCodeSwitchoverRestart_def)

theorem termination_signal_effect_witness:
  "currentChild (snd (handleTerminationSignal cloning demo_config SIGTERM booted)) = None \<and>
    fst (handleTerminationSignal cloning demo_config SIGTERM booted) = 0"
  using termination_signal_effect [OF booted_reachable booted_eval(5) prod.collapse [symmetric], of SIGTERM]
  by (simp add: demo_config_def)

lemma fold_record_crash:
  assumes "sorted (ts @ [t])"
  shows "foldl (record_crash d) [] (ts @ [t]) = filter (\<lambda>x. t - d < x) ts @ [t]"
  using assms
proof (induction ts arbitrary: t rule: rev_induct)
  case Nil
  then show ?case by (simp add: record_crash_def)
next
  case (snoc s ts)
  then have "sorted (ts @ [s])" "s \<le> t" by (simp_all add: sorted_append)
  then have "foldl (record_crash d) [] (ts @ [s]) = filter (\<lambda>x. s - d < x) ts @ [s]"
    using snoc.IH by blast
  moreover have w: "filter (\<lambda>x. t - d < x) (filter (\<lambda>x. s - d < x) ts) = filter (\<lambda>x. t - d < x) ts"
    using \<open>s \<le> t\<close> by (intro filter_filter_weaker) linarith
  ultimately have "foldl (record_crash d) [] ((ts @ [s]) @ [t]) =
      record_crash d (filter (\<lambda>x. s - d < x) ts @ [s]) t" by simp
  also have "\<dots> = filter (\<lambda>x. t - d < x) (ts @ [s]) @ [t]"
    using w by (simp add: record_crash_def)
  finally show ?case .
qed

text \<open>
  C16. The list kept by pruning at every crash is the sliding window over the whole history: after
  crashes at times that never go back, what \<open>recordCrashAndCheckLimit\<close> allows is decided by the
  number of crashes of the whole history younger than the window.
\<close>

theorem crash_budget_is_sliding_window:
  assumes "sorted (ts @ [now w])"
    and "crashTimestamps w = foldl (record_crash (PostgresRestartWindow cfg)) [] ts"
  shows "fst (recordCrashAndCheckLimit cfg w) \<longleftrightarrow>
    int (length (filter (\<lambda>x. now w - PostgresRestartWindow cfg < x) ts)) + 1 \<le> PostgresRestartLimit cfg"
  using fold_record_crash [OF assms(1), of "PostgresRestartWindow cfg"] assms(2)
  by (auto simp: recordCrashAndCheckLimit_def Let_def)

theorem crash_budget_is_sliding_window_witness:
  "\<not> fst (recordCrashAndCheckLimit demo_config
     ((init_world (11 * minute) standby_data)\<lparr>crashTimestamps :=
        foldl (record_crash (10 * minute)) [] [0, 2 * minute, 3 * minute, 4 * minute, 5 * minute, 6 * minute]\<rparr>))"
  using crash_budget_is_sliding_window [of "[0, 2 * minute, 3 * minute, 4 * minute, 5 * minute, 6 * minute]"
      "(init_world (11 * minute) standby_data)\<lparr>crashTimestamps :=
        foldl (record_crash (10 * minute)) [] [0, 2 * minute, 3 * minute, 4 * minute, 5 * minute, 6 * minute]\<rparr>"
      demo_config]
  by (simp add: init_world_def demo_config_def time_units)

text \<open>
  A crash of the recorded server ends either with the process exiting with the server's code,
  exactly when restarts are disabled or the budget is used up, or with one restart armed for the
  backoff time from then; no server is left recorded and none is started.
\<close>

theorem crash_exits_or_arms_restart:
  assumes "reachable E cfg w" and "proc_exit w = None" and "currentChild w = Some p"
  shows "\<exists>t. now w \<le> t \<and>
    (if PostgresRestartLimit cfg = 0 \<or> PostgresRestartLimit cfg <
          1 + int (length (filter (\<lambda>x. t - PostgresRestartWindow cfg < x) (crashTimestamps w)))
     then proc_exit (handle_crash E cfg p code w) = Some code
     else proc_exit (handle_crash E cfg p code w) = None \<and>
       restartPending (handle_crash E cfg p code w) \<and>
       restartAt (handle_crash E cfg p code w) = Some (t + PostgresRestartBackoff cfg)) \<and>
    currentChild (handle_crash E cfg p code w) = None \<and>
    next_pid (handle_crash E cfg p code w) = next_pid w"
proof -
  define t where "t = now (noted_crash E cfg p code w)"
  note n = noted_crash_facts [where E = E and cfg = cfg and p = p and code = code and w = w, folded t_def] next_pid_handle_crash [of E cfg p code w]
  have len: "int (length (record_crash (PostgresRestartWindow cfg) (crashTimestamps w) t)) =
      1 + int (length (filter (\<lambda>x. t - PostgresRestartWindow cfg < x) (crashTimestamps w)))"
    by (simp add: record_crash_def)
  show ?thesis
    by (cases rule: handle_crash_cases [of E cfg p code w])
       (intro exI [of _ t]; use n assms(2) len [folded t_def] in
         \<open>simp add: exit_process_def t_def [symmetric]\<close>)+
qed

theorem crash_exits_or_arms_restart_witness:
  "\<exists>t \<ge> 0. restartAt (handle_crash cloning demo_config 0 1 booted) = Some (t + 5 * second)"
proof -
  from crash_exits_or_arms_restart [OF booted_reachable booted_eval(5,1), of 1]
  obtain t where "0 \<le> t" "restartAt (handle_crash cloning demo_config 0 1 booted) = Some (t + 5 * second)"
    by (auto simp: booted_eval) (simp add: demo_config_def)
  then show ?thesis by blast
qed

text \<open>A request that stops: on success the server it stopped is gone.\<close>

lemma stopped_server_gone:
  assumes "reachable E cfg w" and "accounting_stopper s" and "request_stop s w = (Inr (), w')"
  shows "\<exists>p. currentChild w = Some p \<and> currentChild w' = None \<and> gone w' p"
proof -
  have "stopper s" using assms(2) by (simp add: accounting_stopper_def)
  from stopper.request_answer [OF this assms(3)] obtain p where
    p: "currentChild w = Some p" "currentChild w' = None" by (auto simp: cleared_def)
  moreover have "sup_proc w = Some p"
    using main_inv_reachable [OF assms(1)] p(1) by (simp add: main_inv_def)
  ultimately show ?thesis
    using accounting_stopper.request_accounts [OF assms(2,3)] by fastforce
qed

text \<open>
  C17. The answer to a request tells the state. A shutdown, switchover, maintenance or reboot
  request is answered with success only when a server was recorded, and then it is no longer
  recorded and has exited or a kill was delivered to it. A start or rejoin is answered with success only when
  no server was recorded and no restart pending, and then a new server is recorded; after a rejoin
  its data directory is a standby's. Refusals for a pending restart or a running server change
  nothing.
\<close>

theorem request_answer_tells_state:
  assumes "reachable E cfg w" and "handleHandoverRequest E cfg kind w = (r, w')"
    and "clone_is_standby E"
  shows "(r = Inr () \<and> kind \<notin> {''start'', ''rejoin''} \<longrightarrow>
      (\<exists>p. currentChild w = Some p \<and> currentChild w' = None \<and> (exit_of w' p \<noteq> None \<or> EvKill p \<in> set (trace w')))) \<and>
    (r = Inr () \<and> kind \<in> {''start'', ''rejoin''} \<longrightarrow>
      currentChild w = None \<and> \<not> restartPending w \<and> currentChild w' = Some (next_pid w) \<and>
      (kind = ''rejoin'' \<longrightarrow> pgdata w' ''standby.signal'' \<noteq> None)) \<and>
    (kind \<in> {''start'', ''rejoin''} \<and> (restartPending w \<or> currentChild w \<noteq> None) \<longrightarrow>
      r \<noteq> Inr () \<and> w' = w)"
  using assms(2)
proof (cases rule: handleHandoverRequest_cases)
  case (stop s)
  with stopped_server_gone [OF assms(1) stop(1)] show ?thesis by (auto simp: gone_def)
next
  case rejoin
  from rejoin(2) show ?thesis
  proof (cases rule: request_rejoin_cases)
    case (started p w1 w2)
    have "pgdata w1 ''standby.signal'' \<noteq> None"
      using rejoin_writes_signal [OF started(2) assms(3)] by simp
    moreover have "pgdata w2 = pgdata w1"
      using started(4) by (auto simp: start_def Let_def split: if_splits)
    ultimately show ?thesis
      using started off_childD(17) [OF started(3)] start_Inr [OF started(4)] rejoin(1)
      by (simp add: watch_child_def)
  qed simp_all
next
  case start
  from start(2) show ?thesis
  proof (cases rule: request_start_cases)
    case (refused e)
    with start(1) show ?thesis by simp
  next
    case ran
    from starts_at_most_one_startPostgres [OF ran(2,3), of E cfg] next_pid_startPostgres [OF ran(2), of E cfg]
    show ?thesis using ran start(1) by (auto simp: starts_at_most_one_def is_ok_unit)
  qed
next
  case (unknown e)
  then show ?thesis by (auto simp: handleHandoverRequest_def)
qed

theorem request_answer_tells_state_witness:
  "fst (handleHandoverRequest cloning demo_config ''start'' booted) \<noteq> Inr () \<and>
    snd (handleHandoverRequest cloning demo_config ''start'' booted) = booted"
  using request_answer_tells_state [OF booted_reachable prod.collapse [symmetric] cloning_is_standby,
      of "''start''"]
  by (simp add: booted_eval)

end
