(* ===== verification/ConfigProps.thy ===== *)
theory ConfigProps
  imports Config
begin

text \<open>
  What \<open>loadConfig\<close> promises: whatever the environment holds, an accepted configuration is
  well-formed; two nodes of a pair derive each other as peer; the staged copies of the TLS files
  have their sources' contents; the documented defaults are the ones used; secrets are not printed.
\<close>

section \<open>The stages, one by one\<close>

lemma envOrDefault_nonempty: "def \<noteq> [] \<Longrightarrow> envOrDefault sys key def \<noteq> []"
  by (simp add: envOrDefault_def Let_def)

lemma add_candidate_nonempty: "[] \<notin> set found \<Longrightarrow> [] \<notin> set (add_candidate sys p found)"
  by (auto simp: add_candidate_def)

lemma detectPostgresBin_nonempty:
  assumes "detectPostgresBin sys = Inr p"
  shows "p \<noteq> []"
proof -
  have "[] \<notin> set (fold (add_candidate sys) ps found)" if "[] \<notin> set found" for ps found
    using that by (induction ps arbitrary: found) (simp_all add: add_candidate_nonempty)
  note some = this
  define found where "found = (case LookPath sys ''postgres'' of
      None \<Rightarrow> fold (add_candidate sys) (Glob sys ''/usr/lib/postgresql/*/bin/postgres'') []
    | Some q \<Rightarrow> add_candidate sys q (fold (add_candidate sys) (Glob sys ''/usr/lib/postgresql/*/bin/postgres'') []))"
  have "found = [p]"
    using assms unfolding detectPostgresBin_def Let_def found_def [symmetric]
    by (cases found; cases "tl found") auto
  moreover have "[] \<notin> set found"
    using some [of "[]"] add_candidate_nonempty by (simp add: found_def split: option.split)
  ultimately show ?thesis by auto
qed

text \<open>An accepted value came through every reader and past every check.\<close>

lemma bindE_E: "bindE r f = Inr y \<Longrightarrow> (\<And>x. r = Inr x \<Longrightarrow> f x = Inr y \<Longrightarrow> P) \<Longrightarrow> P"
  by (cases r) simp_all

lemma check_E: "(if b then Inl e else r) = Inr y \<Longrightarrow> (\<not> b \<Longrightarrow> r = Inr y \<Longrightarrow> P) \<Longrightarrow> P"
  by (simp split: if_splits)

lemma done_E: "Inr x = (Inr y :: 'e + 'a) \<Longrightarrow> (y = x \<Longrightarrow> P) \<Longrightarrow> P"
  by simp

lemmas accepted_E = bindE_E check_E done_E

text \<open>What each stage is responsible for.\<close>

definition base_ok :: "config \<Rightarrow> bool" where
  "base_ok c \<longleftrightarrow> PGData c \<noteq> [] \<and> PostgresBin c \<noteq> [] \<and> 0 < ShutdownWait c \<and>
     prefix [''-D'', PGData c] (PostgresArgs c) \<and> PostgresUser c \<noteq> [] \<and> PostgresDB c \<noteq> [] \<and>
     ReplUser c \<noteq> []"

definition tls_ok :: "config \<Rightarrow> bool" where
  "tls_ok c \<longleftrightarrow> (MTLSRequire c \<longrightarrow> TLSEnabled c \<and> TLSRootCertFile c \<noteq> [])"

definition listeners_ok :: "config \<Rightarrow> bool" where
  "listeners_ok c \<longleftrightarrow> APIPort c \<noteq> MetricsPort c \<and> 0 < TextfileInterval c \<and>
     MetricsMode c \<in> {''endpoint'', ''textfile'', ''both''} \<and>
     MetricsEnabled c = (MetricsMode c \<noteq> ''textfile'') \<and>
     TextfileEnabled c = (MetricsMode c \<noteq> ''endpoint'') \<and>
     (TextfileEnabled c \<longrightarrow> TextfileDir c \<noteq> [])"

definition ha_ok :: "config \<Rightarrow> bool" where
  "ha_ok c \<longleftrightarrow> ShutdownPolicy c \<in> {''require-switchover'', ''best-effort'', ''force''} \<and>
     ShutdownMode c \<in> {''switchover'', ''reboot''} \<and> FailoverMode c \<in> {''automatic'', ''manual''} \<and>
     BootstrapRole c \<in> {''auto'', ''primary'', ''standby''}"

definition backup_ok :: "config \<Rightarrow> bool" where
  "backup_ok c \<longleftrightarrow> (BackupDir c = [] \<or> BackupCommand c = []) \<and>
     (BackupEnabled c \<longrightarrow> BackupDir c \<noteq> [] \<or> BackupCommand c \<noteq> []) \<and>
     0 < BackupInterval c \<and> 1 \<le> BackupRetain c"

definition restart_ok :: "config \<Rightarrow> bool" where
  "restart_ok c \<longleftrightarrow> 0 \<le> PostgresRestartLimit c \<and> 0 < PostgresRestartWindow c \<and>
     0 \<le> PostgresRestartBackoff c"

lemma load_base_ok: "load_base sys = Inr c \<Longrightarrow> base_ok c"
  unfolding load_base_def Let_def base_ok_def
  by (auto simp: bindE_Inr_iff envOrDefault_nonempty dest: detectPostgresBin_nonempty split: if_splits)

lemma JoinPath_Base_nonempty: "JoinPath [dir, Base src] \<noteq> []"
proof -
  have "Base src \<noteq> []" by (simp add: Base_def Let_def)
  moreover have "Clean p \<noteq> []" for p by (simp add: Clean_def Let_def)
  ultimately show ?thesis by (simp add: JoinPath_def Let_def)
qed

lemma stage_tls_files_ok:
  assumes "stage_tls_files sys c f = Inr (c', f')"
  shows "\<exists>cert key ca extra. c' = c\<lparr>TLSCertFile := cert, TLSKeyFile := key, TLSRootCertFile := ca,
      PostgresArgs := PostgresArgs c @ extra\<rparr> \<and> (ca = [] \<longrightarrow> TLSRootCertFile c = [])"
proof -
  from assms obtain cert f1 key f2 ca f3 extra where
    ca: "(if TLSRootCertFile c = [] then Inr ([], f2) else stageTLSFile sys (TLSRootCertFile c) 420 f2)
      = Inr (ca, f3)"
    and c': "c' = c\<lparr>TLSCertFile := cert, TLSKeyFile := key, TLSRootCertFile := ca,
      PostgresArgs := PostgresArgs c @ extra\<rparr>"
    unfolding stage_tls_files_def Let_def
    by (auto simp: bindE_Inr_iff simp del: append_Cons)
  from ca have "ca \<noteq> []" if "TLSRootCertFile c \<noteq> []"
    using that by (auto simp: stageTLSFile_def bindE_Inr_iff Let_def JoinPath_Base_nonempty
        split: option.splits if_splits)
  with c' show ?thesis by blast
qed

lemma load_tls_ok:
  assumes "load_tls sys c f = Inr (c', f')"
    and "base_ok c"
  shows "base_ok c' \<and> tls_ok c'"
proof -
  define cert key ca where "cert = Getenv sys ''PG_GUARD_SSL_CERT_FILE''"
    and "key = Getenv sys ''PG_GUARD_SSL_KEY_FILE''" and "ca = Getenv sys ''PG_GUARD_SSL_CA_FILE''"
  define enabled where "enabled \<longleftrightarrow> cert \<noteq> [] \<and> key \<noteq> []"
  define d where "d m = c\<lparr>TLSCertFile := cert, TLSKeyFile := key, TLSRootCertFile := ca,
      TLSEnabled := enabled, MTLSRequire := m\<rparr>" for m
  have eq: "load_tls sys c f = bindE (envBool sys ''PG_GUARD_MTLS_REQUIRE'' False) (\<lambda>m.
      if m \<and> (\<not> enabled \<or> ca = []) then Inl MTLSNeedsTLS
      else if enabled then stage_tls_files sys (d m) f else Inr (d m, f))"
    by (simp only: load_tls_def Let_def cert_def key_def ca_def enabled_def d_def)
  obtain m where m: "envBool sys ''PG_GUARD_MTLS_REQUIRE'' False = Inr m"
    using assms(1) unfolding eq by (cases "envBool sys ''PG_GUARD_MTLS_REQUIRE'' False") simp_all
  have ok: "m \<longrightarrow> enabled \<and> ca \<noteq> []"
    and rest: "(if enabled then stage_tls_files sys (d m) f else Inr (d m, f)) = Inr (c', f')"
    using assms(1) unfolding eq m by (simp_all split: if_splits)
  show ?thesis
  proof (cases enabled)
    case True
    with rest have "stage_tls_files sys (d m) f = Inr (c', f')" by simp
    from stage_tls_files_ok [OF this] obtain cert' key' ca' extra where
      "c' = (d m)\<lparr>TLSCertFile := cert', TLSKeyFile := key', TLSRootCertFile := ca',
        PostgresArgs := PostgresArgs (d m) @ extra\<rparr>" "ca' = [] \<longrightarrow> TLSRootCertFile (d m) = []"
      by blast
    with ok assms(2) show ?thesis by (auto simp: d_def base_ok_def tls_ok_def)
  next
    case False
    with rest ok assms(2) show ?thesis by (auto simp: d_def base_ok_def tls_ok_def)
  qed
qed

lemma load_listeners_ok:
  assumes "load_listeners sys c = Inr c'"
  shows "listeners_ok c' \<and> base_ok c' = base_ok c \<and> tls_ok c' = tls_ok c"
  using assms unfolding load_listeners_def Let_def
  by (elim accepted_E) (simp add: listeners_ok_def base_ok_def tls_ok_def, elim disjE, simp_all)

lemma load_peer_ok:
  assumes "load_peer sys c = Inr c'"
  shows "PeerVerify c' \<in> {''off'', ''ip'', ''dns'', ''both''} \<and> listeners_ok c' = listeners_ok c \<and>
    base_ok c' = base_ok c \<and> tls_ok c' = tls_ok c"
  using assms unfolding load_peer_def Let_def
  by (elim accepted_E) (simp add: listeners_ok_def base_ok_def tls_ok_def)

lemma load_ha_ok:
  assumes "load_ha sys c = Inr c'"
  shows "ha_ok c' \<and> PeerVerify c' = PeerVerify c \<and> listeners_ok c' = listeners_ok c \<and>
    base_ok c' = base_ok c \<and> tls_ok c' = tls_ok c"
  using assms unfolding load_ha_def Let_def
  by (elim accepted_E) (simp add: ha_ok_def listeners_ok_def base_ok_def tls_ok_def)

lemma load_backup_ok:
  assumes "load_backup sys c = Inr c'"
  shows "backup_ok c' \<and> ha_ok c' = ha_ok c \<and> PeerVerify c' = PeerVerify c \<and>
    listeners_ok c' = listeners_ok c \<and> base_ok c' = base_ok c \<and> tls_ok c' = tls_ok c"
  using assms unfolding load_backup_def Let_def
  by (elim accepted_E) (simp add: backup_ok_def ha_ok_def listeners_ok_def base_ok_def tls_ok_def)

lemma load_restart_ok:
  assumes "load_restart sys c = Inr c'"
  shows "restart_ok c' \<and> backup_ok c' = backup_ok c \<and> ha_ok c' = ha_ok c \<and>
    PeerVerify c' = PeerVerify c \<and> listeners_ok c' = listeners_ok c \<and> base_ok c' = base_ok c \<and>
    tls_ok c' = tls_ok c"
  using assms unfolding load_restart_def Let_def
  by (elim accepted_E) (simp add: restart_ok_def backup_ok_def ha_ok_def listeners_ok_def base_ok_def tls_ok_def)

text \<open>The peer host is decided in one stage.\<close>

lemma load_peer_host:
  assumes "load_peer sys c = Inr c'"
  shows "PeerHost c' = (if Getenv sys ''PG_GUARD_PEER_HOST'' \<noteq> [] then Getenv sys ''PG_GUARD_PEER_HOST''
    else case Hostname sys of None \<Rightarrow> [] | Some h \<Rightarrow> (case derivePeerHost h of None \<Rightarrow> [] | Some d \<Rightarrow> d))"
  using assms unfolding load_peer_def Let_def by (elim accepted_E) simp

lemma peer_host_kept:
  "load_ha sys c = Inr c' \<Longrightarrow> PeerHost c' = PeerHost c"
  "load_backup sys c = Inr c' \<Longrightarrow> PeerHost c' = PeerHost c"
  "load_restart sys c = Inr c' \<Longrightarrow> PeerHost c' = PeerHost c"
  unfolding load_ha_def load_backup_def load_restart_def Let_def
  by (elim accepted_E, simp)+

lemma loadConfig_stages:
  assumes "loadConfig sys f = Inr (c, f')"
  obtains c1 c2 c3 c4 c5 c6 where "load_base sys = Inr c1" "load_tls sys c1 f = Inr (c2, f')"
    "load_listeners sys c2 = Inr c3" "load_peer sys c3 = Inr c4" "load_ha sys c4 = Inr c5"
    "load_backup sys c5 = Inr c6" "load_restart sys c6 = Inr c"
  using assms unfolding loadConfig_def by (auto simp: bindE_Inr_iff)

section \<open>Properties\<close>

text \<open>
  C18. Whatever the environment holds, an accepted configuration is well-formed: the data directory
  and the binary are named and postgres is started on that directory; every wait, interval and
  window is positive, every mode one of its documented values, the two listeners have different
  ports, mutual TLS comes with certificates and an authority, a backup has at most one destination
  and a scheduled one exactly one, and the restart budget is not negative.
\<close>

theorem loadConfig_well_formed:
  assumes "loadConfig sys f = Inr (cfg, f')"
  shows "PGData cfg \<noteq> [] \<and> PostgresBin cfg \<noteq> [] \<and> prefix [''-D'', PGData cfg] (PostgresArgs cfg) \<and>
    0 < ShutdownWait cfg \<and> PostgresDB cfg \<noteq> [] \<and> ReplUser cfg \<noteq> [] \<and>
    (MTLSRequire cfg \<longrightarrow> TLSEnabled cfg \<and> TLSRootCertFile cfg \<noteq> []) \<and>
    APIPort cfg \<noteq> MetricsPort cfg \<and> 0 < TextfileInterval cfg \<and>
    (TextfileEnabled cfg \<longrightarrow> TextfileDir cfg \<noteq> []) \<and> (MetricsEnabled cfg \<or> TextfileEnabled cfg) \<and>
    PeerVerify cfg \<in> {''off'', ''ip'', ''dns'', ''both''} \<and>
    ShutdownPolicy cfg \<in> {''require-switchover'', ''best-effort'', ''force''} \<and>
    ShutdownMode cfg \<in> {''switchover'', ''reboot''} \<and>
    FailoverMode cfg \<in> {''automatic'', ''manual''} \<and>
    BootstrapRole cfg \<in> {''auto'', ''primary'', ''standby''} \<and>
    (BackupDir cfg = [] \<or> BackupCommand cfg = []) \<and>
    (BackupEnabled cfg \<longrightarrow> BackupDir cfg \<noteq> [] \<or> BackupCommand cfg \<noteq> []) \<and>
    0 < BackupInterval cfg \<and> 1 \<le> BackupRetain cfg \<and>
    0 \<le> PostgresRestartLimit cfg \<and> 0 < PostgresRestartWindow cfg \<and> 0 \<le> PostgresRestartBackoff cfg"
proof -
  from assms obtain c1 c2 c3 c4 c5 c6 where c: "load_base sys = Inr c1" "load_tls sys c1 f = Inr (c2, f')"
    "load_listeners sys c2 = Inr c3" "load_peer sys c3 = Inr c4" "load_ha sys c4 = Inr c5"
    "load_backup sys c5 = Inr c6" "load_restart sys c6 = Inr cfg"
    by (rule loadConfig_stages)
  from load_tls_ok [OF c(2) load_base_ok [OF c(1)]] load_listeners_ok [OF c(3)] load_peer_ok [OF c(4)]
    load_ha_ok [OF c(5)] load_backup_ok [OF c(6)] load_restart_ok [OF c(7)]
  have ok: "base_ok cfg" "tls_ok cfg" "listeners_ok cfg" "ha_ok cfg" "backup_ok cfg" "restart_ok cfg"
    and v: "PeerVerify cfg \<in> {''off'', ''ip'', ''dns'', ''both''}" by simp_all
  from ok(3) have "MetricsEnabled cfg \<or> TextfileEnabled cfg"
    "APIPort cfg \<noteq> MetricsPort cfg" "0 < TextfileInterval cfg" "TextfileEnabled cfg \<longrightarrow> TextfileDir cfg \<noteq> []"
    by (auto simp: listeners_ok_def)
  with ok(1,2,4-6) v show ?thesis
    unfolding base_ok_def tls_ok_def ha_ok_def backup_ok_def restart_ok_def by blast
qed

text \<open>A machine with a postgres binary and nothing set but \<open>PGDATA\<close>.\<close>

definition plain_os :: "string \<Rightarrow> os" where
  "plain_os host = \<lparr>
     Getenv = (\<lambda>k. if k = ''PGDATA'' then ''/pgdata'' else []), FloatFrac = (\<lambda>f k n. 0),
     Hostname = Some host, Exists = (\<lambda>p. p = ''/usr/lib/postgresql/17/bin/postgres''),
     Glob = (\<lambda>_. [''/usr/lib/postgresql/17/bin/postgres'']), LookPath = (\<lambda>_. None), TempDir = ''/tmp'',
     MkdirOK = (\<lambda>_. True), WriteOK = (\<lambda>_. True), X509KeyPair = (\<lambda>_ _. True),
     CertsInPEM = (\<lambda>_. True)\<rparr>"

lemmas config_eval_defs =
  plain_os_def loadConfig_def load_base_def load_tls_def load_listeners_def load_peer_def load_ha_def
  load_backup_def load_restart_def detectPostgresBin_def add_candidate_def envOrDefault_def
  envInt_def envBool_def envDuration_def time_units derivePeerHost_def HasSuffix_def TrimSuffix_def

definition node_config :: "string \<Rightarrow> config" where
  "node_config host = fst (projr (loadConfig (plain_os host) (\<lambda>_. None)))"

lemma node_config_loaded:
  "loadConfig (plain_os host) (\<lambda>_. None) = Inr (node_config host, (\<lambda>_. None))"
  by (simp add: node_config_def config_eval_defs Let_def)

theorem loadConfig_well_formed_witness:
  "0 < ShutdownWait (node_config ''pg-0'') \<and> APIPort (node_config ''pg-0'') \<noteq> MetricsPort (node_config ''pg-0'')"
  using loadConfig_well_formed [OF node_config_loaded] by simp

lemma derivePeerHost_pair [simp]:
  "derivePeerHost (base @ ''-0'') = Some (base @ ''-1'')"
  "derivePeerHost (base @ ''-1'') = Some (base @ ''-0'')"
proof -
  have "\<not> HasSuffix (base @ ''-1'') ''-0''" by (simp add: HasSuffix_def)
  moreover have "TrimSuffix (base @ ''-0'') ''-0'' = base" "TrimSuffix (base @ ''-1'') ''-1'' = base"
    by (rule TrimSuffix_append)+
  moreover have "HasSuffix (base @ ''-0'') ''-0''" "HasSuffix (base @ ''-1'') ''-1''"
    by (rule HasSuffix_append)+
  ultimately show "derivePeerHost (base @ ''-0'') = Some (base @ ''-1'')"
    "derivePeerHost (base @ ''-1'') = Some (base @ ''-0'')"
    unfolding derivePeerHost_def by presburger+
qed

text \<open>
  The two nodes of a pair find each other: a node named with \<open>-0\<close> and one with \<open>-1\<close> after the
  same base, neither told its peer, are configured with each other's name as peer. A configured
  peer is taken as it is.
\<close>

theorem pair_finds_each_other:
  assumes "loadConfig sys0 f0 = Inr (cfg0, g0)" and "loadConfig sys1 f1 = Inr (cfg1, g1)"
    and "Hostname sys0 = Some (base @ ''-0'')" and "Hostname sys1 = Some (base @ ''-1'')"
  shows "PeerHost cfg0 = (if Getenv sys0 ''PG_GUARD_PEER_HOST'' = [] then base @ ''-1''
      else Getenv sys0 ''PG_GUARD_PEER_HOST'') \<and>
    PeerHost cfg1 = (if Getenv sys1 ''PG_GUARD_PEER_HOST'' = [] then base @ ''-0''
      else Getenv sys1 ''PG_GUARD_PEER_HOST'')"
proof -
  have host: "PeerHost cfg = (if Getenv sys ''PG_GUARD_PEER_HOST'' = [] then the (derivePeerHost h)
      else Getenv sys ''PG_GUARD_PEER_HOST'')"
    if "loadConfig sys f = Inr (cfg, g)" "Hostname sys = Some h" "derivePeerHost h \<noteq> None" for sys f cfg g h
    using that(1)
  proof (rule loadConfig_stages)
    fix c1 c2 c3 c4 c5 c6
    assume "load_peer sys c3 = Inr c4" "load_ha sys c4 = Inr c5" "load_backup sys c5 = Inr c6"
      "load_restart sys c6 = Inr cfg"
    with peer_host_kept load_peer_host that(2,3) show ?thesis by auto
  qed
  from host [OF assms(1,3)] host [OF assms(2,4)] show ?thesis by simp
qed

theorem pair_finds_each_other_witness:
  "PeerHost (node_config ''pg-0'') = ''pg-1'' \<and> PeerHost (node_config ''pg-1'') = ''pg-0''"
  using pair_finds_each_other [OF node_config_loaded [of "''pg-0''"] node_config_loaded [of "''pg-1''"],
      of "''pg''"]
  by (simp add: plain_os_def)

section \<open>Documented defaults\<close>

definition set_env :: "string \<Rightarrow> string \<Rightarrow> os \<Rightarrow> os" where
  "set_env key v sys = sys\<lparr>Getenv := (Getenv sys)(key := v)\<rparr>"

lemma Getenv_set_env: "Getenv (set_env key v sys) k = (if k = key then v else Getenv sys k)"
  by (simp add: set_env_def)

lemma set_env_other [simp]:
  "Hostname (set_env key v sys) = Hostname sys" "FloatFrac (set_env key v sys) = FloatFrac sys"
  "Exists (set_env key v sys) = Exists sys" "Glob (set_env key v sys) = Glob sys"
  "LookPath (set_env key v sys) = LookPath sys" "TempDir (set_env key v sys) = TempDir sys"
  "MkdirOK (set_env key v sys) = MkdirOK sys" "WriteOK (set_env key v sys) = WriteOK sys"
  "X509KeyPair (set_env key v sys) = X509KeyPair sys" "CertsInPEM (set_env key v sys) = CertsInPEM sys"
  by (simp_all add: set_env_def)

lemma set_env_helpers [simp]:
  "detectPostgresBin (set_env key v sys) = detectPostgresBin sys"
  "stage_tls_files (set_env key v sys) = stage_tls_files sys"
proof -
  have "add_candidate (set_env key v sys) = add_candidate sys"
    by (intro ext) (simp add: add_candidate_def)
  then show "detectPostgresBin (set_env key v sys) = detectPostgresBin sys"
    unfolding detectPostgresBin_def set_env_other by (rule arg_cong)
  have st: "stageTLSFile (set_env key v sys) = stageTLSFile sys"
    unfolding fun_eq_iff stageTLSFile_def pgGuardStagingDir_def set_env_other by blast
  have bs: "buildServerTLSConfig (set_env key v sys) = buildServerTLSConfig sys"
    unfolding fun_eq_iff buildServerTLSConfig_def LoadX509KeyPair_def loadCertPool_def set_env_other
    by blast
  show "stage_tls_files (set_env key v sys) = stage_tls_files sys"
    unfolding fun_eq_iff stage_tls_files_def st bs by blast
qed

text \<open>Reading a variable that was set, or another one.\<close>

lemma read_set_env:
  "envOrDefault (set_env key v sys) k def =
     (if k = key then if v = [] then def else v else envOrDefault sys k def)"
  "envInt (set_env key v sys) k n =
     (if k = key then if v = [] then Inr n else case Atoi v of None \<Rightarrow> Inl (BadInt k v) | Some i \<Rightarrow> Inr i
      else envInt sys k n)"
  "envBool (set_env key v sys) k b =
     (if k = key then if v = [] then Inr b else case ParseBool v of None \<Rightarrow> Inl (BadBool k v) | Some i \<Rightarrow> Inr i
      else envBool sys k b)"
  "envDuration (set_env key v sys) k d =
     (if k = key then if v = [] then Inr d
        else case ParseDuration (FloatFrac sys) v of None \<Rightarrow> Inl (BadDuration k v) | Some i \<Rightarrow> Inr i
      else envDuration sys k d)"
  by (simp_all add: envOrDefault_def envInt_def envBool_def envDuration_def Getenv_set_env Let_def)

lemma Atoi_literals:
  "Atoi ''5432'' = Some 5432" "Atoi ''9100'' = Some 9100" "Atoi ''7'' = Some 7" "Atoi ''5'' = Some 5"
  by (simp_all add: Atoi_def digit_val_def Let_def)

text \<open>The entries whose default is a value, not a remark in parentheses.\<close>

definition has_literal_default :: "string \<times> string \<Rightarrow> bool" where
  "has_literal_default vd \<longleftrightarrow> hd (snd vd) \<noteq> CHR ''('' \<and> \<not> Contains (snd vd) '' (or ''"

lemma literal_defaults:
  "filter has_literal_default varDefs =
     [(''PG_GUARD_LOG_LEVEL'', ''info''), (''PG_GUARD_LOG_FORMAT'', ''json''),
      (''PG_GUARD_SHUTDOWN_WAIT'', ''300s''), (''PGPORT'', ''5432''), (''POSTGRES_USER'', ''postgres''),
      (''PG_GUARD_API_BIND'', ''0.0.0.0''), (''PG_GUARD_METRICS_PORT'', ''9100''),
      (''PG_GUARD_METRICS_MODE'', ''endpoint''), (''PG_GUARD_TEXTFILE_INTERVAL'', ''60s''),
      (''PG_GUARD_PEER_VERIFY'', ''off''), (''PG_GUARD_MTLS_REQUIRE'', ''false''),
      (''PG_GUARD_SHUTDOWN_POLICY'', ''require-switchover''), (''PG_GUARD_SHUTDOWN_MODE'', ''switchover''),
      (''PG_GUARD_REBOOT_GRACE_PERIOD'', ''180s''), (''PG_GUARD_FAILOVER_TIMEOUT'', ''60s''),
      (''PG_GUARD_FAILOVER_MODE'', ''automatic''), (''PG_GUARD_BOOTSTRAP_ROLE'', ''auto''),
      (''PG_GUARD_BACKUP_ENABLED'', ''false''), (''PG_GUARD_BACKUP_INTERVAL'', ''24h''),
      (''PG_GUARD_BACKUP_RETAIN'', ''7''), (''PG_GUARD_POSTGRES_RESTART_LIMIT'', ''5''),
      (''PG_GUARD_POSTGRES_RESTART_WINDOW'', ''10m''), (''PG_GUARD_POSTGRES_RESTART_BACKOFF'', ''5s'')]"
  by (simp add: varDefs_def has_literal_default_def)

text \<open>A stage does not notice a variable it does not read.\<close>

lemmas set_env_reading = read_set_env Getenv_set_env set_env_helpers ParseDuration_literals
  Atoi_literals ParseBool_def time_units

lemma load_base_ignores:
  "n \<notin> set [''PG_GUARD_LOG_LEVEL'', ''PG_GUARD_LOG_FORMAT'', ''PG_GUARD_LOG_FILE'',
      ''PG_GUARD_POSTGRES_BIN'', ''PGDATA'', ''PG_GUARD_EXTRA_ARGS'',
      ''PG_GUARD_SHUTDOWN_WAIT'', ''PGPORT'', ''POSTGRES_USER'',
      ''POSTGRES_PASSWORD'', ''POSTGRES_DB'', ''PG_GUARD_REPL_USER'',
      ''PG_GUARD_REPL_PASSWORD''] \<Longrightarrow>
   load_base (set_env n v sys) = load_base sys"
  unfolding load_base_def Let_def set_env_helpers
  by (simp add: set_env_reading not_sym cong: if_cong)

lemma load_tls_ignores:
  "n \<notin> set [''PG_GUARD_SSL_CERT_FILE'', ''PG_GUARD_SSL_KEY_FILE'', ''PG_GUARD_SSL_CA_FILE'',
      ''PG_GUARD_MTLS_REQUIRE''] \<Longrightarrow>
   load_tls (set_env n v sys) = load_tls sys"
  unfolding load_tls_def Let_def set_env_helpers fun_eq_iff
  by (simp add: set_env_reading not_sym cong: if_cong)

lemma load_listeners_ignores:
  "n \<notin> set [''PG_GUARD_API_PORT'', ''PG_GUARD_API_BIND'', ''PG_GUARD_METRICS_PORT'',
      ''PG_GUARD_METRICS_MODE'', ''PG_GUARD_TEXTFILE_DIR'', ''PG_GUARD_TEXTFILE_INTERVAL'',
      ''PG_GUARD_API_TOKEN''] \<Longrightarrow>
   load_listeners (set_env n v sys) = load_listeners sys"
  unfolding load_listeners_def Let_def set_env_helpers fun_eq_iff
  by (simp add: set_env_reading not_sym cong: if_cong)

lemma load_peer_ignores:
  "n \<notin> set [''PG_GUARD_PEER_VERIFY'', ''PG_GUARD_PEER_PORT'', ''PG_GUARD_PEER_METRICS_PORT'',
      ''PG_GUARD_PEER_HOST''] \<Longrightarrow>
   load_peer (set_env n v sys) = load_peer sys"
  unfolding load_peer_def Let_def set_env_helpers fun_eq_iff
  by (simp add: set_env_reading not_sym cong: if_cong)

lemma load_ha_ignores:
  "n \<notin> set [''PG_GUARD_SHUTDOWN_POLICY'', ''PG_GUARD_SHUTDOWN_MODE'', ''PG_GUARD_REBOOT_GRACE_PERIOD'',
      ''PG_GUARD_FAILOVER_TIMEOUT'', ''PG_GUARD_FAILOVER_MODE'', ''PG_GUARD_BOOTSTRAP_ROLE''] \<Longrightarrow>
   load_ha (set_env n v sys) = load_ha sys"
  unfolding load_ha_def Let_def set_env_helpers fun_eq_iff
  by (simp add: set_env_reading not_sym cong: if_cong)

lemma load_backup_ignores:
  "n \<notin> set [''PG_GUARD_BACKUP_ENABLED'', ''PG_GUARD_BACKUP_DIR'', ''PG_GUARD_BACKUP_COMMAND'',
      ''PG_GUARD_BACKUP_INTERVAL'', ''PG_GUARD_BACKUP_RETAIN''] \<Longrightarrow>
   load_backup (set_env n v sys) = load_backup sys"
  unfolding load_backup_def Let_def set_env_helpers fun_eq_iff
  by (simp add: set_env_reading not_sym cong: if_cong)

lemma load_restart_ignores:
  "n \<notin> set [''PG_GUARD_POSTGRES_RESTART_LIMIT'', ''PG_GUARD_POSTGRES_RESTART_WINDOW'', ''PG_GUARD_POSTGRES_RESTART_BACKOFF'',
      ''PG_GUARD_STATE_FILE''] \<Longrightarrow>
   load_restart (set_env n v sys) = load_restart sys"
  unfolding load_restart_def Let_def set_env_helpers fun_eq_iff
  by (simp add: set_env_reading not_sym cong: if_cong)

text \<open>A stage does not notice the documented default.\<close>

lemma load_base_default:
  "load_base (set_env ''PG_GUARD_LOG_LEVEL'' ''info'' sys) = load_base (set_env ''PG_GUARD_LOG_LEVEL'' [] sys)"
  "load_base (set_env ''PG_GUARD_LOG_FORMAT'' ''json'' sys) = load_base (set_env ''PG_GUARD_LOG_FORMAT'' [] sys)"
  "load_base (set_env ''PG_GUARD_SHUTDOWN_WAIT'' ''300s'' sys) = load_base (set_env ''PG_GUARD_SHUTDOWN_WAIT'' [] sys)"
  "load_base (set_env ''PGPORT'' ''5432'' sys) = load_base (set_env ''PGPORT'' [] sys)"
  "load_base (set_env ''POSTGRES_USER'' ''postgres'' sys) = load_base (set_env ''POSTGRES_USER'' [] sys)"
  unfolding load_base_def Let_def set_env_helpers
  by (simp_all add: set_env_reading cong: if_cong)

lemma load_tls_default:
  "load_tls (set_env ''PG_GUARD_MTLS_REQUIRE'' ''false'' sys) = load_tls (set_env ''PG_GUARD_MTLS_REQUIRE'' [] sys)"
  unfolding load_tls_def Let_def set_env_helpers fun_eq_iff
  by (simp_all add: set_env_reading cong: if_cong)

lemma load_listeners_default:
  "load_listeners (set_env ''PG_GUARD_API_BIND'' ''0.0.0.0'' sys) = load_listeners (set_env ''PG_GUARD_API_BIND'' [] sys)"
  "load_listeners (set_env ''PG_GUARD_METRICS_PORT'' ''9100'' sys) = load_listeners (set_env ''PG_GUARD_METRICS_PORT'' [] sys)"
  "load_listeners (set_env ''PG_GUARD_METRICS_MODE'' ''endpoint'' sys) = load_listeners (set_env ''PG_GUARD_METRICS_MODE'' [] sys)"
  "load_listeners (set_env ''PG_GUARD_TEXTFILE_INTERVAL'' ''60s'' sys) = load_listeners (set_env ''PG_GUARD_TEXTFILE_INTERVAL'' [] sys)"
  unfolding load_listeners_def Let_def set_env_helpers fun_eq_iff
  by (simp_all add: set_env_reading cong: if_cong)

lemma load_peer_default:
  "load_peer (set_env ''PG_GUARD_PEER_VERIFY'' ''off'' sys) = load_peer (set_env ''PG_GUARD_PEER_VERIFY'' [] sys)"
  unfolding load_peer_def Let_def set_env_helpers fun_eq_iff
  by (simp_all add: set_env_reading cong: if_cong)

lemma load_ha_default:
  "load_ha (set_env ''PG_GUARD_SHUTDOWN_POLICY'' ''require-switchover'' sys) = load_ha (set_env ''PG_GUARD_SHUTDOWN_POLICY'' [] sys)"
  "load_ha (set_env ''PG_GUARD_SHUTDOWN_MODE'' ''switchover'' sys) = load_ha (set_env ''PG_GUARD_SHUTDOWN_MODE'' [] sys)"
  "load_ha (set_env ''PG_GUARD_REBOOT_GRACE_PERIOD'' ''180s'' sys) = load_ha (set_env ''PG_GUARD_REBOOT_GRACE_PERIOD'' [] sys)"
  "load_ha (set_env ''PG_GUARD_FAILOVER_TIMEOUT'' ''60s'' sys) = load_ha (set_env ''PG_GUARD_FAILOVER_TIMEOUT'' [] sys)"
  "load_ha (set_env ''PG_GUARD_FAILOVER_MODE'' ''automatic'' sys) = load_ha (set_env ''PG_GUARD_FAILOVER_MODE'' [] sys)"
  "load_ha (set_env ''PG_GUARD_BOOTSTRAP_ROLE'' ''auto'' sys) = load_ha (set_env ''PG_GUARD_BOOTSTRAP_ROLE'' [] sys)"
  unfolding load_ha_def Let_def set_env_helpers fun_eq_iff
  by (simp_all add: set_env_reading cong: if_cong)

lemma load_backup_default:
  "load_backup (set_env ''PG_GUARD_BACKUP_ENABLED'' ''false'' sys) = load_backup (set_env ''PG_GUARD_BACKUP_ENABLED'' [] sys)"
  "load_backup (set_env ''PG_GUARD_BACKUP_INTERVAL'' ''24h'' sys) = load_backup (set_env ''PG_GUARD_BACKUP_INTERVAL'' [] sys)"
  "load_backup (set_env ''PG_GUARD_BACKUP_RETAIN'' ''7'' sys) = load_backup (set_env ''PG_GUARD_BACKUP_RETAIN'' [] sys)"
  unfolding load_backup_def Let_def set_env_helpers fun_eq_iff
  by (simp_all add: set_env_reading cong: if_cong)

lemma load_restart_default:
  "load_restart (set_env ''PG_GUARD_POSTGRES_RESTART_LIMIT'' ''5'' sys) = load_restart (set_env ''PG_GUARD_POSTGRES_RESTART_LIMIT'' [] sys)"
  "load_restart (set_env ''PG_GUARD_POSTGRES_RESTART_WINDOW'' ''10m'' sys) = load_restart (set_env ''PG_GUARD_POSTGRES_RESTART_WINDOW'' [] sys)"
  "load_restart (set_env ''PG_GUARD_POSTGRES_RESTART_BACKOFF'' ''5s'' sys) = load_restart (set_env ''PG_GUARD_POSTGRES_RESTART_BACKOFF'' [] sys)"
  unfolding load_restart_def Let_def set_env_helpers fun_eq_iff
  by (simp_all add: set_env_reading cong: if_cong)

definition same_stages :: "os \<Rightarrow> os \<Rightarrow> bool" where
  "same_stages s t \<longleftrightarrow> load_base s = load_base t \<and> load_tls s = load_tls t \<and>
     load_listeners s = load_listeners t \<and> load_peer s = load_peer t \<and> load_ha s = load_ha t \<and>
     load_backup s = load_backup t \<and> load_restart s = load_restart t"

lemma same_stages_load: "same_stages s t \<Longrightarrow> loadConfig s f = loadConfig t f"
  by (simp add: same_stages_def loadConfig_def)

lemmas stage_defaults =
  load_base_default load_tls_default load_listeners_default load_peer_default load_ha_default
  load_backup_default load_restart_default

lemmas stage_ignores =
  load_base_ignores load_tls_ignores load_listeners_ignores load_peer_ignores load_ha_ignores
  load_backup_ignores load_restart_ignores

lemma literal_default_stages:
  "\<forall>(n, d) \<in> set (filter has_literal_default varDefs).
     same_stages (set_env n d sys) (set_env n [] sys)"
  unfolding literal_defaults list.set
  by (simp add: same_stages_def stage_defaults stage_ignores)

text \<open>
  C19. The documented defaults are the ones used: setting a variable of \<open>varDefs\<close> to the default shown
  for it gives the same configuration as leaving it unset, for every variable whose default is a
  value (the others show a remark in parentheses, or the port that depends on TLS).
\<close>

theorem documented_defaults_are_used:
  assumes "(n, d) \<in> set varDefs" and "hd d \<noteq> CHR ''(''" and "\<not> Contains d '' (or ''"
  shows "loadConfig (set_env n d sys) f = loadConfig (set_env n [] sys) f"
proof -
  have "(n, d) \<in> set (filter has_literal_default varDefs)"
    using assms by (simp add: has_literal_default_def)
  with literal_default_stages [of sys] show ?thesis by (blast intro: same_stages_load)
qed

theorem documented_defaults_are_used_witness:
  "loadConfig (set_env ''PG_GUARD_BACKUP_INTERVAL'' ''24h'' (plain_os ''pg-0'')) (\<lambda>_. None) =
     loadConfig (set_env ''PG_GUARD_BACKUP_INTERVAL'' [] (plain_os ''pg-0'')) (\<lambda>_. None)"
  by (rule documented_defaults_are_used) (simp_all add: varDefs_def)

section \<open>What is printed\<close>

text \<open>
  The printed configuration does not depend on a secret: two environments that differ only in
  the values of variables named with \<open>PASSWORD\<close> or \<open>TOKEN\<close>, each set in both or in neither, print
  the same, and the three secrets the configuration has are such variables.
\<close>

theorem dump_hides_secrets:
  assumes "\<forall>n. Getenv s n \<noteq> Getenv t n \<longrightarrow> isSecretVar n \<and> Getenv s n \<noteq> [] \<and> Getenv t n \<noteq> []"
  shows "dumpConfig s = dumpConfig t \<and>
    {''POSTGRES_PASSWORD'', ''PG_GUARD_REPL_PASSWORD'', ''PG_GUARD_API_TOKEN''} \<subseteq>
      {n. n \<in> fst ` set varDefs \<and> isSecretVar n}"
proof
  have "shown_value s vd = shown_value t vd" for vd
  proof (cases vd)
    case (Pair n d)
    with assms show ?thesis
      by (cases "Getenv s n = Getenv t n") (simp_all add: shown_value_def)
  qed
  then show "dumpConfig s = dumpConfig t" by (simp add: dumpConfig_def)
  show "{''POSTGRES_PASSWORD'', ''PG_GUARD_REPL_PASSWORD'', ''PG_GUARD_API_TOKEN''} \<subseteq>
      {n. n \<in> fst ` set varDefs \<and> isSecretVar n}"
    by (simp add: isSecretVar_def varDefs_def)
qed

theorem dump_hides_secrets_witness:
  "dumpConfig (set_env ''PG_GUARD_API_TOKEN'' ''a'' (plain_os ''pg-0'')) =
     dumpConfig (set_env ''PG_GUARD_API_TOKEN'' ''b'' (plain_os ''pg-0''))"
  using dump_hides_secrets [of "set_env ''PG_GUARD_API_TOKEN'' ''a'' (plain_os ''pg-0'')"
      "set_env ''PG_GUARD_API_TOKEN'' ''b'' (plain_os ''pg-0'')"]
  by (simp add: Getenv_set_env isSecretVar_def)

section \<open>Staged TLS files\<close>

lemma stageTLSFile_ok:
  assumes "stageTLSFile sys src perm f = Inr (dst, f')"
  obtains content m where "f src = Some (content, m)" "f' = write_file dst content perm f"
    "dst = JoinPath [JoinPath [TempDir sys, ''pg-guard'', ''tls''], Base src]"
proof (cases "f src")
  case None
  with assms show thesis by (simp add: stageTLSFile_def)
next
  case (Some a)
  define dir where "dir = JoinPath [TempDir sys, ''pg-guard'', ''tls'']"
  obtain content m where a: "a = (content, m)" by (rule prod.exhaust)
  note eq = assms [unfolded stageTLSFile_def Some a option.case prod.case pgGuardStagingDir_def Let_def
      dir_def [symmetric]]
  then have "MkdirOK sys dir" by (simp split: if_splits)
  with eq have "dst = JoinPath [dir, Base src] \<and> f' = write_file dst content perm f"
    by (auto split: if_splits)
  with Some a show thesis using that by (simp add: dir_def)
qed

text \<open>
  The certificate and the key are staged under the base names of their sources. When the two
  sources have one base name, both are staged to one path and the key overwrites the certificate:
  such a configuration is accepted only if the key file alone parses as a pair, and the key keeps
  the permissions of the certificate, 0644.
\<close>

theorem staged_names_clash:
  assumes "stage_tls_files sys c f = Inr (c', f')" and "Base (TLSCertFile c) = Base (TLSKeyFile c)"
    and "TLSRootCertFile c = []" and "TLSKeyFile c \<noteq> TLSCertFile c'" and "f (TLSCertFile c') = None"
  shows "TLSCertFile c' = TLSKeyFile c' \<and>
    (\<exists>key m. f (TLSKeyFile c) = Some (key, m) \<and> f' (TLSKeyFile c') = Some (key, 420) \<and>
      X509KeyPair sys key key)"
proof -
  note eq0 = assms(1) [unfolded stage_tls_files_def Let_def]
  then obtain cert f1 where s1: "stageTLSFile sys (TLSCertFile c) 420 f = Inr (cert, f1)"
    by (rule bindE_E) (metis prod.exhaust)
  note eq1 = eq0 [unfolded s1 bindE_simps prod.case]
  then obtain key f2 where s2: "stageTLSFile sys (TLSKeyFile c) 384 f1 = Inr (key, f2)"
    by (rule bindE_E) (metis prod.exhaust)
  note eq2 = eq1 [unfolded s2 bindE_simps prod.case assms(3) simp_thms if_True]
  then obtain t where
    b: "buildServerTLSConfig sys f2 (c\<lparr>TLSCertFile := cert, TLSKeyFile := key, TLSRootCertFile := []\<rparr>) = Inr t"
    by (rule bindE_E) blast
  have c': "TLSCertFile c' = cert" "TLSKeyFile c' = key" "f' = f2"
    using eq2 [unfolded b bindE_simps] by auto
  note s = s1 s2
  from s(1) obtain x m where x: "f (TLSCertFile c) = Some (x, m)" "f1 = write_file cert x 420 f"
      "cert = JoinPath [JoinPath [TempDir sys, ''pg-guard'', ''tls''], Base (TLSCertFile c)]"
    by (rule stageTLSFile_ok)
  from s(2) obtain y n where y: "f1 (TLSKeyFile c) = Some (y, n)" "f2 = write_file key y 384 f1"
      "key = JoinPath [JoinPath [TempDir sys, ''pg-guard'', ''tls''], Base (TLSKeyFile c)]"
    by (rule stageTLSFile_ok)
  have same: "key = cert" using x(3) y(3) assms(2) by simp
  have "f2 cert = Some (y, 420)"
    using x(2) y(2) same assms(5) c'(1) by (simp add: write_file_def)
  moreover from this b same have "X509KeyPair sys y y"
    by (auto simp: buildServerTLSConfig_def LoadX509KeyPair_def bindE_Inr_iff split: if_splits)
  moreover have "f (TLSKeyFile c) = Some (y, n)" using x(2) y(1) assms(4) c'(1) by simp
  ultimately show ?thesis using c' same by auto
qed

theorem staged_names_clash_witness:
  "\<exists>c' f'. stage_tls_files (plain_os ''pg-0'')
      (zero_config\<lparr>TLSCertFile := ''/certs/server.pem'', TLSKeyFile := ''/private/server.pem''\<rparr>)
      [''/certs/server.pem'' \<mapsto> (''CERT'', 420), ''/private/server.pem'' \<mapsto> (''KEY'', 384)] = Inr (c', f') \<and>
    TLSCertFile c' = TLSKeyFile c' \<and> f' (TLSKeyFile c') = Some (''KEY'', 420)"
proof -
  let ?f = "[''/certs/server.pem'' \<mapsto> (''CERT'', 420), ''/private/server.pem'' \<mapsto> (''KEY'', 384)] :: fs"
  let ?c = "zero_config\<lparr>TLSCertFile := ''/certs/server.pem'', TLSKeyFile := ''/private/server.pem''\<rparr>"
  have j: "JoinPath [JoinPath [''/tmp'', ''pg-guard'', ''tls''], ''server.pem''] = ''/tmp/pg-guard/tls/server.pem''"
    by (simp add: JoinPath_def Clean_def clean_step_def slash_def Let_def)
  have b: "Base ''/certs/server.pem'' = ''server.pem''" "Base ''/private/server.pem'' = ''server.pem''"
    by (simp_all add: Base_def last_element_def strip_slashes_def slash_def)
  obtain c' f' where r: "stage_tls_files (plain_os ''pg-0'') ?c ?f = Inr (c', f')"
    and c': "TLSCertFile c' = ''/tmp/pg-guard/tls/server.pem''"
    by (simp add: stage_tls_files_def stageTLSFile_def pgGuardStagingDir_def plain_os_def j b
        zero_config_def buildServerTLSConfig_def LoadX509KeyPair_def write_file_def Let_def)
  from staged_names_clash [OF r] c' have "TLSCertFile c' = TLSKeyFile c' \<and> f' (TLSKeyFile c') = Some (''KEY'', 420)"
    by (simp add: b zero_config_def)
  with r show ?thesis by blast
qed

end
