(* ===== verification/Auth.thy ===== *)
theory Auth
  imports Peer
begin

text \<open>
  \<open>src/src/auth.go\<close>: the bearer token and the origin of a caller of \<open>POST /api/*\<close>. A request is
  what the handlers read of it. A lookup of names or addresses is a call of the environment.
\<close>

section \<open>Requests\<close>

record request =
  reqMethod :: string
  reqPath :: string
  forceParam :: string
  authHeader :: string
  RemoteAddr :: string

section \<open>Host and port of an address\<close>

definition first_index :: "char \<Rightarrow> string \<Rightarrow> nat option" where
  "first_index c s = (if c \<in> set s then Some (length (takeWhile (\<lambda>x. x \<noteq> c) s)) else None)"

definition last_index :: "char \<Rightarrow> string \<Rightarrow> nat option" where
  "last_index c s =
     (if c \<in> set s then Some (length s - 1 - length (takeWhile (\<lambda>x. x \<noteq> c) (rev s))) else None)"

text \<open>\<open>net.SplitHostPort\<close>; \<open>None\<close> is any of its errors.\<close>

definition SplitHostPort :: "string \<Rightarrow> (string \<times> string) option" where
  "SplitHostPort s =
     (case last_index (CHR '':'') s of
        None \<Rightarrow> None
      | Some i \<Rightarrow>
          if hd s = CHR ''['' then
            (case first_index (CHR '']'') s of
               None \<Rightarrow> None
             | Some e \<Rightarrow>
                 if Suc e \<noteq> i then None
                 else if CHR ''['' \<in> set (drop 1 s) \<or> CHR '']'' \<in> set (drop (Suc e) s) then None
                 else Some (take (e - 1) (drop 1 s), drop (Suc i) s))
          else if CHR '':'' \<in> set (take i s) then None
          else if CHR ''['' \<in> set s \<or> CHR '']'' \<in> set s then None
          else Some (take i s, drop (Suc i) s))"

lemma takeWhile_until: "c \<notin> set q \<Longrightarrow> takeWhile (\<lambda>x. x \<noteq> c) (q @ c # r) = q"
  by (induction q) auto

lemma last_index_append:
  "c \<notin> set q \<Longrightarrow> last_index c (p @ c # q) = Some (length p)"
  using takeWhile_until [of c "rev q" "rev p"] by (simp add: last_index_def)

lemma first_index_append:
  "c \<notin> set p \<Longrightarrow> first_index c (p @ c # q) = Some (length p)"
  by (simp add: first_index_def takeWhile_until)

definition no_brackets :: "string \<Rightarrow> bool" where
  "no_brackets s \<longleftrightarrow> CHR ''['' \<notin> set s \<and> CHR '']'' \<notin> set s"

lemma SplitHostPort_JoinHostPort:
  assumes "no_brackets host" and "no_brackets port" and "CHR '':'' \<notin> set port"
  shows "SplitHostPort (JoinHostPort host port) = Some (host, port)"
proof (cases "CHR '':'' \<in> set host")
  case True
  have "last_index (CHR '':'') ((CHR ''['' # host @ [CHR '']'']) @ CHR '':'' # port) = Some (length host + 2)"
    using last_index_append [OF assms(3), of "CHR ''['' # host @ [CHR '']'']"] by simp
  moreover have "first_index (CHR '']'') ((CHR ''['' # host) @ CHR '']'' # CHR '':'' # port) = Some (length host + 1)"
    using first_index_append [of "CHR '']''" "CHR ''['' # host" "CHR '':'' # port"] assms(1)
    by (simp add: no_brackets_def)
  ultimately show ?thesis using True assms(1,2)
    by (simp add: SplitHostPort_def JoinHostPort_def no_brackets_def)
next
  case False
  have "hd (host @ CHR '':'' # port) \<noteq> CHR ''[''"
    using assms(1) by (cases host) (auto simp: no_brackets_def)
  with False assms show ?thesis
    by (simp add: SplitHostPort_def JoinHostPort_def last_index_append no_brackets_def)
qed

section \<open>The checks\<close>

definition checkAPIToken :: "config \<Rightarrow> request \<Rightarrow> pg_error + unit" where
  "checkAPIToken cfg r =
     (if APIToken cfg = [] then Inr ()
      else if \<not> HasPrefix (authHeader r) ''Bearer '' then
        Inl (Err ''missing or malformed Authorization header'')
      else if TrimPrefix (authHeader r) ''Bearer '' \<noteq> APIToken cfg then Inl (Err ''invalid token'')
      else Inr ())"

definition remoteMatchesPeerIP :: "env \<Rightarrow> string \<Rightarrow> world \<Rightarrow> bool \<times> world" where
  "remoteMatchesPeerIP E remoteIP w =
     (case lookup_host E (calls w) of
        None \<Rightarrow> False
      | Some ips \<Rightarrow> list_ex (\<lambda>ip. ip = remoteIP) ips,
      tick E w)"

text \<open>A name of the caller counts if it is the peer's, alone or with a domain behind it.\<close>

definition name_of_peer :: "string \<Rightarrow> string \<Rightarrow> bool" where
  "name_of_peer peerHost n =
     (let m = TrimSuffix n ''.'' in m = peerHost \<or> HasPrefix m (peerHost @ ''.''))"

definition remoteMatchesPeerDNS :: "env \<Rightarrow> string \<Rightarrow> world \<Rightarrow> bool \<times> world" where
  "remoteMatchesPeerDNS E peerHost w =
     (case lookup_addr E (calls w) of
        None \<Rightarrow> False
      | Some names \<Rightarrow> list_ex (name_of_peer peerHost) names,
      tick E w)"

definition remote_ip :: "request \<Rightarrow> string" where
  "remote_ip r = (case SplitHostPort (RemoteAddr r) of None \<Rightarrow> RemoteAddr r | Some (host, _) \<Rightarrow> host)"

definition checkPeerOrigin :: "env \<Rightarrow> config \<Rightarrow> request \<Rightarrow> world \<Rightarrow> (pg_error + unit) \<times> world" where
  "checkPeerOrigin E cfg r w =
     (if PeerVerify cfg = ''off'' then (Inr (), w)
      else if PeerHost cfg = [] then
        (Inl (Err ''peer verification enabled but no peer is configured''), w)
      else
        (let (ipOK, w1) =
               (if PeerVerify cfg \<in> {''ip'', ''both''} then remoteMatchesPeerIP E (remote_ip r) w
                else (False, w));
             (dnsOK, w2) =
               (if PeerVerify cfg \<in> {''dns'', ''both''} then remoteMatchesPeerDNS E (PeerHost cfg) w1
                else (False, w1))
         in (if PeerVerify cfg = ''ip'' \<and> \<not> ipOK then Inl (Err ''caller does not resolve-match peer'')
             else if PeerVerify cfg = ''dns'' \<and> \<not> dnsOK then
               Inl (Err ''caller does not reverse-DNS-match peer'')
             else if PeerVerify cfg = ''both'' \<and> (\<not> ipOK \<or> \<not> dnsOK) then
               Inl (Err ''caller failed peer verification'')
             else Inr (), w2)))"

text \<open>
  \<open>requireHAAuth\<close>: the handler \<open>next\<close> runs after both checks, else the caller gets \<open>refuse\<close> with a
  status and the error. What a handler returns is left open here.
\<close>

definition requireHAAuth ::
  "env \<Rightarrow> config \<Rightarrow> (int \<Rightarrow> pg_error \<Rightarrow> 'a) \<Rightarrow> (request \<Rightarrow> world \<Rightarrow> 'a \<times> world) \<Rightarrow> request \<Rightarrow> world \<Rightarrow>
     'a \<times> world" where
  "requireHAAuth E cfg refuse handler r w =
     (case checkAPIToken cfg r of
        Inl e \<Rightarrow> (refuse 401 e, w)
      | Inr _ \<Rightarrow>
          (case checkPeerOrigin E cfg r w of
             (Inl e, w1) \<Rightarrow> (refuse 403 e, w1)
           | (Inr _, w1) \<Rightarrow> handler r w1))"

section \<open>Who is let in\<close>

definition holds_token :: "config \<Rightarrow> request \<Rightarrow> bool" where
  "holds_token cfg r \<longleftrightarrow> APIToken cfg = [] \<or> authHeader r = ''Bearer '' @ APIToken cfg"

text \<open>The lookups of one check happen at the calls \<open>k\<close> and, for both, \<open>k + 1\<close>.\<close>

definition resolves_to :: "env \<Rightarrow> nat \<Rightarrow> string \<Rightarrow> bool" where
  "resolves_to E k ip \<longleftrightarrow> (\<exists>ips. lookup_host E k = Some ips \<and> ip \<in> set ips)"

definition named_as :: "env \<Rightarrow> nat \<Rightarrow> string \<Rightarrow> bool" where
  "named_as E k host \<longleftrightarrow>
     (\<exists>names n. lookup_addr E k = Some names \<and> n \<in> set names \<and> name_of_peer host n)"

definition comes_from_peer :: "env \<Rightarrow> config \<Rightarrow> request \<Rightarrow> nat \<Rightarrow> bool" where
  "comes_from_peer E cfg r k \<longleftrightarrow>
     (if PeerVerify cfg = ''off'' then True
      else PeerHost cfg \<noteq> [] \<and>
        (if PeerVerify cfg = ''ip'' then resolves_to E k (remote_ip r)
         else if PeerVerify cfg = ''dns'' then named_as E k (PeerHost cfg)
         else if PeerVerify cfg = ''both''
           then resolves_to E k (remote_ip r) \<and> named_as E (Suc k) (PeerHost cfg)
         else True))"

lemma checkAPIToken_iff: "checkAPIToken cfg r = Inr () \<longleftrightarrow> holds_token cfg r"
  by (auto simp: checkAPIToken_def holds_token_def HasPrefix_iff TrimPrefix_def)

lemma checkPeerOrigin_iff:
  "fst (checkPeerOrigin E cfg r w) = Inr () \<longleftrightarrow> comes_from_peer E cfg r (calls w)"
  by (auto simp: checkPeerOrigin_def comes_from_peer_def remoteMatchesPeerIP_def remoteMatchesPeerDNS_def
      resolves_to_def named_as_def list_ex_iff Let_def split: option.splits)

lemma only_observed_checkPeerOrigin [simp, intro]: "only_observed w (snd (checkPeerOrigin E cfg r w))"
  by (auto simp: checkPeerOrigin_def remoteMatchesPeerIP_def remoteMatchesPeerDNS_def Let_def
      intro: only_observed_trans [OF only_observed_tick only_observed_tick])

lemma checkPeerOrigin_trace [simp]: "trace (snd (checkPeerOrigin E cfg r w)) = trace w"
  by (auto simp: checkPeerOrigin_def remoteMatchesPeerIP_def remoteMatchesPeerDNS_def Let_def)

text \<open>Both ends of a handler behind the checks.\<close>

lemma requireHAAuth_cases:
  obtains (no_token) e where "\<not> holds_token cfg r" "requireHAAuth E cfg refuse h r w = (refuse 401 e, w)"
  | (no_peer) e where "holds_token cfg r" "\<not> comes_from_peer E cfg r (calls w)"
      "requireHAAuth E cfg refuse h r w = (refuse 403 e, snd (checkPeerOrigin E cfg r w))"
  | (authorised) "holds_token cfg r" "comes_from_peer E cfg r (calls w)"
      "requireHAAuth E cfg refuse h r w = h r (snd (checkPeerOrigin E cfg r w))"
proof (cases "checkAPIToken cfg r")
  case (Inl e)
  then show thesis using checkAPIToken_iff [of cfg r]
    by (intro no_token [of e]) (auto simp: requireHAAuth_def)
next
  case (Inr u)
  then have t: "holds_token cfg r" using checkAPIToken_iff [of cfg r] by simp
  obtain o' v where o: "checkPeerOrigin E cfg r w = (o', v)" by (rule prod.exhaust)
  show thesis
  proof (cases o')
    case (Inl e)
    with o show thesis using checkPeerOrigin_iff [of E cfg r w] Inr
      by (intro no_peer [OF t, of e]) (auto simp: requireHAAuth_def)
  next
    case (Inr u')
    with o show thesis using checkPeerOrigin_iff [of E cfg r w] \<open>checkAPIToken cfg r = Inr u\<close>
      by (intro authorised [OF t]) (auto simp: requireHAAuth_def)
  qed
qed

end
