(* ===== verification/Timestamp.thy ===== *)
theory Timestamp
  imports GoStrings "HOL-Library.Char_ord" "HOL-Library.List_Lexorder"
begin

text \<open>
  UTC calendar time and the layout \<open>20060102T150405Z\<close> of \<open>time.Time.Format\<close>, for the years 1 to
  9999, with the fact the pruning of backups rests on: in this layout the order of the names is the
  order of the times. A time is a number of nanoseconds since 1970.
\<close>

section \<open>Calendar\<close>

definition unix_epoch_day :: nat where
  "unix_epoch_day = 719162"

text \<open>Days and seconds since the start of the year 1.\<close>

definition abs_seconds :: "int \<Rightarrow> nat" where
  "abs_seconds t = nat (t div 1000000000 + int unix_epoch_day * 86400)"

text \<open>Cutting off cycles of 400, 100, 4 and 1 years, as the library does.\<close>

definition year_day :: "nat \<Rightarrow> nat \<times> nat" where
  "year_day d =
     (let a = d div 146097; d1 = d mod 146097;
          b = min 3 (d1 div 36524); d2 = d1 - 36524 * b;
          c = d2 div 1461; d3 = d2 mod 1461;
          e = min 3 (d3 div 365)
      in (400 * a + 100 * b + 4 * c + e + 1, d3 - 365 * e))"

definition leap :: "nat \<Rightarrow> bool" where
  "leap y \<longleftrightarrow> y mod 4 = 0 \<and> (y mod 100 \<noteq> 0 \<or> y mod 400 = 0)"

definition month_lengths :: "nat \<Rightarrow> nat list" where
  "month_lengths y = [31, if leap y then 29 else 28, 31, 30, 31, 30, 31, 31, 30, 31, 30]"

text \<open>Month and day of the month; the last month takes what is left.\<close>

fun month_day :: "nat list \<Rightarrow> nat \<Rightarrow> nat \<Rightarrow> nat \<times> nat" where
  "month_day [] m d = (m, d + 1)"
| "month_day (l # ls) m d = (if d < l then (m, d + 1) else month_day ls (Suc m) (d - l))"

definition date_fields :: "nat \<Rightarrow> nat list" where
  "date_fields d =
     (let (y, k) = year_day d; (m, i) = month_day (month_lengths y) 1 k in [y, m, i])"

definition clock_fields :: "nat \<Rightarrow> nat list" where
  "clock_fields s = [s div 3600, s div 60 mod 60, s mod 60]"

section \<open>Order\<close>

lemma mod_mono_same_div: "d \<le> d' \<Longrightarrow> d div k = d' div k \<Longrightarrow> d mod k \<le> d' mod (k :: nat)"
  by (metis diff_le_mono minus_div_mult_eq_mod)

lemma mod_less_same_div: "d < d' \<Longrightarrow> d div k = d' div k \<Longrightarrow> d mod k < d' mod (k :: nat)"
  by (metis div_mult_mod_eq nat_add_left_cancel_less)

lemma year_day_mono:
  assumes "d < d'"
  shows "fst (year_day d) < fst (year_day d') \<or>
    fst (year_day d) = fst (year_day d') \<and> snd (year_day d) < snd (year_day d')"
proof -
  define a d1 where "a = d div 146097" and "d1 = d mod 146097"
  define b d2 where "b = min 3 (d1 div 36524)" and "d2 = d1 - 36524 * b"
  define c d3 where "c = d2 div 1461" and "d3 = d2 mod 1461"
  define e k where "e = min 3 (d3 div 365)" and "k = d3 - 365 * e"
  define a' d1' where "a' = d' div 146097" and "d1' = d' mod 146097"
  define b' d2' where "b' = min 3 (d1' div 36524)" and "d2' = d1' - 36524 * b'"
  define c' d3' where "c' = d2' div 1461" and "d3' = d2' mod 1461"
  define e' k' where "e' = min 3 (d3' div 365)" and "k' = d3' - 365 * e'"
  have y: "year_day d = (400 * a + 100 * b + 4 * c + e + 1, k)"
    "year_day d' = (400 * a' + 100 * b' + 4 * c' + e' + 1, k')"
    by (simp_all only: year_day_def Let_def a_def d1_def b_def d2_def c_def d3_def e_def k_def
        a'_def d1'_def b'_def d2'_def c'_def d3'_def e'_def k'_def)
  have r: "d1 < 146097" "d1' < 146097" by (simp_all add: d1_def d1'_def)
  have "d2 \<le> 36524" "d2' \<le> 36524" using r by (auto simp: d2_def d2'_def b_def b'_def min_def)
  then have c24: "c \<le> 24" "c' \<le> 24" by (simp_all add: c_def c'_def)
  have lim: "b \<le> 3" "b' \<le> 3" "e \<le> 3" "e' \<le> 3" by (simp_all add: b_def b'_def e_def e'_def)
  have aa: "a \<le> a'" using assms by (simp add: a_def a'_def div_le_mono less_imp_le)
  have 1: "d1 < d1'" if "a = a'"
    using mod_less_same_div [OF assms] that by (simp add: a_def a'_def d1_def d1'_def)
  have bb: "b \<le> b'" if "a = a'"
    using div_le_mono [OF less_imp_le [OF 1 [OF that]], of 36524] by (simp add: b_def b'_def min_def)
  have "36524 * b \<le> d1" by (simp add: b_def min_def) linarith
  then have 2: "d2 < d2'" if "a = a'" "b = b'" using 1 that by (simp add: d2_def d2'_def diff_less_mono)
  have cc: "c \<le> c'" if "a = a'" "b = b'" using div_le_mono [OF less_imp_le [OF 2 [OF that]], of 1461] by (simp add: c_def c'_def)
  have 3: "d3 < d3'" if "a = a'" "b = b'" "c = c'"
    using mod_less_same_div [OF 2] that by (simp add: c_def c'_def d3_def d3'_def)
  have ee: "e \<le> e'" if "a = a'" "b = b'" "c = c'"
    using div_le_mono [OF less_imp_le [OF 3 [OF that]], of 365] by (simp add: e_def e'_def min_def)
  have "365 * e \<le> d3" by (simp add: e_def min_def) linarith
  then have 4: "k < k'" if "a = a'" "b = b'" "c = c'" "e = e'" using 3 that by (simp add: k_def k'_def diff_less_mono)
  consider "a < a'" | "a = a'" "b < b'" | "a = a'" "b = b'" "c < c'" | "a = a'" "b = b'" "c = c'" "e < e'"
    | "a = a'" "b = b'" "c = c'" "e = e'"
    using aa bb cc ee by (metis le_neq_implies_less)
  then show ?thesis
    unfolding y fst_conv snd_conv
    by cases (use c24 lim 4 in linarith)+
qed

lemma month_day_ge: "m \<le> fst (month_day ls m d)"
  by (induction ls m d rule: month_day.induct) (auto intro: Suc_leD)

lemma month_day_mono:
  assumes "d < d'"
  shows "fst (month_day ls m d) < fst (month_day ls m d') \<or>
    fst (month_day ls m d) = fst (month_day ls m d') \<and> snd (month_day ls m d) < snd (month_day ls m d')"
  using assms
proof (induction ls arbitrary: m d d')
  case Nil
  then show ?case by simp
next
  case (Cons l ls)
  show ?case
  proof (cases "d < l \<and> \<not> d' < l")
    case True
    then show ?thesis using month_day_ge [of "Suc m" ls "d' - l"] by simp
  next
    case False
    with Cons.prems Cons.IH [of "d - l" "d' - l" "Suc m"] show ?thesis by auto
  qed
qed

lemma date_fields_mono:
  assumes "d < d'"
  shows "date_fields d < date_fields d'"
proof -
  obtain y k where yk: "year_day d = (y, k)" by (rule prod.exhaust)
  obtain y' k' where yk': "year_day d' = (y', k')" by (rule prod.exhaust)
  from year_day_mono [OF assms] have "y < y' \<or> y = y' \<and> k < k'" by (simp add: yk yk')
  then show ?thesis
    using month_day_mono [of k k' "month_lengths y" 1]
    by (auto simp: date_fields_def yk yk' split_beta)
qed

lemma clock_fields_mono:
  assumes "s \<le> s'"
  shows "clock_fields s \<le> clock_fields s'"
proof -
  have a: "s div 3600 \<le> s' div 3600" and b: "s div 60 \<le> s' div 60" using assms by (simp_all add: div_le_mono)
  have h: "x div 3600 = x div 60 div 60" for x :: nat by (simp add: div_mult2_eq [symmetric])
  have c: "s div 60 mod 60 \<le> s' div 60 mod 60" if "s div 3600 = s' div 3600"
    using mod_mono_same_div [OF b] that by (simp add: h)
  have d: "s div 60 = s' div 60" if "s div 3600 = s' div 3600" "s div 60 mod 60 = s' div 60 mod 60"
    using that unfolding h by (metis div_mult_mod_eq)
  have e: "s mod 60 \<le> s' mod 60" if "s div 60 = s' div 60"
    using mod_mono_same_div [OF assms] that by simp
  consider "s div 3600 < s' div 3600" | "s div 3600 = s' div 3600" "s div 60 mod 60 < s' div 60 mod 60"
    | "s div 3600 = s' div 3600" "s div 60 mod 60 = s' div 60 mod 60" "s mod 60 \<le> s' mod 60"
    using a c d e by (metis le_neq_implies_less)
  then show ?thesis by cases (auto simp: clock_fields_def le_less)
qed

section \<open>Formatting\<close>

text \<open>\<open>w\<close> decimal digits.\<close>

fun pad :: "nat \<Rightarrow> nat \<Rightarrow> string" where
  "pad 0 n = []"
| "pad (Suc w) n = pad w (n div 10) @ [digit (n mod 10)]"

definition FormatTimestamp :: "int \<Rightarrow> string" where
  "FormatTimestamp t =
     (let s = abs_seconds t
      in concat (map2 pad [4, 2, 2] (date_fields (s div 86400))) @ ''T'' @
         concat (map2 pad [2, 2, 2] (clock_fields (s mod 86400))) @ ''Z'')"

lemma length_pad [simp]: "length (pad w n) = w"
  by (induction w arbitrary: n) auto

lemma pad_two: "pad 2 n = [digit (n div 10 mod 10), digit (n mod 10)]"
  by (simp add: numeral_2_eq_2)

lemma pad_four:
  "pad 4 n = [digit (n div 10 div 10 div 10 mod 10), digit (n div 10 div 10 mod 10),
     digit (n div 10 mod 10), digit (n mod 10)]"
proof -
  have "4 = Suc (Suc (Suc (Suc 0)))" by simp
  then show ?thesis by (simp only: pad.simps append.simps)
qed

lemma digit_le: "d < 10 \<Longrightarrow> e < 10 \<Longrightarrow> digit d \<le> digit e \<longleftrightarrow> d \<le> e"
  by (simp add: digit_def less_eq_char_def)

lemma digit_less: "d < 10 \<Longrightarrow> e < 10 \<Longrightarrow> digit d < digit e \<longleftrightarrow> d < e"
  by (simp add: digit_def less_char_def)

lemma lex_append:
  fixes xs ys us vs :: "'a :: linorder list"
  assumes "length xs = length ys"
  shows "xs @ us \<le> ys @ vs \<longleftrightarrow> xs < ys \<or> xs = ys \<and> us \<le> vs"
    and "xs @ us < ys @ vs \<longleftrightarrow> xs < ys \<or> xs = ys \<and> us < vs"
  using assms by (induction xs ys rule: list_induct2) auto

lemma less_by_digits:
  "n < n' \<longleftrightarrow> n div 10 < n' div 10 \<or> n div 10 = n' div 10 \<and> n mod 10 < n' mod (10 :: nat)"
proof (cases "n div 10 = n' div 10")
  case True
  have "n = n div 10 * 10 + n mod 10" "n' = n div 10 * 10 + n' mod 10"
    using div_mult_mod_eq [of n 10] div_mult_mod_eq [of n' 10] True by simp_all
  then have "n < n' \<longleftrightarrow> n mod 10 < n' mod 10" by linarith
  with True show ?thesis by simp
next
  case False
  then show ?thesis
    using div_le_mono [of n n' 10] div_le_mono [of n' n 10]
    by (cases "n \<le> n'") (auto simp: le_less not_le)
qed

lemma pad_less: "n < 10 ^ w \<Longrightarrow> n' < 10 ^ w \<Longrightarrow> pad w n < pad w n' \<longleftrightarrow> n < n'"
proof (induction w arbitrary: n n')
  case 0
  then show ?case by simp
next
  case (Suc w)
  have q: "n div 10 < 10 ^ w" "n' div 10 < 10 ^ w" using Suc.prems by (simp_all add: less_mult_imp_div_less)
  have eq: "pad w (n div 10) = pad w (n' div 10) \<longleftrightarrow> n div 10 = n' div 10"
    using Suc.IH [OF q] Suc.IH [OF q(2,1)] by (metis linorder_neq_iff)
  have "pad (Suc w) n < pad (Suc w) n' \<longleftrightarrow>
      n div 10 < n' div 10 \<or> n div 10 = n' div 10 \<and> n mod 10 < n' mod 10"
    by (simp add: lex_append eq Suc.IH [OF q] digit_less)
  also have "\<dots> \<longleftrightarrow> n < n'" by (rule less_by_digits [symmetric])
  finally show ?case .
qed

lemma pad_inj: "n < 10 ^ w \<Longrightarrow> n' < 10 ^ w \<Longrightarrow> pad w n = pad w n' \<longleftrightarrow> n = n'"
  by (metis linorder_neq_iff pad_less)

text \<open>Fields of fixed width in the order of the lists.\<close>

lemma length_fields:
  "length ws = length xs \<Longrightarrow> length (concat (map2 pad ws xs)) = sum_list ws"
  by (induction ws xs rule: list_induct2) auto

lemma fields_mono:
  assumes "length ws = length xs" and "length xs = length ys"
    and "\<forall>(w, x) \<in> set (zip ws xs). x < 10 ^ w" and "\<forall>(w, y) \<in> set (zip ws ys). y < 10 ^ w"
  shows "concat (map2 pad ws xs) \<le> concat (map2 pad ws ys) \<longleftrightarrow> xs \<le> ys"
    and "concat (map2 pad ws xs) = concat (map2 pad ws ys) \<longleftrightarrow> xs = ys"
  using assms
  by (induction ws xs ys rule: list_induct3) (simp_all add: lex_append pad_less pad_inj)

section \<open>The fields fit\<close>

lemma month_day_bounds:
  "d < sum_list ls + 31 \<Longrightarrow> (\<forall>l \<in> set ls. l \<le> 31) \<Longrightarrow>
   fst (month_day ls m d) \<le> m + length ls \<and> snd (month_day ls m d) \<le> 31"
proof (induction ls m d rule: month_day.induct)
  case (1 m d)
  then show ?case by simp
next
  case (2 l ls m d)
  then show ?case by (cases "d < l") auto
qed

lemma leap_fourth_year:
  assumes "c < 24"
  shows "leap (400 * a + 100 * b + 4 * c + 3 + 1)"
proof -
  have "4 * Suc c < 100" using assms by simp
  then have "(100 * (4 * a + b) + 4 * Suc c) mod 100 = 4 * Suc c"
    by (simp only: mod_mult_self4 mod_less)
  moreover have "(4 * (100 * a + 25 * b + c + 1)) mod 4 = 0" by (rule mod_mult_self1_is_0)
  moreover have "400 * a + 100 * b + 4 * c + 3 + 1 = 100 * (4 * a + b) + 4 * Suc c"
    "400 * a + 100 * b + 4 * c + 3 + 1 = 4 * (100 * a + 25 * b + c + 1)" by simp_all
  ultimately show ?thesis unfolding leap_def by (metis Suc_not_Zero mult_is_0 zero_neq_numeral)
qed

lemma year_day_bounds: "snd (year_day d) < (if leap (fst (year_day d)) then 366 else 365)"
proof -
  define a d1 where "a = d div 146097" and "d1 = d mod 146097"
  define b d2 where "b = min 3 (d1 div 36524)" and "d2 = d1 - 36524 * b"
  define c d3 where "c = d2 div 1461" and "d3 = d2 mod 1461"
  define e k where "e = min 3 (d3 div 365)" and "k = d3 - 365 * e"
  have y: "year_day d = (400 * a + 100 * b + 4 * c + e + 1, k)"
    by (simp only: year_day_def Let_def a_def d1_def b_def d2_def c_def d3_def e_def k_def)
  have d1: "d1 < 146097" by (simp add: d1_def)
  have d2: "d2 \<le> 36524" "b < 3 \<longrightarrow> d2 < 36524" using d1 by (auto simp: d2_def b_def min_def)
  have c: "c \<le> 24" using d2 by (simp add: c_def)
  have d3: "d2 = 1461 * c + d3" "d3 < 1461" by (simp_all add: c_def d3_def)
  have b: "b \<le> 3" by (simp add: b_def)
  have e: "e \<le> 3" "365 * e \<le> d3" "d3 < 365 * e + 365 \<or> e = 3"
    by (auto simp: e_def min_def)
  show ?thesis
  proof (cases "k < 365")
    case True
    then show ?thesis by (simp add: y)
  next
    case False
    with e d3(2) have "e = 3" "d3 = 1460" "k = 365" by (auto simp: k_def)
    with d3(1) d2 c b have "c < 24 \<or> b = 3" by auto
    moreover have "leap (400 * a + 100 * b + 4 * c + 3 + 1)" if "b = 3" "c = 24"
    proof -
      have "400 * a + 100 * b + 4 * c + 3 + 1 = 400 * (a + 1)" using that by simp
      moreover have "(400 * (a + 1)) mod 400 = 0" "(4 * (100 * (a + 1))) mod 4 = 0"
        by (rule mod_mult_self1_is_0)+
      moreover have "400 * (a + 1) = 4 * (100 * (a + 1))" by simp
      ultimately show ?thesis unfolding leap_def by metis
    qed
    ultimately have "leap (400 * a + 100 * b + 4 * c + 3 + 1)"
      using leap_fourth_year [of c a b] c by (cases "c = 24") auto
    with \<open>e = 3\<close> \<open>k = 365\<close> show ?thesis by (simp add: y)
  qed
qed

text \<open>Up to the end of the year 9999.\<close>

definition printable_time :: "int \<Rightarrow> bool" where
  "printable_time t \<longleftrightarrow>
     0 \<le> t div 1000000000 + int unix_epoch_day * 86400 \<and> fst (year_day (abs_seconds t div 86400)) \<le> 9999"

lemma fields_fit:
  assumes "printable_time t"
  shows "\<forall>(w, x) \<in> set (zip [4, 2, 2] (date_fields (abs_seconds t div 86400))). x < 10 ^ w"
    and "\<forall>(w, x) \<in> set (zip [2, 2, 2] (clock_fields (abs_seconds t mod 86400))). x < 10 ^ w"
proof -
  obtain y k where yk: "year_day (abs_seconds t div 86400) = (y, k)" by (rule prod.exhaust)
  have y: "y \<le> 9999" using assms by (simp add: printable_time_def yk)
  have "k < sum_list (month_lengths y) + 31"
    using year_day_bounds [of "abs_seconds t div 86400"] by (simp add: yk month_lengths_def split: if_splits)
  moreover have "\<forall>l \<in> set (month_lengths y). l \<le> 31" by (auto simp: month_lengths_def)
  ultimately have "fst (month_day (month_lengths y) 1 k) \<le> 12" "snd (month_day (month_lengths y) 1 k) \<le> 31"
    using month_day_bounds [of k "month_lengths y" 1] by (auto simp: month_lengths_def)
  with y show "\<forall>(w, x) \<in> set (zip [4, 2, 2] (date_fields (abs_seconds t div 86400))). x < 10 ^ w"
    by (simp add: date_fields_def yk split_beta)
  have "abs_seconds t mod 86400 div 3600 < 24" by (simp add: less_mult_imp_div_less)
  moreover have "n mod 60 < 100" for n :: nat by (rule less_trans [of _ 60]) simp_all
  ultimately show "\<forall>(w, x) \<in> set (zip [2, 2, 2] (clock_fields (abs_seconds t mod 86400))). x < 10 ^ w"
    by (simp add: clock_fields_def)
qed

lemma FormatTimestamp_mono:
  assumes "t \<le> t'" and "printable_time t" and "printable_time t'"
  shows "FormatTimestamp t \<le> FormatTimestamp t'"
proof -
  define s s' where "s = abs_seconds t" and "s' = abs_seconds t'"
  have "t div 1000000000 \<le> t' div 1000000000" using assms(1) by (simp add: zdiv_mono1)
  then have ss: "s \<le> s'" by (simp add: s_def s'_def abs_seconds_def nat_mono)
  have day: "s div 86400 \<le> s' div 86400" using ss by (rule div_le_mono)
  note fit = fields_fit [OF assms(2), folded s_def] fields_fit [OF assms(3), folded s'_def]
  have len: "length (date_fields n) = 3" "length (clock_fields n) = 3" for n
    by (simp_all add: date_fields_def clock_fields_def split_beta)
  define D D' where "D = concat (map2 pad [4, 2, 2] (date_fields (s div 86400)))"
    and "D' = concat (map2 pad [4, 2, 2] (date_fields (s' div 86400)))"
  define C C' where "C = concat (map2 pad [2, 2, 2] (clock_fields (s mod 86400)))"
    and "C' = concat (map2 pad [2, 2, 2] (clock_fields (s' mod 86400)))"
  have lens: "length D = length D'" "length C = length C'"
    unfolding D_def D'_def C_def C'_def by (simp_all add: length_fields len)
  have dates: "D \<le> D' \<longleftrightarrow> date_fields (s div 86400) \<le> date_fields (s' div 86400)"
    "D = D' \<longleftrightarrow> date_fields (s div 86400) = date_fields (s' div 86400)"
    unfolding D_def D'_def using fields_mono [OF _ _ fit(1,3)] len by simp_all
  have clocks: "C \<le> C' \<longleftrightarrow> clock_fields (s mod 86400) \<le> clock_fields (s' mod 86400)"
    unfolding C_def C'_def using fields_mono(1) [OF _ _ fit(2,4)] len by simp
  have "D < D' \<or> D = D' \<and> C \<le> C'"
  proof (cases "s div 86400 = s' div 86400")
    case True
    then show ?thesis
      using dates(2) clocks clock_fields_mono [OF mod_mono_same_div [OF ss True]] by simp
  next
    case False
    with day have "s div 86400 < s' div 86400" by simp
    from date_fields_mono [OF this] show ?thesis using dates by (auto simp: less_le)
  qed
  moreover have "C @ ''Z'' \<le> C' @ ''Z''" if "C \<le> C'"
    using that lens(2) by (auto simp: lex_append le_less)
  ultimately show ?thesis
    unfolding FormatTimestamp_def Let_def s_def [symmetric] s'_def [symmetric]
      D_def [symmetric] D'_def [symmetric] C_def [symmetric] C'_def [symmetric]
    using lens by (auto simp: lex_append)
qed

text \<open>The shape of a name: eight digits, \<open>T\<close>, six digits, \<open>Z\<close>.\<close>

definition is_stamp :: "string \<Rightarrow> bool" where
  "is_stamp s \<longleftrightarrow> length s = 16 \<and> (\<forall>c \<in> set (take 8 s). digit_val c \<noteq> None) \<and> s ! 8 = CHR ''T'' \<and>
     (\<forall>c \<in> set (take 6 (drop 9 s)). digit_val c \<noteq> None) \<and> s ! 15 = CHR ''Z''"

lemma pad_digits: "c \<in> set (pad w n) \<Longrightarrow> digit_val c \<noteq> None"
  by (induction w arbitrary: n) (auto simp: digit_val_digit)

lemma FormatTimestamp_stamp: "is_stamp (FormatTimestamp t)"
proof -
  define D C where "D = concat (map2 pad [4, 2, 2] (date_fields (abs_seconds t div 86400)))"
    and "C = concat (map2 pad [2, 2, 2] (clock_fields (abs_seconds t mod 86400)))"
  have f: "FormatTimestamp t = D @ ''T'' @ C @ ''Z''" by (simp add: FormatTimestamp_def D_def C_def Let_def)
  have l: "length D = 8" "length C = 6"
    by (simp_all add: D_def C_def length_fields date_fields_def clock_fields_def split_beta)
  have "\<forall>c \<in> set D \<union> set C. digit_val c \<noteq> None"
    unfolding D_def C_def by (auto dest: pad_digits)
  then show ?thesis using l by (simp add: is_stamp_def f nth_append)
qed

text \<open>Such a name has no separator and is not a dot element.\<close>

lemma FormatTimestamp_chars:
  "c \<in> set (FormatTimestamp t) \<Longrightarrow> digit_val c \<noteq> None \<or> c \<in> {CHR ''T'', CHR ''Z''}"
  by (auto simp: FormatTimestamp_def Let_def dest: pad_digits)

lemma FormatTimestamp_length: "length (FormatTimestamp t) = 16"
  using FormatTimestamp_stamp by (simp add: is_stamp_def)

end
