(* ===== verification/Backup.thy ===== *)
theory Backup
  imports Rejoin Timestamp
begin

text \<open>
  \<open>src/src/backup.go\<close>: backups into a directory with count-based retention, or piped into a
  command, or to standard output. The entries of \<open>PG_GUARD_BACKUP_DIR\<close> are \<open>backup_entries\<close>, names
  with a flag for directories; what \<open>pg_basebackup\<close> leaves there is the environment's
  \<open>backup_reply\<close>.
\<close>

section \<open>One backup\<close>

text \<open>\<open>errors.Is\<close> looks through wrapped errors.\<close>

fun errors_Is :: "pg_error \<Rightarrow> pg_error \<Rightarrow> bool" where
  "errors_Is (Wrap m e) t = (Wrap m e = t \<or> errors_Is e t)"
| "errors_Is e t = (e = t)"

definition backup_args :: "config \<Rightarrow> string \<Rightarrow> string list" where
  "backup_args cfg dest =
     [''-h'', ''127.0.0.1'', ''-p'', Itoa (PGPort cfg), ''-U'', ReplUser cfg, ''-D'', dest,
      ''-F'', ''tar'', ''-z'', ''-X'', ''stream'', ''-c'', ''fast'']"

definition run_backup_tool :: "env \<Rightarrow> string \<Rightarrow> string list \<Rightarrow> world \<Rightarrow> (pg_error + unit) \<times> world" where
  "run_backup_tool E tool args w =
     (let w1 = tick E w
      in if \<not> spawn_ok E (calls w) then (Inl (Err ''starting command''), w1)
         else
           (let (code, es) = backup_reply E (calls w) args (backup_entries w1);
                w2 = emit (EvTool tool args code) (w1\<lparr>backup_entries := es\<rparr>)
            in if code \<noteq> 0 then (Inl (ErrCode ''exit status'' code), w2) else (Inr (), w2)))"

definition runBackup :: "env \<Rightarrow> config \<Rightarrow> world \<Rightarrow> (pg_error + string) \<times> world" where
  "runBackup E cfg w =
     (if backupInProgress w then (Inl errBackupInProgress, w)
      else
        (let w0 = w\<lparr>backupInProgress := True\<rparr>;
             finish = (\<lambda>v. v\<lparr>backupInProgress := False\<rparr>)
         in if BackupDir cfg = [] then (Inl (Err ''PG_GUARD_BACKUP_DIR is not set''), finish w0)
            else
              (let w1 = tick E w0
               in if \<not> io_ok E (calls w0) then (Inl (Err ''creating backup directory''), finish w1)
                  else
                    (let dest = JoinPath [BackupDir cfg, FormatTimestamp (now w1)]
                     in case run_backup_tool E (pgTool cfg ''pg_basebackup'') (backup_args cfg dest @ [''-P'']) w1 of
                          (Inl e, w2) \<Rightarrow> (Inl (Wrap ''output'' e), finish w2)
                        | (Inr _, w2) \<Rightarrow> (Inr dest, finish w2)))))"

text \<open>
  The pipe: opening it, starting the command, starting \<open>pg_basebackup\<close> (else the command is
  killed), then waiting for both.
\<close>

definition runBackupPipe :: "env \<Rightarrow> config \<Rightarrow> world \<Rightarrow> (pg_error + unit) \<times> world" where
  "runBackupPipe E cfg w =
     (if backupInProgress w then (Inl errBackupInProgress, w)
      else
        (let w0 = w\<lparr>backupInProgress := True\<rparr>;
             finish = (\<lambda>v. v\<lparr>backupInProgress := False\<rparr>);
             w1 = tick E w0; w2 = tick E w1; w3 = tick E w2; w4 = tick E w3;
             tool = pgTool cfg ''pg_basebackup''; args = backup_args cfg ''-''
         in if \<not> io_ok E (calls w0) then (Inl (Err ''wiring pg_basebackup output''), finish w1)
            else if \<not> spawn_ok E (calls w1) then
              (Inl (Err ''starting PG_GUARD_BACKUP_COMMAND''), finish w2)
            else if \<not> spawn_ok E (calls w2) then (Inl (Err ''starting pg_basebackup''), finish w3)
            else
              (let pgCode = pipe_reply E (calls w2); destCode = pipe_reply E (calls w3);
                   w5 = emit (EvTool (BackupCommand cfg) [] destCode) (emit (EvTool tool args pgCode) w4)
               in if pgCode \<noteq> 0 then (Inl (Wrap ''pg_basebackup'' (ErrCode ''exit status'' pgCode)), finish w5)
                  else if destCode \<noteq> 0 then
                    (Inl (Wrap ''PG_GUARD_BACKUP_COMMAND'' (ErrCode ''exit status'' destCode)), finish w5)
                  else (Inr (), finish w5))))"

section \<open>Retention\<close>

definition is_backup :: "string \<times> bool \<Rightarrow> bool" where
  "is_backup e \<longleftrightarrow> snd e \<and> is_stamp (fst e)"

definition backup_names :: "(string \<times> bool) list \<Rightarrow> string list" where
  "backup_names es = map fst (filter is_backup es)"

text \<open>Removing the names one by one, up to the first failure.\<close>

fun remove_backups :: "env \<Rightarrow> string list \<Rightarrow> world \<Rightarrow> (pg_error + unit) \<times> world" where
  "remove_backups E [] w = (Inr (), w)"
| "remove_backups E (n # ns) w =
     (let w1 = tick E w
      in if \<not> io_ok E (calls w) then (Inl (Err ''removing old backup''), w1)
         else remove_backups E ns (w1\<lparr>backup_entries := filter (\<lambda>e. fst e \<noteq> n) (backup_entries w1)\<rparr>))"

definition pruneOldBackups :: "env \<Rightarrow> config \<Rightarrow> world \<Rightarrow> (pg_error + unit) \<times> world" where
  "pruneOldBackups E cfg w =
     (let w1 = tick E w; names = backup_names (backup_entries w)
      in if \<not> io_ok E (calls w) then (Inl (Err ''reading backup directory''), w1)
         else if int (length names) \<le> BackupRetain cfg then (Inr (), w1)
         else remove_backups E (take (length names - nat (BackupRetain cfg)) (sort names)) w1)"

section \<open>The shared entry point\<close>

definition recordBackupSuccess :: "duration \<Rightarrow> world \<Rightarrow> world" where
  "recordBackupSuccess d w =
     w\<lparr>met := (met w)\<lparr>lastBackupDuration := d, lastBackupUnixNano := now w\<rparr>\<rparr>"

definition recordBackupAttempt :: "pg_error option \<Rightarrow> world \<Rightarrow> world" where
  "recordBackupAttempt err w =
     w\<lparr>met := (met w)\<lparr>backupLastAttemptUnixNano := now w, backupLastAttemptOK := (err = None),
       backupLastAttemptErr := err\<rparr>\<rparr>"

definition incrementBackups :: "world \<Rightarrow> world" where
  "incrementBackups w = w\<lparr>met := (met w)\<lparr>backupsCounter := backupsCounter (met w) + 1\<rparr>\<rparr>"

definition incrementBackupFailures :: "world \<Rightarrow> world" where
  "incrementBackupFailures w =
     w\<lparr>met := (met w)\<lparr>backupFailuresCounter := backupFailuresCounter (met w) + 1\<rparr>\<rparr>"

definition backup_to_destination :: "env \<Rightarrow> config \<Rightarrow> world \<Rightarrow> (pg_error + string) \<times> world" where
  "backup_to_destination E cfg w =
     (if BackupCommand cfg \<noteq> []
      then (case runBackupPipe E cfg w of
              (Inl e, w1) \<Rightarrow> (Inl e, w1)
            | (Inr _, w1) \<Rightarrow> (Inr ''(piped to PG_GUARD_BACKUP_COMMAND)'', w1))
      else runBackup E cfg w)"

definition performBackup :: "env \<Rightarrow> config \<Rightarrow> world \<Rightarrow> (pg_error + string \<times> duration) \<times> world" where
  "performBackup E cfg w =
     (case isInRecovery E w of
        (Inl e, w1) \<Rightarrow> (Inl (Wrap ''checking local role'' e), w1)
      | (Inr True, w1) \<Rightarrow> (Inl errBackupNotPrimary, w1)
      | (Inr False, w1) \<Rightarrow>
          (case backup_to_destination E cfg w1 of
             (Inl e, w2) \<Rightarrow>
               (Inl e, if errors_Is e errBackupInProgress then w2
                       else persistState E cfg (recordBackupAttempt (Some e) (incrementBackupFailures w2)))
           | (Inr dest, w2) \<Rightarrow>
               (let d = now w2 - now w1;
                    w3 = persistState E cfg
                           (incrementBackups (recordBackupAttempt None (recordBackupSuccess d w2)))
                in (Inr (dest, d),
                    if BackupCommand cfg = [] then snd (pruneOldBackups E cfg w3) else w3))))"

text \<open>One tick of the scheduler, which \<open>startBackupScheduler\<close> runs when backups are enabled.\<close>

definition scheduler_tick :: "env \<Rightarrow> config \<Rightarrow> world \<Rightarrow> world" where
  "scheduler_tick E cfg w = (if \<not> postgresRunning w then w else snd (performBackup E cfg w))"

section \<open>To standard output\<close>

text \<open>A one-off connection with the string of the pool.\<close>

definition requireLocalPrimary :: "env \<Rightarrow> config \<Rightarrow> world \<Rightarrow> (pg_error + unit) \<times> world" where
  "requireLocalPrimary E cfg w =
     (let w1 = tick E w
      in if \<not> connect_ok E (calls w) then (Inl (Err ''connecting to check local role''), w1)
         else (case query_flag E ''checking local role'' w1 of
                 (Inl e, w2) \<Rightarrow> (Inl e, w2)
               | (Inr True, w2) \<Rightarrow> (Inl errBackupNotPrimary, w2)
               | (Inr False, w2) \<Rightarrow> (Inr (), w2)))"

definition runBackupToStdout :: "env \<Rightarrow> config \<Rightarrow> world \<Rightarrow> (pg_error + unit) \<times> world" where
  "runBackupToStdout E cfg w =
     (case requireLocalPrimary E cfg w of
        (Inl e, w1) \<Rightarrow> (Inl e, w1)
      | (Inr _, w1) \<Rightarrow>
          (case run_backup_tool E (pgTool cfg ''pg_basebackup'') (backup_args cfg ''-'') w1 of
             (Inl e, w2) \<Rightarrow> (Inl (Wrap ''pg_basebackup'' e), w2)
           | (Inr _, w2) \<Rightarrow> (Inr (), w2)))"

section \<open>What pruning removes\<close>

lemma remove_backups_spec:
  "remove_backups E ns w = (r, w') \<Longrightarrow>
   \<exists>k \<le> length ns. backup_entries w' = filter (\<lambda>e. fst e \<notin> set (take k ns)) (backup_entries w) \<and>
     (r = Inr () \<longrightarrow> k = length ns)"
proof (induction ns arbitrary: w)
  case Nil
  then show ?case by simp
next
  case (Cons n ns)
  show ?case
  proof (cases "io_ok E (calls w)")
    case False
    with Cons.prems show ?thesis by (intro exI [of _ 0]) auto
  next
    case True
    with Cons.prems Cons.IH obtain k where k: "k \<le> length ns"
      "backup_entries w' = filter (\<lambda>e. fst e \<notin> set (take k ns))
         (filter (\<lambda>e. fst e \<noteq> n) (backup_entries w))" "r = Inr () \<longrightarrow> k = length ns"
      by (fastforce simp: Let_def)
    have "filter (\<lambda>e. fst e \<notin> set (take k ns)) (filter (\<lambda>e. fst e \<noteq> n) es) =
        filter (\<lambda>e. fst e \<notin> set (take (Suc k) (n # ns))) es" for es :: "(string \<times> bool) list"
      by (induction es) auto
    with k show ?thesis by (intro exI [of _ "Suc k"]) auto
  qed
qed

lemma split_sorted:
  fixes xs :: "'a :: linorder list"
  assumes "distinct xs" and "x \<in> set (take n (sort xs))" and "y \<in> set (drop n (sort xs))"
  shows "x < y"
proof -
  have d: "distinct (take n (sort xs) @ drop n (sort xs))" "sorted (take n (sort xs) @ drop n (sort xs))"
    using assms(1) by simp_all
  then have "x \<le> y" unfolding sorted_append using assms(2,3) by blast
  moreover have "x \<noteq> y" using d(1) assms(2,3) by (auto simp del: append_take_drop_id)
  ultimately show ?thesis by simp
qed

text \<open>
  The \<open>k\<close> oldest names are removed, and nothing else: never one of the newest \<open>retain\<close>, all the others
  when pruning succeeds.
\<close>

lemma pruneOldBackups_spec:
  assumes "pruneOldBackups E cfg w = (r, w')"
  shows "\<exists>k \<le> length (backup_names (backup_entries w)) - nat (BackupRetain cfg).
      backup_entries w' =
        filter (\<lambda>e. fst e \<notin> set (take k (sort (backup_names (backup_entries w))))) (backup_entries w) \<and>
      (r = Inr () \<longrightarrow> k = length (backup_names (backup_entries w)) - nat (BackupRetain cfg))"
proof -
  define names where "names = backup_names (backup_entries w)"
  define n where "n = length names - nat (BackupRetain cfg)"
  consider "backup_entries w' = backup_entries w" "r \<noteq> Inr ()"
    | "backup_entries w' = backup_entries w" "n = 0"
    | "remove_backups E (take n (sort names)) (tick E w) = (r, w')"
    using assms by (auto simp: pruneOldBackups_def Let_def names_def n_def split: if_splits)
  then have "\<exists>k \<le> n. backup_entries w' = filter (\<lambda>e. fst e \<notin> set (take k (sort names))) (backup_entries w) \<and>
      (r = Inr () \<longrightarrow> k = n)"
  proof cases
    case 1
    then show ?thesis by (intro exI [of _ 0]) simp
  next
    case 2
    then show ?thesis by (intro exI [of _ 0]) simp
  next
    case 3
    from remove_backups_spec [OF this] obtain k where
      k: "backup_entries w' = filter (\<lambda>e. fst e \<notin> set (take k (take n (sort names)))) (backup_entries w)"
      "r = Inr () \<longrightarrow> k = length (take n (sort names))" by auto
    then show ?thesis by (intro exI [of _ "min k n"]) (auto simp: n_def min_def)
  qed
  then show ?thesis by (simp only: names_def n_def)
qed

lemma names_filter:
  "backup_names (filter (\<lambda>e. fst e \<notin> X) es) = filter (\<lambda>n. n \<notin> X) (backup_names es)"
  by (induction es) (auto simp: backup_names_def)

lemma distinct_backup_names: "distinct (map fst es) \<Longrightarrow> distinct (backup_names es)"
  by (induction es) (auto simp: backup_names_def)

lemma others_filter:
  assumes a: "set ns \<subseteq> set (backup_names es)" "distinct (map fst es)"
  shows "filter (\<lambda>e. \<not> is_backup e) (filter (\<lambda>e. fst e \<notin> set ns) es) = filter (\<lambda>e. \<not> is_backup e) es"
proof -
  have "fst e \<notin> set ns" if "e \<in> set es" "\<not> is_backup e" for e
  proof
    assume "fst e \<in> set ns"
    with a(1) obtain e' where e': "e' \<in> set es" "is_backup e'" "fst e' = fst e"
      by (auto simp: backup_names_def)
    with a(2) that(1) have "e' = e" by (metis distinct_map inj_on_def)
    with e' that(2) show False by simp
  qed
  then have "filter (\<lambda>e. fst e \<notin> set ns \<and> \<not> is_backup e) es = filter (\<lambda>e. \<not> is_backup e) es"
    by (intro filter_cong) auto
  then show ?thesis by (simp add: conj_commute)
qed

section \<open>What one backup does\<close>

text \<open>The errors that mean no backup was attempted.\<close>

definition not_attempted :: "pg_error \<Rightarrow> bool" where
  "not_attempted e \<longleftrightarrow> e = errBackupNotPrimary \<or> e = errBackupInProgress \<or>
     (\<exists>d. e = Wrap ''checking local role'' d)"

fun is_tool :: "event \<Rightarrow> bool" where
  "is_tool (EvTool t a c) = True"
| "is_tool _ = False"

fun tool_ok :: "event \<Rightarrow> bool" where
  "tool_ok (EvTool t a c) = (c = 0)"
| "tool_ok _ = False"

text \<open>\<open>off_backup w w'\<close>: neither the counters nor the backup flag changed.\<close>

definition off_backup :: "world \<Rightarrow> world \<Rightarrow> bool" where
  "off_backup w w' \<longleftrightarrow> met w' = met w \<and> backupInProgress w' = backupInProgress w"

lemma off_backup_persistState [simp]: "off_backup w (persistState E cfg w)"
  by (auto simp: off_backup_def persistState_def savePersistedState_def replace_file_def Let_def split: option.splits)

lemma quiet_persistState [simp]:
  "trace (persistState E cfg w) = trace w" "backup_entries (persistState E cfg w) = backup_entries w"
  by (auto simp: persistState_def savePersistedState_def replace_file_def Let_def split: option.splits)

lemma off_backup_remove: "off_backup w (snd (remove_backups E ns w))"
  by (induction ns arbitrary: w) (simp_all add: off_backup_def Let_def)

lemma off_backup_prune [simp]: "off_backup w (snd (pruneOldBackups E cfg w))"
  using off_backup_remove [of "tick E w"] by (simp add: pruneOldBackups_def Let_def off_backup_def)

lemma trace_prune [simp]: "trace (snd (pruneOldBackups E cfg w)) = trace w"
proof -
  have "trace (snd (remove_backups E ns v)) = trace v" for ns v
    by (induction ns arbitrary: v) (simp_all add: Let_def)
  then show ?thesis by (simp add: pruneOldBackups_def Let_def)
qed

lemma run_backup_tool_frame [simp]:
  "met (snd (run_backup_tool E tool args w)) = met w"
  "backupInProgress (snd (run_backup_tool E tool args w)) = backupInProgress w"
  by (simp_all add: run_backup_tool_def Let_def split_beta)

lemma run_backup_tool_Inr:
  "run_backup_tool E tool args w = (Inr u, w') \<longleftrightarrow>
     spawn_ok E (calls w) \<and> fst (backup_reply E (calls w) args (backup_entries w)) = 0 \<and>
     w' = emit (EvTool tool args 0) ((tick E w)\<lparr>backup_entries :=
       snd (backup_reply E (calls w) args (backup_entries w))\<rparr>)"
  by (auto simp: run_backup_tool_def Let_def split_beta)

lemma run_backup_tool_Inl:
  "run_backup_tool E tool args w = (Inl e, w') \<Longrightarrow>
     e = Err ''starting command'' \<or> (\<exists>c. e = ErrCode ''exit status'' c)"
  by (auto simp: run_backup_tool_def Let_def split_beta split: if_splits)

lemma backup_to_destination_cases:
  assumes "backup_to_destination E cfg w = (r, w')"
  shows "if backupInProgress w then r = Inl errBackupInProgress \<and> w' = w
    else off_backup w w' \<and> (\<forall>e. r = Inl e \<longrightarrow> \<not> errors_Is e errBackupInProgress \<and> \<not> not_attempted e) \<and>
      (is_ok r \<longrightarrow> (\<exists>es. trace w' = trace w @ es \<and> (\<exists>e \<in> set es. tool_ok e)))"
proof (cases "backupInProgress w")
  case True
  with assms show ?thesis
    by (simp add: backup_to_destination_def runBackup_def runBackupPipe_def split: if_splits)
next
  case False
  show ?thesis
  proof (cases "BackupCommand cfg = []")
    case True
    have step: "off_backup w (w2\<lparr>backupInProgress := False\<rparr>)"
      if "run_backup_tool E t a (tick E (w\<lparr>backupInProgress := True\<rparr>)) = (x, w2)" for x w2 t a
      using run_backup_tool_frame [of E t a "tick E (w\<lparr>backupInProgress := True\<rparr>)"] that False
      by (simp add: off_backup_def)
    from assms True False show ?thesis
      by (auto simp: backup_to_destination_def runBackup_def Let_def not_attempted_def
          run_backup_tool_Inr off_backup_def
          split: if_splits prod.splits sum.splits dest: run_backup_tool_Inl step)
  next
    case pipe: False
    with assms False show ?thesis
      by (auto simp: backup_to_destination_def runBackupPipe_def Let_def not_attempted_def off_backup_def
          split: if_splits prod.splits sum.splits)
  qed
qed

section \<open>A new backup is the newest\<close>

text \<open>
  What \<open>pg_basebackup\<close> does on success: the directory named by \<open>-D\<close> is there, under its last
  path element, and the other entries are untouched.
\<close>

definition basebackup_adds :: "env \<Rightarrow> bool" where
  "basebackup_adds E \<longleftrightarrow>
     (\<forall>k args es. fst (backup_reply E k args es) = 0 \<longrightarrow>
        (last_element (args ! 7), True) \<in> set (snd (backup_reply E k args es)) \<and>
        set (snd (backup_reply E k args es)) \<subseteq> insert (last_element (args ! 7), True) (set es) \<and>
        (distinct (map fst es) \<longrightarrow> distinct (map fst (snd (backup_reply E k args es)))))"

text \<open>Every backup present was named at an earlier time.\<close>

definition dated_backups :: "world \<Rightarrow> bool" where
  "dated_backups w \<longleftrightarrow> distinct (map fst (backup_entries w)) \<and>
     (\<forall>n \<in> set (backup_names (backup_entries w)).
        \<exists>t. n = FormatTimestamp t \<and> t \<le> now w \<and> printable_time t)"

lemma newest_survives:
  assumes "pruneOldBackups E cfg w = (r, w')" and "distinct (map fst (backup_entries w))"
    and "1 \<le> BackupRetain cfg" and "e \<in> set (backup_entries w)" and "is_backup e"
    and "\<forall>n \<in> set (backup_names (backup_entries w)). n \<le> fst e"
  shows "e \<in> set (backup_entries w')"
proof -
  define names where "names = backup_names (backup_entries w)"
  define n where "n = length names - nat (BackupRetain cfg)"
  from pruneOldBackups_spec [OF assms(1)] obtain k where
    k: "k \<le> n" and e: "backup_entries w' = filter (\<lambda>e. fst e \<notin> set (take k (sort names))) (backup_entries w)"
    by (auto simp: names_def n_def)
  have "fst e \<in> set names" using assms(4,5) by (auto simp: names_def backup_names_def)
  then have "n < length (sort names)" using assms(3) by (cases names) (auto simp: n_def)
  then have new: "last (sort names) \<in> set (drop n (sort names))"
    by (metis drop_eq_Nil last_drop last_in_set not_le)
  have "fst e \<notin> set (take n (sort names))"
  proof
    assume "fst e \<in> set (take n (sort names))"
    then have "fst e < last (sort names)"
      using new by (rule split_sorted [OF distinct_backup_names [OF assms(2), folded names_def]])
    moreover have "last (sort names) \<in> set names"
      using new by (metis in_set_dropD set_sort)
    ultimately show False using assms(6) by (auto simp: names_def)
  qed
  with assms(4) set_take_subset_set_take [OF k, of "sort names"] show ?thesis by (auto simp: e)
qed

lemma isInRecovery_frame [simp]:
  "backup_entries (snd (isInRecovery E w)) = backup_entries w"
  "now w \<le> now (snd (isInRecovery E w))"
  by (simp_all add: isInRecovery_def Let_def tick_now)

lemma now_prune: "now w \<le> now (snd (pruneOldBackups E cfg w))"
proof -
  have "now v \<le> now (snd (remove_backups E ns v))" for ns v
  proof (induction ns arbitrary: v)
    case (Cons n ns)
    then show ?case
      by (auto simp: Let_def tick_now intro: order_trans [OF tick_now order_trans [OF _ Cons.IH]])
  qed simp
  then show ?thesis
    by (auto simp: pruneOldBackups_def Let_def tick_now intro: order_trans [OF tick_now])
qed

lemma simple_stamp: "simple_name (FormatTimestamp t)"
proof -
  have "length (FormatTimestamp t) = 16" by (rule FormatTimestamp_length)
  then have "FormatTimestamp t \<notin> {[], ''.'', ''..''}" by auto
  moreover have "slash \<notin> set (FormatTimestamp t)"
    using FormatTimestamp_chars [of slash t] by (auto simp: slash_def digit_val_def)
  ultimately show ?thesis by (auto simp: simple_name_def)
qed

lemma runBackup_Inr:
  assumes "runBackup E cfg w = (Inr dest, w')" and "basebackup_adds E"
  shows "\<exists>t. now w \<le> t \<and> t \<le> now w' \<and> dest = JoinPath [BackupDir cfg, FormatTimestamp t] \<and>
    (last_element dest, True) \<in> set (backup_entries w') \<and>
    set (backup_entries w') \<subseteq> insert (last_element dest, True) (set (backup_entries w)) \<and>
    (distinct (map fst (backup_entries w)) \<longrightarrow> distinct (map fst (backup_entries w'))) \<and>
    BackupDir cfg \<noteq> []"
proof -
  define t where "t = now (tick E (w\<lparr>backupInProgress := True\<rparr>))"
  define args where "args = backup_args cfg (JoinPath [BackupDir cfg, FormatTimestamp t]) @ [''-P'']"
  from assms(1) have ok: "dest = JoinPath [BackupDir cfg, FormatTimestamp t]" "BackupDir cfg \<noteq> []"
    "fst (backup_reply E (Suc (calls w)) args (backup_entries w)) = 0"
    "backup_entries w' = snd (backup_reply E (Suc (calls w)) args (backup_entries w))"
    "now w' = now (tick E (tick E (w\<lparr>backupInProgress := True\<rparr>)))"
    by (auto simp: runBackup_def Let_def run_backup_tool_Inr t_def args_def
        split: if_splits prod.splits sum.splits)
  have "args ! 7 = dest" by (simp add: args_def backup_args_def ok)
  moreover have "now w \<le> t" "t \<le> now w'"
    using tick_now [of "w\<lparr>backupInProgress := True\<rparr>" E]
      tick_now [of "tick E (w\<lparr>backupInProgress := True\<rparr>)" E] by (simp_all add: t_def ok)
  ultimately show ?thesis using assms(2) ok unfolding basebackup_adds_def by metis
qed

text \<open>What pruning leaves of a sorted list of names: all but the oldest.\<close>

lemma sorted_rest:
  fixes names :: "string list"
  assumes "distinct names"
  shows "set names - set (take n (sort names)) = set (drop n (sort names))"
proof -
  have "set names = set (take n (sort names)) \<union> set (drop n (sort names))"
    by (metis append_take_drop_id set_append set_sort)
  moreover have "set (take n (sort names)) \<inter> set (drop n (sort names)) = {}"
    using split_sorted [OF assms] by blast
  ultimately show ?thesis by blast
qed

text \<open>
  Once the role is read as primary, \<open>performBackup\<close> goes one of two ways: the destination was
  written and the success is counted, or it was not and, unless another backup was running, the
  failure is.
\<close>

lemma performBackup_failed:
  assumes "performBackup E cfg w = (r, w')" and "isInRecovery E w = (Inr False, w1)"
    and "backup_to_destination E cfg w1 = (Inl e, w2)" and "\<not> backupInProgress w1"
  shows "r = Inl e \<and> \<not> not_attempted e \<and> backupInProgress w' = backupInProgress w1 \<and>
    backupsCounter (met w') = backupsCounter (met w1) \<and>
    backupFailuresCounter (met w') = backupFailuresCounter (met w1) + 1 \<and>
    \<not> backupLastAttemptOK (met w') \<and> backupLastAttemptErr (met w') = Some e"
proof -
  from backup_to_destination_cases [OF assms(3)] assms(4)
  have e: "\<not> errors_Is e errBackupInProgress" "\<not> not_attempted e" "off_backup w1 w2" by simp_all
  with assms(1-3) have "r = Inl e"
    "w' = persistState E cfg (recordBackupAttempt (Some e) (incrementBackupFailures w2))"
    by (simp_all add: performBackup_def)
  with e off_backup_persistState [of "recordBackupAttempt (Some e) (incrementBackupFailures w2)" E cfg]
  show ?thesis by (simp add: off_backup_def recordBackupAttempt_def incrementBackupFailures_def)
qed

lemma performBackup_done:
  assumes "performBackup E cfg w = (r, w')" and "isInRecovery E w = (Inr False, w1)"
    and "backup_to_destination E cfg w1 = (Inr dest, w2)"
  shows "r = Inr (dest, now w2 - now w1) \<and> \<not> backupInProgress w1 \<and>
    backupInProgress w' = backupInProgress w1 \<and>
    backupsCounter (met w') = backupsCounter (met w1) + 1 \<and>
    backupFailuresCounter (met w') = backupFailuresCounter (met w1) \<and>
    backupLastAttemptOK (met w') \<and> backupLastAttemptErr (met w') = None \<and>
    lastBackupDuration (met w') = now w2 - now w1 \<and>
    lastBackupUnixNano (met w') = backupLastAttemptUnixNano (met w') \<and>
    (\<exists>es. trace w' = trace w1 @ es \<and> (\<exists>e \<in> set es. tool_ok e))"
proof -
  define w3 where "w3 = incrementBackups (recordBackupAttempt None (recordBackupSuccess (now w2 - now w1) w2))"
  have d: "\<not> backupInProgress w1" "off_backup w1 w2"
    "\<exists>es. trace w2 = trace w1 @ es \<and> (\<exists>e \<in> set es. tool_ok e)"
    using backup_to_destination_cases [OF assms(3)] by (auto split: if_splits)
  from assms(1-3) have r: "r = Inr (dest, now w2 - now w1)"
    "w' = persistState E cfg w3 \<or> w' = snd (pruneOldBackups E cfg (persistState E cfg w3))"
    by (auto simp: performBackup_def w3_def Let_def)
  have "off_backup w3 w' \<and> trace w' = trace w2" using r(2)
    off_backup_prune [of "persistState E cfg w3" E cfg] off_backup_persistState [of w3 E cfg]
    by (auto simp: off_backup_def w3_def incrementBackups_def recordBackupAttempt_def recordBackupSuccess_def)
  with d r(1) show ?thesis
    by (simp add: off_backup_def w3_def incrementBackups_def recordBackupAttempt_def recordBackupSuccess_def)
qed

section \<open>Properties\<close>

text \<open>
  C22. Pruning touches nothing but backups, and of them only the oldest: every entry that is not a
  directory with a timestamp name stays, and a backup that is removed is older than every one kept. At
  least \<open>PG_GUARD_BACKUP_RETAIN\<close> backups (or all there are) remain, which are then the newest. All this
  holds whatever fails; exactly that many remain when pruning succeeds.
\<close>

theorem prune_keeps_newest:
  assumes "pruneOldBackups E cfg w = (r, w')" and "distinct (map fst (backup_entries w))"
    and "1 \<le> BackupRetain cfg"
  shows "filter (\<lambda>e. \<not> is_backup e) (backup_entries w') = filter (\<lambda>e. \<not> is_backup e) (backup_entries w) \<and>
    set (backup_names (backup_entries w')) \<subseteq> set (backup_names (backup_entries w)) \<and>
    (\<forall>old \<in> set (backup_names (backup_entries w)) - set (backup_names (backup_entries w')).
       \<forall>kept \<in> set (backup_names (backup_entries w')). old < kept) \<and>
    min (length (backup_names (backup_entries w))) (nat (BackupRetain cfg))
      \<le> length (backup_names (backup_entries w')) \<and>
    (r = Inr () \<longrightarrow>
      length (backup_names (backup_entries w')) =
        min (length (backup_names (backup_entries w))) (nat (BackupRetain cfg)))"
proof -
  define names where "names = backup_names (backup_entries w)"
  define n where "n = length names - nat (BackupRetain cfg)"
  from pruneOldBackups_spec [OF assms(1)] obtain k where k: "k \<le> n" "r = Inr () \<longrightarrow> k = n"
    and e: "backup_entries w' = filter (\<lambda>e. fst e \<notin> set (take k (sort names))) (backup_entries w)"
    by (auto simp: names_def n_def)
  have d: "distinct names" using distinct_backup_names [OF assms(2)] by (simp add: names_def)
  have kept: "backup_names (backup_entries w') = filter (\<lambda>x. x \<notin> set (take k (sort names))) names"
    by (simp add: e names_filter names_def)
  have sub: "set (take k (sort names)) \<subseteq> set names" using set_take_subset [of k "sort names"] by simp
  have "filter (\<lambda>e. \<not> is_backup e) (backup_entries w') = filter (\<lambda>e. \<not> is_backup e) (backup_entries w)"
    unfolding e using others_filter [OF _ assms(2), of "take k (sort names)"] sub by (simp add: names_def)
  moreover have rest: "set (backup_names (backup_entries w')) = set (drop k (sort names))"
    using sorted_rest [OF d, of k] by (auto simp: kept)
  moreover have "old < new" if "old \<in> set names - set (backup_names (backup_entries w'))"
    "new \<in> set (backup_names (backup_entries w'))" for old new
    using that rest by (intro split_sorted [OF d, of old k new]) (auto simp: kept)
  moreover have "length (backup_names (backup_entries w')) = length names - k"
    using distinct_card [of "backup_names (backup_entries w')"] distinct_card [of "drop k (sort names)"] d rest
    by (simp add: kept)
  moreover have "min (length names) (nat (BackupRetain cfg)) = length names - n" by (simp add: n_def)
  ultimately show ?thesis using k kept by (auto simp: names_def)
qed

text \<open>Three backups, two of them to be kept, beside a file an operator left.\<close>

definition three_backups :: world where
  "three_backups = (running_world 0 (\<lambda>_. None))\<lparr>backup_entries :=
     [(''20260103T000000Z'', True), (''notes'', False), (''20260101T000000Z'', True),
      (''20260102T000000Z'', True)]\<rparr>"

definition keep_two :: config where
  "keep_two = demo_config\<lparr>BackupDir := ''/backups'', BackupRetain := 2\<rparr>"

theorem prune_keeps_newest_witness:
  "length (backup_names (backup_entries (snd (pruneOldBackups calm keep_two three_backups)))) = 2"
proof -
  have stamps: "is_stamp ''20260103T000000Z''" "is_stamp ''20260101T000000Z''" "is_stamp ''20260102T000000Z''"
    by (simp_all add: is_stamp_def digit_val_def)
  have names: "backup_names (backup_entries three_backups) =
      [''20260103T000000Z'', ''20260101T000000Z'', ''20260102T000000Z'']"
    by (simp add: three_backups_def backup_names_def is_backup_def stamps)
  have "fst (remove_backups calm ns w) = Inr ()" for ns w
    by (induction ns arbitrary: w) (simp_all add: Let_def calm_def)
  then have ok: "fst (pruneOldBackups calm keep_two three_backups) = Inr ()"
    by (simp add: pruneOldBackups_def Let_def calm_def)
  have "distinct (map fst (backup_entries three_backups))" "1 \<le> BackupRetain keep_two"
    by (simp_all add: three_backups_def keep_two_def)
  from prune_keeps_newest [OF prod.collapse [symmetric] this, of calm] ok show ?thesis
    by (simp add: names keep_two_def)
qed



text \<open>
  C24. A backup that succeeds is on disk when \<open>performBackup\<close> returns: retention, which runs after
  it, never removes it. This holds when the directory holds only backups named at earlier times,
  because the names sort as the times do.
\<close>

theorem fresh_backup_survives:
  assumes "performBackup E cfg w = (Inr (dest, d), w')" and "BackupCommand cfg = []"
    and "1 \<le> BackupRetain cfg" and "basebackup_adds E" and "dated_backups w"
    and "\<forall>t. now w \<le> t \<and> t \<le> now w' \<longrightarrow> printable_time t"
  shows "\<exists>t. now w \<le> t \<and> dest = JoinPath [BackupDir cfg, FormatTimestamp t] \<and>
    (FormatTimestamp t, True) \<in> set (backup_entries w')"
proof -
  define w1 where "w1 = snd (isInRecovery E w)"
  obtain x w2 where run: "runBackup E cfg w1 = (x, w2)" by (rule prod.exhaust)
  define w3 where "w3 = persistState E cfg
    (incrementBackups (recordBackupAttempt None (recordBackupSuccess (now w2 - now w1) w2)))"
  have r: "x = Inr dest" "w' = snd (pruneOldBackups E cfg w3)"
    using assms(1,2) run
    by (auto simp: performBackup_def backup_to_destination_def w1_def w3_def Let_def
        split: prod.splits sum.splits bool.splits)
  have es: "backup_entries w3 = backup_entries w2"
    by (simp add: w3_def incrementBackups_def recordBackupAttempt_def recordBackupSuccess_def)
  have "now w2 \<le> now w3"
    using now_persistState [of "incrementBackups (recordBackupAttempt None
        (recordBackupSuccess (now w2 - now w1) w2))" E cfg]
    by (simp add: w3_def incrementBackups_def recordBackupAttempt_def recordBackupSuccess_def)
  then have clock: "now w2 \<le> now w'" unfolding r(2) by (rule order_trans [OF _ now_prune])
  from runBackup_Inr [OF run [unfolded r(1)] assms(4)] obtain t where
    t: "now w1 \<le> t" "t \<le> now w2" "dest = JoinPath [BackupDir cfg, FormatTimestamp t]" "BackupDir cfg \<noteq> []"
    and b: "(last_element dest, True) \<in> set (backup_entries w2)"
      "set (backup_entries w2) \<subseteq> insert (last_element dest, True) (set (backup_entries w1))"
      "distinct (map fst (backup_entries w1)) \<longrightarrow> distinct (map fst (backup_entries w2))" by blast
  have stamp: "last_element dest = FormatTimestamp t"
    unfolding t(3) by (rule last_element_JoinPath [OF simple_stamp t(4)])
  have w1: "backup_entries w1 = backup_entries w" "now w \<le> now w1" by (simp_all add: w1_def)
  have p: "printable_time t" using assms(6) t(1,2) w1(2) clock by simp
  have old: "n \<le> FormatTimestamp t" if "n \<in> set (backup_names (backup_entries w))" for n
    using assms(5) that FormatTimestamp_mono [OF _ _ p] t(1) w1(2)
    unfolding dated_backups_def by (metis order_trans)
  have "\<forall>n \<in> set (backup_names (backup_entries w3)). n \<le> FormatTimestamp t"
  proof
    fix n assume "n \<in> set (backup_names (backup_entries w3))"
    with b(2) have "n = FormatTimestamp t \<or> n \<in> set (backup_names (backup_entries w))"
      by (auto simp: backup_names_def es stamp w1)
    with old show "n \<le> FormatTimestamp t" by auto
  qed
  moreover have "pruneOldBackups E cfg w3 = (fst (pruneOldBackups E cfg w3), w')" by (simp add: r(2))
  note newest_survives [OF this _ assms(3), of "(FormatTimestamp t, True)"]
  ultimately have "(FormatTimestamp t, True) \<in> set (backup_entries w')"
    using b assms(3,5)
    by (simp add: r(2) es stamp w1 dated_backups_def is_backup_def FormatTimestamp_stamp)
  moreover have "now w \<le> t" using t(1) w1(2) by simp
  ultimately show ?thesis using t(3) by blast
qed

text \<open>One backup is kept: the one of a second ago gives way to the new one.\<close>

definition basebackup :: env where
  "basebackup = calm\<lparr>backup_reply := (\<lambda>_ args es.
     if last_element (args ! 7) \<in> fst ` set es then (1, es)
     else (0, es @ [(last_element (args ! 7), True)]))\<rparr>"

definition keep_one :: config where
  "keep_one = demo_config\<lparr>BackupDir := ''/backups'', BackupRetain := 1\<rparr>"

definition one_backup :: world where
  "one_backup = (running_world second (\<lambda>_. None))\<lparr>backup_entries :=
     [(FormatTimestamp 0, True), (''notes'', False)]\<rparr>"

lemma basebackup_adds_basebackup: "basebackup_adds basebackup"
  by (auto simp: basebackup_adds_def basebackup_def)

lemma digits_written:
  "digit 0 = CHR ''0''" "digit (Suc 0) = CHR ''1''" "digit 7 = CHR ''7''" "digit 9 = CHR ''9''"
  by (simp_all add: digit_def char_of_def bit_0)

lemma epoch_seconds:
  "abs_seconds 0 = 62135596800" "abs_seconds second = 62135596801"
  by (simp_all add: abs_seconds_def unix_epoch_day_def time_units)

lemma epoch_fields:
  "date_fields 719162 = [1970, 1, 1]" "clock_fields 0 = [0, 0, 0]" "clock_fields (Suc 0) = [0, 0, 1]"
  by (simp_all add: date_fields_def clock_fields_def year_day_def month_lengths_def leap_def Let_def)

lemma epoch_year: "fst (year_day 719162) = 1970"
  by (simp add: year_day_def Let_def)

lemma stamps_zero_one:
  "FormatTimestamp 0 = ''19700101T000000Z''" "FormatTimestamp second = ''19700101T000001Z''"
  "printable_time 0" "printable_time second"
  subgoal by (simp add: FormatTimestamp_def epoch_seconds epoch_fields pad_two pad_four digits_written)
  subgoal by (simp add: FormatTimestamp_def epoch_seconds epoch_fields pad_two pad_four digits_written)
  unfolding printable_time_def epoch_seconds
  by (simp_all add: epoch_year unix_epoch_day_def time_units)

lemma prune_takes_no_time: "now (snd (pruneOldBackups basebackup cfg w)) = now w"
proof -
  have "now (snd (remove_backups basebackup ns v)) = now v" for ns v
    by (induction ns arbitrary: v) (simp_all add: basebackup_def evals)
  then show ?thesis by (simp add: pruneOldBackups_def Let_def basebackup_def evals)
qed

theorem fresh_backup_survives_witness:
  "\<exists>t. second \<le> t \<and>
     (FormatTimestamp t, True) \<in> set (backup_entries (snd (performBackup basebackup keep_one one_backup)))"
proof -
  define w1 where "w1 = emit (EvRole (Some False)) (tick basebackup one_backup)"
  obtain x w2 where run: "backup_to_destination basebackup keep_one w1 = (x, w2)" by (rule prod.exhaust)
  have role: "isInRecovery basebackup one_backup = (Inr False, w1)"
    by (simp add: isInRecovery_def w1_def basebackup_def calm_def Let_def)
  have new: "last_element (JoinPath [''/backups'', FormatTimestamp t]) = FormatTimestamp t" for t
    by (rule last_element_JoinPath [OF simple_stamp]) simp
  have "FormatTimestamp second \<notin> {FormatTimestamp 0, ''notes''}"
    unfolding stamps_zero_one by simp
  with run have "is_ok x \<and> now w2 = second"
    by (auto simp: backup_to_destination_def runBackup_def run_backup_tool_def backup_args_def w1_def new
        basebackup_def keep_one_def one_backup_def evals)
  then obtain dest where x: "x = Inr dest" and now: "now w2 = second" by (auto simp: is_ok_iff)
  have ok: "fst (performBackup basebackup keep_one one_backup) = Inr (dest, now w2 - now w1)"
    by (simp add: performBackup_def role run x Let_def)
  have cfg: "StateFile keep_one = []" "BackupCommand keep_one = []" "1 \<le> BackupRetain keep_one"
    by (simp_all add: keep_one_def evals)
  have end_time: "now (snd (performBackup basebackup keep_one one_backup)) = second"
    by (simp add: performBackup_def role run x Let_def persistState_def cfg prune_takes_no_time
        incrementBackups_def recordBackupAttempt_def recordBackupSuccess_def now)
  have w: "now one_backup = second" by (simp add: one_backup_def evals)
  have dated: "dated_backups one_backup"
  proof -
    have "''notes'' \<noteq> FormatTimestamp 0" unfolding stamps_zero_one by simp
    moreover have "backup_names (backup_entries one_backup) = [FormatTimestamp 0]"
      by (simp add: one_backup_def backup_names_def is_backup_def FormatTimestamp_stamp)
    ultimately show ?thesis using stamps_zero_one(3)
      by (auto simp: dated_backups_def one_backup_def evals time_units)
  qed
  have run_eq: "performBackup basebackup keep_one one_backup =
      (Inr (dest, now w2 - now w1), snd (performBackup basebackup keep_one one_backup))"
    unfolding ok [symmetric] by simp
  have "\<forall>t. now one_backup \<le> t \<and> t \<le> now (snd (performBackup basebackup keep_one one_backup))
      \<longrightarrow> printable_time t"
    unfolding w end_time using stamps_zero_one(4) by (metis order_antisym)
  from fresh_backup_survives [OF run_eq cfg(2,3) basebackup_adds_basebackup dated this]
  show ?thesis unfolding w by blast
qed

end
