(* ===== verification/Failover.thy ===== *)
theory Failover
  imports Bootstrap
begin

text \<open>
  \<open>src/src/failover.go\<close> and the deadlines of \<open>state.go\<close>: the monitor that promotes a standby whose
  peer has been unhealthy for \<open>PG_GUARD_FAILOVER_TIMEOUT\<close>. One pass of its loop is a function from
  the time the peer was first found unhealthy and the state of the process to both; between two
  passes the rest of the process and the outside may do anything. Remaining times are in
  nanoseconds, where the source divides by \<open>time.Second\<close> for display.
\<close>

section \<open>Deadlines\<close>

definition remaining :: "gotime \<Rightarrow> world \<Rightarrow> duration" where
  "remaining deadline w =
     (if deadline = 0 then 0 else if deadline - now w < 0 then 0 else deadline - now w)"

definition rebootSuppressRemaining :: "world \<Rightarrow> duration" where
  "rebootSuppressRemaining w = remaining (rebootSuppressUntil w) w"

definition rebootSuppressActive :: "world \<Rightarrow> bool" where
  "rebootSuppressActive w \<longleftrightarrow> 0 < rebootSuppressRemaining w"

definition failoverPromoteRemaining :: "world \<Rightarrow> duration" where
  "failoverPromoteRemaining w = remaining (failoverPromoteDeadline w) w"

definition failoverCountdownActive :: "world \<Rightarrow> bool" where
  "failoverCountdownActive w \<longleftrightarrow> 0 < failoverPromoteRemaining w"

lemma remaining_pos: "0 < remaining d w \<longleftrightarrow> d \<noteq> 0 \<and> now w < d"
  by (simp add: remaining_def)

section \<open>One pass of the monitor\<close>

definition peerHealthy :: "env \<Rightarrow> config \<Rightarrow> world \<Rightarrow> bool \<times> world" where
  "peerHealthy E cfg w =
     (let (reachable, w1) = checkPeerReachable E cfg w
      in if \<not> reachable then (False, w1)
         else (case fetchPeerStatus E cfg w1 of (Inl _, w2) \<Rightarrow> (False, w2) | (Inr _, w2) \<Rightarrow> (True, w2)))"

text \<open>What a pass finds.\<close>

datatype check = NotRunning | RoleUnknown | LocalPrimary | PeerHealthy | PeerUnhealthy

definition failover_check :: "env \<Rightarrow> config \<Rightarrow> world \<Rightarrow> check \<times> world" where
  "failover_check E cfg w =
     (if \<not> postgresRunning w then (NotRunning, w)
      else (case isInRecovery E w of
              (Inl _, w1) \<Rightarrow> (RoleUnknown, w1)
            | (Inr False, w1) \<Rightarrow> (LocalPrimary, w1)
            | (Inr True, w1) \<Rightarrow>
                (let (healthy, w2) = peerHealthy E cfg w1
                 in (if healthy then PeerHealthy else PeerUnhealthy, w2))))"

definition reset_countdown :: "world \<Rightarrow> world" where
  "reset_countdown w = w\<lparr>failoverPromoteDeadline := 0\<rparr>"

definition refresh_grant :: "env \<Rightarrow> config \<Rightarrow> world \<Rightarrow> world" where
  "refresh_grant E cfg w =
     (let (reachable, w1) = checkPeerReachable E cfg w
      in if reachable then snd (ensureRoleAndDatabase E cfg w1) else w1)"

definition record_promotion :: "gotime \<Rightarrow> world \<Rightarrow> world" where
  "record_promotion promoteStart w = w\<lparr>met := (met w)\<lparr>
     lastPromotionDuration := now w - promoteStart,
     promotionsCounter := promotionsCounter (met w) + 1\<rparr>\<rparr>"

definition failover_tick ::
  "env \<Rightarrow> config \<Rightarrow> gotime option \<Rightarrow> world \<Rightarrow> gotime option \<times> world" where
  "failover_tick E cfg since w =
     (case failover_check E cfg w of
        (NotRunning, w1) \<Rightarrow> (None, reset_countdown w1)
      | (RoleUnknown, w1) \<Rightarrow> (None, reset_countdown w1)
      | (LocalPrimary, w1) \<Rightarrow> (None, reset_countdown (refresh_grant E cfg w1))
      | (PeerHealthy, w1) \<Rightarrow> (None, (reset_countdown w1)\<lparr>rebootSuppressUntil := 0\<rparr>)
      | (PeerUnhealthy, w1) \<Rightarrow>
          (case since of
             None \<Rightarrow> (Some (now w1), w1\<lparr>failoverPromoteDeadline := now w1 + FailoverTimeout cfg\<rparr>)
           | Some t \<Rightarrow>
               (if now w1 - t < FailoverTimeout cfg then (since, w1)
                else if rebootSuppressActive w1 then (since, w1)
                else (case promote E w1 of
                        (Inl _, w2) \<Rightarrow> (since, w2)
                      | (Inr _, w2) \<Rightarrow>
                          (None, reset_countdown
                             (ensureRoleAndDatabaseBlocking E cfg (record_promotion (now w1) w2)))))))"

text \<open>\<open>startFailoverMonitor\<close> starts the loop only in automatic mode with a peer.\<close>

definition monitor_enabled :: "config \<Rightarrow> bool" where
  "monitor_enabled cfg \<longleftrightarrow> FailoverMode cfg = ''automatic'' \<and> PeerHost cfg \<noteq> []"

text \<open>
  A run of the monitor with its findings, each with the time it was made. Between two passes only
  the countdown, which nothing else writes, stays as it is.
\<close>

inductive monitored ::
  "env \<Rightarrow> config \<Rightarrow> (gotime \<times> check) list \<Rightarrow> gotime option \<Rightarrow> world \<Rightarrow> bool" for E cfg where
  begun: "monitor_enabled cfg \<Longrightarrow> failoverPromoteDeadline w = 0 \<Longrightarrow> monitored E cfg [] None w"
| elsewhere: "monitored E cfg obs since w \<Longrightarrow> later w w' \<Longrightarrow>
    failoverPromoteDeadline w' = failoverPromoteDeadline w \<Longrightarrow> monitored E cfg obs since w'"
| pass: "monitored E cfg obs since w \<Longrightarrow> failover_check E cfg w = (c, v) \<Longrightarrow>
    failover_tick E cfg since w = (since', w') \<Longrightarrow>
    monitored E cfg (obs @ [(now v, c)]) since' w'"

inductive_cases monitoredE: "monitored E cfg obs since w"

text \<open>The upkeep of the server leaves the counters alone.\<close>

interpretation metrics_upkeep: upkeep_frame "\<lambda>w w'. met w' = met w"
  by unfold_locales simp_all

section \<open>What a pass does\<close>

definition no_promote :: "world \<Rightarrow> world \<Rightarrow> bool" where
  "no_promote = adds (\<lambda>e. \<forall>r. e \<noteq> EvLocalPromote r)"

lemma no_promote_trans: "no_promote u v \<Longrightarrow> no_promote v w \<Longrightarrow> no_promote u w"
  unfolding no_promote_def by (rule adds_trans)

lemma no_promote_requests:
  "no_promote w (snd (isInRecovery E w))" "no_promote w (snd (checkPeerReachable E cfg w))"
  "no_promote w (snd (fetchPeerStatus E cfg w))"
  by (auto simp: no_promote_def adds_def isInRecovery_def checkPeerReachable_def fetchPeerStatus_def Let_def)

lemma no_promote_peerHealthy: "no_promote w (snd (peerHealthy E cfg w))"
proof -
  obtain r w1 where 1: "checkPeerReachable E cfg w = (r, w1)" by (rule prod.exhaust)
  obtain s w2 where 2: "fetchPeerStatus E cfg w1 = (s, w2)" by (rule prod.exhaust)
  have s: "no_promote w w1" "no_promote w1 w2"
    using no_promote_requests(2) [of w E cfg] no_promote_requests(3) [of w1 E cfg] 1 2 by simp_all
  from s(1) no_promote_trans [OF s] show ?thesis by (auto simp: peerHealthy_def 1 2 split: sum.splits)
qed

lemma no_promote_check: "failover_check E cfg w = (c, v) \<Longrightarrow> no_promote w v"
proof -
  assume a: "failover_check E cfg w = (c, v)"
  obtain r w1 where 1: "isInRecovery E w = (r, w1)" by (rule prod.exhaust)
  obtain h w2 where 2: "peerHealthy E cfg w1 = (h, w2)" by (rule prod.exhaust)
  have s: "no_promote w w1" "no_promote w1 w2" "no_promote w w"
    using no_promote_requests(1) [of w E] no_promote_peerHealthy [of w1 E cfg] 1 2
    by (simp_all add: no_promote_def adds_same)
  have "no_promote w w2" by (rule no_promote_trans [OF s(1,2)])
  with s a show ?thesis
    by (auto simp: failover_check_def 1 2 split: if_splits sum.splits bool.splits)
qed

lemma only_sql_no_promote: "only_sql w w' \<Longrightarrow> no_promote w w'"
  unfolding only_sql_def no_promote_def by (erule adds_mono) auto

lemma no_promote_refresh: "no_promote w (refresh_grant E cfg w)"
proof -
  obtain r w1 where 1: "checkPeerReachable E cfg w = (r, w1)" by (rule prod.exhaust)
  have "no_promote w w1" using no_promote_requests(2) [of w E cfg] 1 by simp
  with no_promote_trans [OF this only_sql_no_promote [OF sql_upkeep.ensureRoleAndDatabase]]
  show ?thesis by (simp add: refresh_grant_def 1)
qed

lemma only_observed_peerHealthy [simp]: "only_observed w (snd (peerHealthy E cfg w))"
proof -
  obtain r w1 where 1: "checkPeerReachable E cfg w = (r, w1)" by (rule prod.exhaust)
  obtain s w2 where 2: "fetchPeerStatus E cfg w1 = (s, w2)" by (rule prod.exhaust)
  have s: "only_observed w w1" "only_observed w1 w2"
    using only_observed_peer(1) [of w E cfg] only_observed_peer(2) [of w1 E cfg] 1 2 by simp_all
  from s(1) only_observed_trans [OF s] show ?thesis by (auto simp: peerHealthy_def 1 2 split: sum.splits)
qed

lemma only_observed_check: "failover_check E cfg w = (c, v) \<Longrightarrow> only_observed w v"
proof -
  assume a: "failover_check E cfg w = (c, v)"
  obtain r w1 where 1: "isInRecovery E w = (r, w1)" by (rule prod.exhaust)
  obtain h w2 where 2: "peerHealthy E cfg w1 = (h, w2)" by (rule prod.exhaust)
  have s: "only_observed w w1" "only_observed w1 w2"
    using only_observed_peer(5) [of w E] only_observed_peerHealthy [of w1 E cfg] 1 2 by simp_all
  from s(1) only_observed_trans [OF s] a show ?thesis
    by (auto simp: failover_check_def 1 2 split: if_splits sum.splits bool.splits)
qed

section \<open>The invariant of the monitor\<close>

text \<open>The countdown runs from the first of the unbroken findings that the peer is unhealthy.\<close>

definition counting_from :: "(gotime \<times> check) list \<Rightarrow> gotime \<Rightarrow> bool" where
  "counting_from obs t \<longleftrightarrow>
     (\<exists>before run. obs = before @ (t, PeerUnhealthy) # run \<and> (\<forall>x \<in> set run. snd x = PeerUnhealthy))"

lemma counting_from_snoc: "counting_from obs t \<Longrightarrow> counting_from (obs @ [(s, PeerUnhealthy)]) t"
proof -
  assume "counting_from obs t"
  then obtain before run where "obs = before @ (t, PeerUnhealthy) # run"
    "\<forall>x \<in> set run. snd x = PeerUnhealthy" by (auto simp: counting_from_def)
  then show ?thesis
    unfolding counting_from_def
    by (intro exI [of _ before] exI [of _ "run @ [(s, PeerUnhealthy)]"]) auto
qed

lemma counting_from_now: "counting_from (obs @ [(s, PeerUnhealthy)]) s"
  unfolding counting_from_def by (intro exI [of _ obs] exI [of _ "[]"]) simp

definition monitor_inv :: "config \<Rightarrow> (gotime \<times> check) list \<Rightarrow> gotime option \<Rightarrow> world \<Rightarrow> bool" where
  "monitor_inv cfg obs since w \<longleftrightarrow> monitor_enabled cfg \<and>
     (case since of
        None \<Rightarrow> failoverPromoteDeadline w = 0
      | Some t \<Rightarrow> failoverPromoteDeadline w = t + FailoverTimeout cfg \<and> counting_from obs t)"

text \<open>The cases of a pass.\<close>

lemma failover_tick_cases:
  assumes "failover_tick E cfg since w = (since', w')"
  obtains (quiet) c v where "failover_check E cfg w = (c, v)" "since' = None"
      "failoverPromoteDeadline w' = 0" "no_promote w w'" "c \<noteq> PeerUnhealthy"
    | (begin_countdown) v where "failover_check E cfg w = (PeerUnhealthy, v)" "since = None"
        "since' = Some (now v)" "w' = v\<lparr>failoverPromoteDeadline := now v + FailoverTimeout cfg\<rparr>"
    | (waiting) v t where "failover_check E cfg w = (PeerUnhealthy, v)" "since = Some t"
        "since' = Some t" "w' = v" "now v - t < FailoverTimeout cfg \<or> rebootSuppressActive v"
    | (refused) v t e where "failover_check E cfg w = (PeerUnhealthy, v)" "since = Some t"
        "since' = Some t" "FailoverTimeout cfg \<le> now v - t" "\<not> rebootSuppressActive v"
        "promote E v = (Inl e, w')"
    | (promoted) v t u where "failover_check E cfg w = (PeerUnhealthy, v)" "since = Some t"
        "since' = None" "FailoverTimeout cfg \<le> now v - t" "\<not> rebootSuppressActive v"
        "promote E v = (Inr (), u)"
        "w' = reset_countdown (ensureRoleAndDatabaseBlocking E cfg (record_promotion (now v) u))"
proof -
  obtain c v where c: "failover_check E cfg w = (c, v)" by (rule prod.exhaust)
  have nv: "no_promote w v" using no_promote_check [OF c] .
  have nr: "no_promote w (refresh_grant E cfg v)" using no_promote_trans [OF nv no_promote_refresh] .
  have keep: "no_promote w (reset_countdown u) = no_promote w u"
    "no_promote w ((reset_countdown u)\<lparr>rebootSuppressUntil := 0\<rparr>) = no_promote w u" for u
    by (simp_all add: no_promote_def adds_def reset_countdown_def)
  have zero: "failoverPromoteDeadline (reset_countdown u) = 0"
    "failoverPromoteDeadline ((reset_countdown u)\<lparr>rebootSuppressUntil := 0\<rparr>) = 0" for u
    by (simp_all add: reset_countdown_def)
  note def = assms [unfolded failover_tick_def c prod.case]
  show thesis
  proof (cases c)
    case NotRunning
    with def have "since' = None" "w' = reset_countdown v" by simp_all
    then show thesis using NotRunning nv by (intro quiet [OF c]) (simp_all add: keep zero)
  next
    case RoleUnknown
    with def have "since' = None" "w' = reset_countdown v" by simp_all
    then show thesis using RoleUnknown nv by (intro quiet [OF c]) (simp_all add: keep zero)
  next
    case LocalPrimary
    with def have "since' = None" "w' = reset_countdown (refresh_grant E cfg v)" by simp_all
    then show thesis using LocalPrimary nr by (intro quiet [OF c]) (simp_all add: keep zero)
  next
    case PeerHealthy
    with def have "since' = None" "w' = (reset_countdown v)\<lparr>rebootSuppressUntil := 0\<rparr>" by simp_all
    then show thesis using PeerHealthy nv by (intro quiet [OF c]) (simp_all add: keep zero)
  next
    case PeerUnhealthy
    obtain p u where p: "promote E v = (p, u)" by (rule prod.exhaust)
    note cu = c [unfolded PeerUnhealthy] and def' = def [unfolded PeerUnhealthy check.case p prod.case]
    show thesis
    proof (cases since)
      case None
      with def' show thesis by (intro begin_countdown [OF cu]) simp_all
    next
      case (Some t)
      note def'' = def' [unfolded Some option.case]
      show thesis
      proof (cases "now v - t < FailoverTimeout cfg \<or> rebootSuppressActive v")
        case True
        with def'' show thesis by (intro waiting [OF cu Some]) (simp_all split: if_splits)
      next
        case False
        then have f: "FailoverTimeout cfg \<le> now v - t" "\<not> rebootSuppressActive v" by simp_all
        show thesis
        proof (cases p)
          case (Inl e)
          with def'' f p show thesis by (intro refused [OF cu Some _ f]) simp_all
        next
          case (Inr x)
          with def'' f have "since' = None"
            "w' = reset_countdown (ensureRoleAndDatabaseBlocking E cfg (record_promotion (now v) u))"
            by auto
          with Inr p show thesis by (intro promoted [OF cu Some _ f]) simp_all
        qed
      qed
    qed
  qed
qed

lemma monitor_inv_pass:
  assumes "monitor_inv cfg obs since w" and "failover_check E cfg w = (c, v)"
    and "failover_tick E cfg since w = (since', w')"
  shows "monitor_inv cfg (obs @ [(now v, c)]) since' w'"
proof -
  have en: "monitor_enabled cfg" using assms(1) by (simp add: monitor_inv_def)
  have d: "failoverPromoteDeadline v = failoverPromoteDeadline w"
    using only_observedD(14) [OF only_observed_check [OF assms(2)]] .
  from assms(3) show ?thesis
  proof (cases rule: failover_tick_cases)
    case quiet
    with en show ?thesis by (simp add: monitor_inv_def)
  next
    case (begin_countdown v')
    with assms(2) en show ?thesis by (simp add: monitor_inv_def counting_from_now)
  next
    case (waiting v' t)
    with assms(1,2) d show ?thesis by (simp add: monitor_inv_def counting_from_snoc)
  next
    case (refused v' t e)
    have "failoverPromoteDeadline w' = failoverPromoteDeadline v'"
      using only_observedD(14) [OF only_observed_peer(6) [of v' E]] refused(6) by simp
    with refused assms(1,2) d show ?thesis by (simp add: monitor_inv_def counting_from_snoc)
  next
    case (promoted v' t u)
    with en show ?thesis by (simp add: monitor_inv_def reset_countdown_def)
  qed
qed

lemma monitored_inv: "monitored E cfg obs since w \<Longrightarrow> monitor_inv cfg obs since w"
proof (induction rule: monitored.induct)
  case (begun w)
  then show ?case by (simp add: monitor_inv_def)
next
  case (elsewhere obs since w w')
  then show ?case by (simp add: monitor_inv_def split: option.splits)
next
  case (pass obs since w c v since' w')
  then show ?case by (blast intro: monitor_inv_pass)
qed

section \<open>Example: a standby whose peer is gone\<close>

definition lone_env :: "bool option \<Rightarrow> env" where
  "lone_env r = calm\<lparr>promote_reply := (\<lambda>_. r), recovery_reply := (\<lambda>_. Some True), health_reply := (\<lambda>_. None),
     status_reply := (\<lambda>_. StatusUnreachable)\<rparr>"

definition lone :: world where
  "lone = running_world 0 [''PG_VERSION'' \<mapsto> ''18'', ''standby.signal'' \<mapsto> []]"

text \<open>After one pass and a minute.\<close>

definition waited :: "bool option \<Rightarrow> world" where
  "waited r = (snd (failover_tick (lone_env r) demo_config None lone))\<lparr>now := 60 * second\<rparr>"

lemmas failover_eval_defs [evals] =
  failover_check_def peerHealthy_def rebootSuppressActive_def rebootSuppressRemaining_def
  remaining_def record_promotion_def reset_countdown_def markPeerSeen_def

lemma lone_pass:
  "failover_check (lone_env r) demo_config lone =
     (PeerUnhealthy, snd (failover_check (lone_env r) demo_config lone))"
  "failover_tick (lone_env r) demo_config None lone =
     (Some 0, snd (failover_tick (lone_env r) demo_config None lone))"
  "now (snd (failover_check (lone_env r) demo_config lone)) = 0"
  by (simp_all add: failover_tick_def evals lone_env_def lone_def)

lemma waited_monitored: "monitored (lone_env r) demo_config [(0, PeerUnhealthy)] (Some 0) (waited r)"
proof -
  have "monitored (lone_env r) demo_config [] None lone"
    by (rule monitored.begun) (simp_all add: monitor_enabled_def lone_def evals)
  from monitored.pass [OF this lone_pass(1,2)]
  have "monitored (lone_env r) demo_config [(0, PeerUnhealthy)] (Some 0)
      (snd (failover_tick (lone_env r) demo_config None lone))" by (simp add: lone_pass(3))
  then show ?thesis
    by (rule monitored.elsewhere)
       (simp_all add: waited_def later_def failover_tick_def evals lone_env_def lone_def
         less_imp_le [OF second_pos])
qed

lemma waited_promotes:
  "failoverPromoteDeadline (waited r) = 60 * second"
  "failover_check (lone_env r) demo_config (waited r) =
     (PeerUnhealthy, snd (failover_check (lone_env r) demo_config (waited r)))"
  "now (snd (failover_check (lone_env r) demo_config (waited r))) = 60 * second"
  "\<not> rebootSuppressActive (snd (failover_check (lone_env r) demo_config (waited r)))"
  "promote_reply (lone_env r) k = r"
  by (simp_all add: failover_tick_def evals lone_env_def lone_def waited_def)

lemma waited_asks:
  "EvLocalPromote None \<in> set (fresh_events (waited None) (snd (failover_tick (lone_env None) demo_config (Some 0) (waited None))))"
  by (simp add: failover_tick_def evals lone_env_def lone_def waited_def)

section \<open>Properties\<close>

text \<open>
  C20. The monitor promotes only after an unbroken series of checks has found the peer unhealthy for
  the whole failover timeout: when a pass asks the local server to promote itself, the server runs
  as a standby, the mode is automatic with a peer configured, this pass finds the peer unhealthy,
  and so did every pass from one at a time \<open>t\<close> on, at least the timeout ago; and no planned reboot
  of the peer is being waited for.
\<close>

theorem failover_only_after_timeout:
  assumes "monitored E cfg obs since w" and "failover_tick E cfg since w = (since', w')"
    and "EvLocalPromote r \<in> set (fresh_events w w')"
  shows "\<exists>v t before run. failover_check E cfg w = (PeerUnhealthy, v) \<and>
    obs = before @ (t, PeerUnhealthy) # run \<and> (\<forall>x \<in> set run. snd x = PeerUnhealthy) \<and>
    FailoverTimeout cfg \<le> now v - t \<and>
    \<not> (rebootSuppressUntil v \<noteq> 0 \<and> now v < rebootSuppressUntil v) \<and>
    postgresRunning w \<and> FailoverMode cfg = ''automatic'' \<and> PeerHost cfg \<noteq> []"
proof -
  have i: "monitor_inv cfg obs since w" by (rule monitored_inv [OF assms(1)])
  have no: "\<not> no_promote w w'"
    using assms(3) adds_fresh unfolding no_promote_def by fastforce
  have found: ?thesis if "failover_check E cfg w = (PeerUnhealthy, v)" "since = Some t"
    "FailoverTimeout cfg \<le> now v - t" "\<not> rebootSuppressActive v" for v t
  proof -
    from i that(2) obtain before run where "obs = before @ (t, PeerUnhealthy) # run"
      "\<forall>x \<in> set run. snd x = PeerUnhealthy"
      by (auto simp: monitor_inv_def counting_from_def)
    moreover have "postgresRunning w" using that(1) by (simp add: failover_check_def split: if_splits)
    ultimately show ?thesis
      using that i by (auto simp: rebootSuppressActive_def rebootSuppressRemaining_def remaining_pos
          monitor_inv_def monitor_enabled_def)
  qed
  from assms(2) show ?thesis
  proof (cases rule: failover_tick_cases)
    case quiet
    with no show ?thesis by simp
  next
    case (begin_countdown v)
    have "no_promote w w'"
      using no_promote_check [OF begin_countdown(1)] begin_countdown(4) by (simp add: no_promote_def adds_def)
    with no show ?thesis by simp
  next
    case (waiting v t)
    with no no_promote_check [OF waiting(1)] show ?thesis by simp
  next
    case (refused v t e)
    from found [OF refused(1,2,4,5)] show ?thesis .
  next
    case (promoted v t u)
    from found [OF promoted(1,2,4,5)] show ?thesis .
  qed
qed

theorem failover_only_after_timeout_witness:
  "\<exists>v. failover_check (lone_env None) demo_config (waited None) = (PeerUnhealthy, v) \<and> 60 * second \<le> now v"
proof -
  from failover_only_after_timeout [OF waited_monitored prod.collapse [symmetric] waited_asks]
  obtain v t before run where "failover_check (lone_env None) demo_config (waited None) = (PeerUnhealthy, v)"
    "[(0, PeerUnhealthy)] = before @ (t, PeerUnhealthy) # run" "FailoverTimeout demo_config \<le> now v - t"
    by blast
  then have "t = 0" by (cases before) auto
  with \<open>FailoverTimeout demo_config \<le> now v - t\<close> have "60 * second \<le> now v" by (simp add: demo_config_def)
  with \<open>failover_check (lone_env None) demo_config (waited None) = (PeerUnhealthy, v)\<close> show ?thesis by blast
qed

lemma promotion_seen:
  assumes "later w v" and "promote E v = (p, u)" and "later u x"
  shows "EvLocalPromote (promote_reply E (calls v)) \<in> set (fresh_events w x)"
proof -
  have "trace u = trace v @ [EvLocalPromote (promote_reply E (calls v))]"
    using assms(2) by (auto simp: promote_def Let_def)
  then have "fresh_events v u = [EvLocalPromote (promote_reply E (calls v))]"
    by (simp add: fresh_events_def)
  moreover have vu: "later v u" using later_peer(6) [of v E] assms(2) by simp
  moreover have "fresh_events w x = fresh_events w v @ fresh_events v u @ fresh_events u x"
    using fresh_events_trans [OF assms(1) later_trans [OF vu assms(3)]] fresh_events_trans [OF vu assms(3)]
    by simp
  ultimately show ?thesis by simp
qed

text \<open>
  C21. Once the countdown shown has run out, the next pass that finds the peer unhealthy, with no
  planned reboot being waited for, asks the local server to promote itself. When that works the
  promotion is counted and the countdown cleared; when it does not, the countdown stays expired, so
  the next pass tries again.
\<close>

theorem failover_promotes_when_due:
  assumes "monitored E cfg obs since w" and "failoverPromoteDeadline w \<noteq> 0"
    and "failover_check E cfg w = (PeerUnhealthy, v)" and "failoverPromoteDeadline w \<le> now v"
    and "\<not> rebootSuppressActive v" and "failover_tick E cfg since w = (since', w')"
  shows "EvLocalPromote (promote_reply E (calls v)) \<in> set (fresh_events w w') \<and>
    (if promote_reply E (calls v) = Some True
     then failoverPromoteDeadline w' = 0 \<and> promotionsCounter (met w') = promotionsCounter (met w) + 1
     else since' = since \<and> failoverPromoteDeadline w' = failoverPromoteDeadline w)"
proof -
  have i: "monitor_inv cfg obs since w" by (rule monitored_inv [OF assms(1)])
  with assms(2) obtain t where t: "since = Some t" "failoverPromoteDeadline w = t + FailoverTimeout cfg"
    by (auto simp: monitor_inv_def split: option.splits)
  note ov = only_observed_check [OF assms(3)]
  note asked = promotion_seen [OF only_observedD(1) [OF ov]]
  from assms(6) show ?thesis
  proof (cases rule: failover_tick_cases)
    case (refused v' t' e)
    with assms(3) have v': "v' = v" by simp
    have "promote_reply E (calls v) \<noteq> Some True"
      using refused(6) v' by (auto simp: promote_def Let_def split: option.splits if_splits)
    moreover have "failoverPromoteDeadline w' = failoverPromoteDeadline w"
      using only_observedD(14) [OF only_observed_peer(6) [of v E]] only_observedD(14) [OF ov] refused(6) v'
      by simp
    ultimately show ?thesis using asked [OF refused(6) [unfolded v'] later_refl] refused(2,3) by simp
  next
    case (promoted v' t' u)
    with assms(3) have v': "v' = v" by simp
    have yes: "promote_reply E (calls v) = Some True"
      using promoted(6) v' by (auto simp: promote_def Let_def split: option.splits if_splits)
    define x where "x = ensureRoleAndDatabaseBlocking E cfg (record_promotion (now v) u)"
    have "off_child (record_promotion (now v) u) x" by (simp add: x_def)
    moreover have "later u (record_promotion (now v) u)" by (simp add: record_promotion_def later_def)
    moreover have "later x w'" by (simp add: promoted(7) v' x_def reset_countdown_def later_def)
    ultimately have "later u w'" using off_childD(1) later_trans by metis
    moreover have "met w' = met (record_promotion (now v) u)"
      using metrics_upkeep.ensureRoleAndDatabaseBlocking [of E cfg "record_promotion (now v) u"]
      by (simp add: promoted(7) v' reset_countdown_def)
    moreover have "met u = met w"
      using only_observedD(4) [OF only_observed_peer(6) [of v E]] only_observedD(4) [OF ov] promoted(6) v'
      by simp
    ultimately show ?thesis
      using asked [OF promoted(6) [unfolded v']] yes promoted(7)
      by (simp add: record_promotion_def reset_countdown_def)
  qed (use assms(3,5) t assms(4) in simp_all)
qed

theorem failover_promotes_when_due_witness:
  "promotionsCounter (met (snd (failover_tick (lone_env (Some True)) demo_config (Some 0) (waited (Some True))))) =
     promotionsCounter (met (waited (Some True))) + 1"
proof -
  have d: "failoverPromoteDeadline (waited (Some True)) \<noteq> 0"
    "failoverPromoteDeadline (waited (Some True))
       \<le> now (snd (failover_check (lone_env (Some True)) demo_config (waited (Some True))))"
    by (simp_all add: waited_promotes(1,3) time_units)
  from failover_promotes_when_due [OF waited_monitored d(1) waited_promotes(2) d(2) waited_promotes(4)
      prod.collapse [symmetric]]
  show ?thesis by (simp only: waited_promotes(5) simp_thms if_True)
qed

end
