(* ===== verification/Metrics.thy ===== *)
theory Metrics
  imports Failover
begin

text \<open>
  The queries of \<open>src/src/db.go\<close> and the report of \<open>src/src/metrics.go\<close>: \<open>collectMetrics\<close> as the list
  of its samples, in their order. A value is an integer or a number of nanoseconds shown in
  seconds; how Go prints a \<open>float64\<close> and the fixed help texts are arguments of \<open>exposition\<close>.
\<close>

section \<open>Queries on the pool\<close>

definition Ping :: "env \<Rightarrow> world \<Rightarrow> bool \<times> world" where
  "Ping E w = (connect_ok E (calls w), tick E w)"

definition query_number :: "env \<Rightarrow> string \<Rightarrow> string \<Rightarrow> world \<Rightarrow> (pg_error + int) \<times> world" where
  "query_number E sql what w =
     (case query_int E (calls w) of None \<Rightarrow> Inl (Err what) | Some n \<Rightarrow> Inr n,
      emit (EvSQL sql) (tick E w))"

definition serverVersion :: "env \<Rightarrow> world \<Rightarrow> (pg_error + string) \<times> world" where
  "serverVersion E w =
     (case query_text E (calls w) of
        None \<Rightarrow> Inl (Err ''querying server_version'')
      | Some s \<Rightarrow> Inr s,
      emit (EvSQL ''SHOW server_version'') (tick E w))"

definition lag_sql :: "bool \<Rightarrow> string" where
  "lag_sql inRecovery =
     (if inRecovery
      then ''SELECT COALESCE(pg_wal_lsn_diff(pg_last_wal_receive_lsn(), pg_last_wal_replay_lsn()), 0)::bigint''
      else ''SELECT COALESCE(MAX(pg_wal_lsn_diff(pg_current_wal_lsn(), replay_lsn)), 0)::bigint FROM pg_stat_replication'')"

definition replicationLagBytes :: "env \<Rightarrow> bool \<Rightarrow> world \<Rightarrow> (pg_error + int) \<times> world" where
  "replicationLagBytes E inRecovery w =
     (case query_number E (lag_sql inRecovery) ''querying replication lag'' w of
        (Inl e, w1) \<Rightarrow> (Inl e, w1)
      | (Inr lag, w1) \<Rightarrow> (Inr (if lag < 0 then 0 else lag), w1))"

definition replicationConnectedCount :: "env \<Rightarrow> world \<Rightarrow> (pg_error + int) \<times> world" where
  "replicationConnectedCount E w =
     query_number E ''SELECT count(*) FROM pg_stat_replication'' ''querying pg_stat_replication'' w"

definition replicationConnected :: "env \<Rightarrow> bool \<Rightarrow> world \<Rightarrow> (pg_error + bool) \<times> world" where
  "replicationConnected E inRecovery w =
     (case (if inRecovery
            then query_number E ''SELECT count(*) FROM pg_stat_wal_receiver'' ''querying pg_stat_wal_receiver'' w
            else replicationConnectedCount E w) of
        (Inl e, w1) \<Rightarrow> (Inl e, w1)
      | (Inr n, w1) \<Rightarrow> (Inr (0 < n), w1))"

definition connectionCount :: "env \<Rightarrow> world \<Rightarrow> (pg_error + int) \<times> world" where
  "connectionCount E w =
     query_number E ''SELECT count(*) FROM pg_stat_activity'' ''querying pg_stat_activity'' w"

definition databaseSizeBytes :: "env \<Rightarrow> world \<Rightarrow> (pg_error + int) \<times> world" where
  "databaseSizeBytes E w =
     query_number E ''SELECT pg_database_size($1)'' ''querying database size'' w"

section \<open>Values and samples\<close>

datatype amount = Count int | Seconds duration

datatype sample = Gauge string amount | Counter string amount

fun sample_name :: "sample \<Rightarrow> string" where
  "sample_name (Gauge n _) = n"
| "sample_name (Counter n _) = n"

fun sample_amount :: "sample \<Rightarrow> amount" where
  "sample_amount (Gauge _ v) = v"
| "sample_amount (Counter _ v) = v"

definition boolToFloat :: "bool \<Rightarrow> amount" where
  "boolToFloat b = Count (if b then 1 else 0)"

text \<open>A time stored as 0 has not happened and is shown as 0.\<close>

definition timestampSeconds :: "gotime \<Rightarrow> amount" where
  "timestampSeconds ns = (if ns = 0 then Count 0 else Seconds ns)"

definition peer_seen_amount :: "world \<Rightarrow> amount" where
  "peer_seen_amount w = (case secondsSincePeerSeen w of None \<Rightarrow> Count (-1) | Some d \<Rightarrow> Seconds d)"

definition backupAttemptStatus :: "world \<Rightarrow> bool \<times> pg_error option \<times> amount" where
  "backupAttemptStatus w =
     (if backupLastAttemptUnixNano (met w) = 0 then (True, None, Count 0)
      else (backupLastAttemptOK (met w), backupLastAttemptErr (met w),
            Seconds (backupLastAttemptUnixNano (met w))))"

section \<open>Collecting\<close>

text \<open>A sample whose query fails is left out.\<close>

definition sample_of :: "string \<Rightarrow> ('a \<Rightarrow> amount) \<Rightarrow> pg_error + 'a \<Rightarrow> sample list" where
  "sample_of name f r = (case r of Inl _ \<Rightarrow> [] | Inr v \<Rightarrow> [Gauge name (f v)])"

definition database_samples :: "env \<Rightarrow> world \<Rightarrow> sample list \<times> world" where
  "database_samples E w =
     (case isInRecovery E w of
        (Inl _, w1) \<Rightarrow> ([], w1)
      | (Inr inRecovery, w1) \<Rightarrow>
          (let (conns, w2) = connectionCount E w1;
               (size', w3) = databaseSizeBytes E w2;
               (connected, w4) = replicationConnected E inRecovery w3;
               (lag, w5) = replicationLagBytes E inRecovery w4
           in (Gauge ''postgres_ha_role'' (boolToFloat (\<not> inRecovery)) #
               sample_of ''postgres_connections'' Count conns @
               sample_of ''postgres_database_size_bytes'' Count size' @
               sample_of ''postgres_replication_connected'' boolToFloat connected @
               sample_of ''postgres_replication_lag_bytes'' Count lag, w5)))"

text \<open>What is read from the variables and the configuration of the process.\<close>

definition process_samples :: "config \<Rightarrow> world \<Rightarrow> sample list" where
  "process_samples cfg w =
     [Gauge ''postgres_ha_peer_last_seen_seconds'' (peer_seen_amount w),
      Gauge ''postgres_ha_switchover_in_progress'' (boolToFloat (switchoverInProgress w)),
      Gauge ''postgres_ha_shutdown_requested'' (boolToFloat (shutdownInProgress w)),
      Gauge ''postgres_ha_maintenance_active'' (boolToFloat (maintenanceActive w)),
      Gauge ''postgres_ha_maintenance_role_primary'' (boolToFloat (maintenanceWasPrimary w)),
      Gauge ''postgres_ha_shutdown_deferred'' (Count 0),
      Gauge ''postgres_ha_shutdown_mode_reboot'' (boolToFloat (ShutdownMode cfg = ''reboot'')),
      Gauge ''postgres_ha_failover_mode_automatic'' (boolToFloat (FailoverMode cfg = ''automatic'')),
      Gauge ''postgres_ha_failover_timeout_seconds'' (Seconds (FailoverTimeout cfg)),
      Gauge ''postgres_ha_failover_countdown_active'' (boolToFloat (failoverCountdownActive w)),
      Gauge ''postgres_ha_failover_countdown_remaining_seconds'' (Seconds (failoverPromoteRemaining w)),
      Gauge ''postgres_ha_tls_enabled'' (boolToFloat (TLSEnabled cfg)),
      Gauge ''postgres_ha_mtls_required'' (boolToFloat (MTLSRequire cfg)),
      Gauge ''postgres_ha_reboot_grace_period_seconds'' (Seconds (RebootGracePeriod cfg)),
      Gauge ''postgres_ha_reboot_suppress_active'' (boolToFloat (rebootSuppressActive w)),
      Gauge ''postgres_ha_reboot_suppress_remaining_seconds'' (Seconds (rebootSuppressRemaining w)),
      Counter ''postgres_ha_promotions_total'' (Count (promotionsCounter (met w))),
      Counter ''postgres_ha_rejoins_total'' (Count (rejoinsCounter (met w))),
      Gauge ''postgres_ha_last_promotion_duration_seconds'' (Seconds (lastPromotionDuration (met w))),
      Gauge ''postgres_ha_last_rejoin_duration_seconds'' (Seconds (lastRejoinDuration (met w))),
      Gauge ''postgres_ha_last_bootstrap_duration_seconds'' (Seconds (lastBootstrapDuration (met w))),
      Counter ''postgres_ha_postgres_restarts_total'' (Count (postgresRestartsCounter (met w))),
      Counter ''postgres_ha_pg_guard_starts_total'' (Count (pgGuardStartsCounter (met w))),
      Gauge ''postgres_ha_postgres_last_crash_timestamp_seconds''
        (timestampSeconds (lastPostgresCrashUnixNano (met w))),
      Gauge ''postgres_ha_backup_enabled'' (boolToFloat (BackupEnabled cfg)),
      Gauge ''postgres_ha_backup_in_progress'' (boolToFloat (backupInProgress w)),
      Counter ''postgres_ha_backups_total'' (Count (backupsCounter (met w))),
      Counter ''postgres_ha_backup_failures_total'' (Count (backupFailuresCounter (met w))),
      Gauge ''postgres_ha_last_backup_duration_seconds'' (Seconds (lastBackupDuration (met w))),
      Gauge ''postgres_ha_last_backup_timestamp_seconds'' (timestampSeconds (lastBackupUnixNano (met w))),
      Gauge ''postgres_ha_backup_last_attempt_ok'' (boolToFloat (fst (backupAttemptStatus w))),
      Gauge ''postgres_ha_last_backup_attempt_timestamp_seconds'' (snd (snd (backupAttemptStatus w)))]"

definition collectMetrics :: "env \<Rightarrow> config \<Rightarrow> world \<Rightarrow> sample list \<times> world" where
  "collectMetrics E cfg w =
     (let (up, w1) = Ping E w;
          (db, w2) = (if up then database_samples E w1 else ([], w1));
          (peerReachable, w3) = checkPeerReachable E cfg w2
      in (Gauge ''postgres_up'' (boolToFloat up) #
          Gauge ''postgres_ping_duration_seconds'' (Seconds (now w1 - now w)) # db @
          Gauge ''postgres_ha_peer_reachable'' (boolToFloat peerReachable) # process_samples cfg w3, w3))"

text \<open>The text format, from the help text of a name and the digits of a value.\<close>

fun writeSample :: "(string \<Rightarrow> string) \<Rightarrow> (amount \<Rightarrow> string) \<Rightarrow> sample \<Rightarrow> string" where
  "writeSample help fmt (Gauge n v) =
     ''# HELP '' @ n @ '' '' @ help n @ [newline] @ ''# TYPE '' @ n @ '' gauge'' @ [newline] @
     n @ '' '' @ fmt v @ [newline]"
| "writeSample help fmt (Counter n v) =
     ''# HELP '' @ n @ '' '' @ help n @ [newline] @ ''# TYPE '' @ n @ '' counter'' @ [newline] @
     n @ '' '' @ fmt v @ [newline]"

definition exposition :: "(string \<Rightarrow> string) \<Rightarrow> (amount \<Rightarrow> string) \<Rightarrow> sample list \<Rightarrow> string" where
  "exposition help fmt ss = concat (map (writeSample help fmt) ss)"

section \<open>What the report can hold\<close>

definition database_names :: "string list" where
  "database_names =
     [''postgres_ha_role'', ''postgres_connections'', ''postgres_database_size_bytes'',
      ''postgres_replication_connected'', ''postgres_replication_lag_bytes'']"

definition report_names :: "string list" where
  "report_names = ''postgres_up'' # ''postgres_ping_duration_seconds'' # database_names @
     ''postgres_ha_peer_reachable'' # map sample_name (process_samples zero_config (init_world 0 Map.empty))"

lemma process_names: "map sample_name (process_samples cfg w) = map sample_name (process_samples cfg' v)"
  by (simp add: process_samples_def)

lemma report_names_distinct: "distinct report_names"
  by (simp add: report_names_def database_names_def process_samples_def)

fun amount_value :: "amount \<Rightarrow> int" where
  "amount_value (Count n) = n"
| "amount_value (Seconds n) = n"

lemma distinct_subseq: "subseq xs ys \<Longrightarrow> distinct ys \<Longrightarrow> distinct xs"
  by (induction rule: list_emb.induct) (auto dest: list_emb_set)

lemma database_samples_names: "subseq (map sample_name (fst (database_samples E w))) database_names"
proof -
  have "subseq (n # map sample_name (sample_of a fa ra @ sample_of b fb rb @ sample_of c fc rc @ sample_of d fd rd))
      ([n] @ [a] @ [b] @ [c] @ [d])" for n a fa ra b fb rb c fc rc d fd rd
    by (cases ra; cases rb; cases rc; cases rd) (simp_all add: sample_of_def)
  then show ?thesis
    by (auto simp: database_samples_def database_names_def Let_def split: prod.splits sum.splits)
qed

section \<open>A report changes nothing\<close>

lemma observed_queries [simp, intro]:
  "only_observed w (snd (Ping E w))" "only_observed w (snd (query_number E sql what w))"
  "only_observed w (snd (serverVersion E w))"
  by (auto simp: Ping_def query_number_def serverVersion_def intro: observed_steps)

lemma observed_counts [simp, intro]:
  "only_observed w (snd (connectionCount E w))" "only_observed w (snd (databaseSizeBytes E w))"
  by (simp_all add: connectionCount_def databaseSizeBytes_def)

lemma observed_replication [simp, intro]:
  "only_observed w (snd (replicationConnected E b w))" "only_observed w (snd (replicationLagBytes E b w))"
proof -
  have q: "f = (r, w') \<Longrightarrow> only_observed w (snd f) \<Longrightarrow> only_observed w w'" for f :: "'a \<times> world" and r w' by simp
  show "only_observed w (snd (replicationConnected E b w))"
    by (auto simp: replicationConnected_def replicationConnectedCount_def split: prod.splits sum.splits
        dest: q [OF _ observed_queries(2)])
  show "only_observed w (snd (replicationLagBytes E b w))"
    by (auto simp: replicationLagBytes_def split: prod.splits sum.splits dest: q [OF _ observed_queries(2)])
qed

lemma observed_database_samples [simp, intro]: "only_observed w (snd (database_samples E w))"
proof -
  obtain r w1 where 1: "isInRecovery E w = (r, w1)" by (rule prod.exhaust)
  obtain c w2 where 2: "connectionCount E w1 = (c, w2)" by (rule prod.exhaust)
  obtain z w3 where 3: "databaseSizeBytes E w2 = (z, w3)" by (rule prod.exhaust)
  have s: "only_observed w w1" "only_observed w1 w2" "only_observed w2 w3"
    using only_observed_peer(5) [of w E] observed_counts(1) [of w1 E] observed_counts(2) [of w2 E] 1 2 3
    by simp_all
  show ?thesis
  proof (cases r)
    case (Inl e)
    with 1 s show ?thesis by (simp add: database_samples_def)
  next
    case (Inr b)
    obtain k w4 where 4: "replicationConnected E b w3 = (k, w4)" by (rule prod.exhaust)
    obtain l w5 where 5: "replicationLagBytes E b w4 = (l, w5)" by (rule prod.exhaust)
    have "only_observed w3 w4" "only_observed w4 w5"
      using observed_replication(1) [of w3 E b] observed_replication(2) [of w4 E b] 4 5 by simp_all
    from only_observed_trans [OF only_observed_trans [OF only_observed_trans [OF s(1,2)] s(3)]
        only_observed_trans [OF this]]
    show ?thesis by (simp add: database_samples_def 1 Inr 2 3 4 5 Let_def)
  qed
qed

text \<open>The parts of a report.\<close>

lemma collectMetrics_split:
  assumes "collectMetrics E cfg w = (ss, w')"
  obtains db w2 where "db = [] \<or> connect_ok E (calls w) \<and> db = fst (database_samples E (tick E w))"
    "only_observed w w'"
    "ss = Gauge ''postgres_up'' (boolToFloat (connect_ok E (calls w))) #
       Gauge ''postgres_ping_duration_seconds'' (Seconds (now (tick E w) - now w)) # db @
       Gauge ''postgres_ha_peer_reachable'' (boolToFloat (fst (checkPeerReachable E cfg w2))) #
       process_samples cfg w'"
proof -
  obtain db w2 where d: "(if connect_ok E (calls w) then database_samples E (tick E w) else ([], tick E w)) = (db, w2)"
    by (rule prod.exhaust)
  obtain p w3 where p: "checkPeerReachable E cfg w2 = (p, w3)" by (rule prod.exhaust)
  have "only_observed (tick E w) w2"
  proof -
    have "only_observed (tick E w)
        (snd (if connect_ok E (calls w) then database_samples E (tick E w) else ([], tick E w)))" by simp
    then show ?thesis unfolding d by simp
  qed
  moreover have "only_observed w2 w3" using only_observed_peer(1) [of w2 E cfg] p by simp
  ultimately have "only_observed w w3"
    using only_observed_trans [OF only_observed_tick only_observed_trans] by blast
  then show thesis using assms d p
    by (intro that [of db w2]) (auto simp: collectMetrics_def Ping_def Let_def split: if_splits)
qed

section \<open>Properties\<close>

text \<open>
  What the process keeps and shows under a name as it is: settings, counters, durations and times, and
  how long ago the peer was seen (-1 if never). It may be negative where \<open>loadConfig\<close> or the state file
  lets a negative number in.
\<close>

definition kept_values :: "config \<Rightarrow> world \<Rightarrow> (string \<times> int) list" where
  "kept_values cfg w =
     [(''postgres_ha_peer_last_seen_seconds'', case lastPeerSeen w of None \<Rightarrow> -1 | Some t \<Rightarrow> now w - t),
      (''postgres_ha_failover_timeout_seconds'', FailoverTimeout cfg),
      (''postgres_ha_reboot_grace_period_seconds'', RebootGracePeriod cfg),
      (''postgres_ha_promotions_total'', promotionsCounter (met w)),
      (''postgres_ha_rejoins_total'', rejoinsCounter (met w)),
      (''postgres_ha_last_promotion_duration_seconds'', lastPromotionDuration (met w)),
      (''postgres_ha_last_rejoin_duration_seconds'', lastRejoinDuration (met w)),
      (''postgres_ha_last_bootstrap_duration_seconds'', lastBootstrapDuration (met w)),
      (''postgres_ha_postgres_restarts_total'', postgresRestartsCounter (met w)),
      (''postgres_ha_pg_guard_starts_total'', pgGuardStartsCounter (met w)),
      (''postgres_ha_postgres_last_crash_timestamp_seconds'', lastPostgresCrashUnixNano (met w)),
      (''postgres_ha_backups_total'', backupsCounter (met w)),
      (''postgres_ha_backup_failures_total'', backupFailuresCounter (met w)),
      (''postgres_ha_last_backup_duration_seconds'', lastBackupDuration (met w)),
      (''postgres_ha_last_backup_timestamp_seconds'', lastBackupUnixNano (met w)),
      (''postgres_ha_last_backup_attempt_timestamp_seconds'', backupLastAttemptUnixNano (met w))]"

text \<open>The two values that are shown as the server reports them.\<close>

definition raw_names :: "string set" where
  "raw_names = {''postgres_connections'', ''postgres_database_size_bytes''}"

text \<open>A sample with its value, without regard to its unit and type.\<close>

definition shown :: "sample \<Rightarrow> string \<times> int" where
  "shown s = (sample_name s, amount_value (sample_amount s))"

lemma shown_simps [simp]:
  "shown (Gauge n v) = (n, amount_value v)" "shown (Counter n v) = (n, amount_value v)"
  by (simp_all add: shown_def)

lemma shown_amounts:
  "amount_value (timestampSeconds t) = t"
  "amount_value (snd (snd (backupAttemptStatus w))) = backupLastAttemptUnixNano (met w)"
  "amount_value (peer_seen_amount w) = (case lastPeerSeen w of None \<Rightarrow> -1 | Some t \<Rightarrow> now w - t)"
  "0 \<le> amount_value (boolToFloat b)"
  "0 \<le> remaining d w"
  by (simp_all add: timestampSeconds_def backupAttemptStatus_def peer_seen_amount_def
      secondsSincePeerSeen_def boolToFloat_def remaining_def split: option.split)

lemma kept_values_shown: "set (kept_values cfg w) \<subseteq> shown ` set (process_samples cfg w)"
  by (simp add: kept_values_def process_samples_def shown_amounts(1-3))

lemma process_samples_computed:
  assumes "s \<in> set (process_samples cfg w)" and "shown s \<notin> set (kept_values cfg w)"
  shows "0 \<le> snd (shown s)"
proof -
  have "list_all (\<lambda>s. 0 \<le> snd (shown s) \<or> shown s \<in> set (kept_values cfg w)) (process_samples cfg w)"
    by (simp add: process_samples_def kept_values_def shown_amounts rebootSuppressRemaining_def
        failoverPromoteRemaining_def)
  with assms show ?thesis by (auto simp: list_all_iff)
qed

lemma database_samples_computed:
  assumes "s \<in> set (fst (database_samples E w))" and "sample_name s \<notin> raw_names"
  shows "0 \<le> snd (shown s)"
proof -
  have lag: "0 \<le> n" if "replicationLagBytes E b v = (Inr n, v')" for b v v' n
    using that by (auto simp: replicationLagBytes_def split: prod.splits sum.splits if_splits)
  show ?thesis using assms
    by (auto simp: database_samples_def sample_of_def raw_names_def shown_amounts(4) Let_def
        split: prod.splits sum.splits dest: lag)
qed

lemma collected_values:
  assumes "collectMetrics E cfg w = (ss, w')"
  shows "set (kept_values cfg w') \<subseteq> shown ` set ss"
    and "s \<in> set ss \<Longrightarrow> 0 \<le> snd (shown s) \<or> shown s \<in> set (kept_values cfg w') \<or> sample_name s \<in> raw_names"
proof -
  from collectMetrics_split [OF assms(1)] obtain db w2 where
    db: "db = [] \<or> connect_ok E (calls w) \<and> db = fst (database_samples E (tick E w))"
    and ss: "ss = Gauge ''postgres_up'' (boolToFloat (connect_ok E (calls w))) #
       Gauge ''postgres_ping_duration_seconds'' (Seconds (now (tick E w) - now w)) # db @
       Gauge ''postgres_ha_peer_reachable'' (boolToFloat (fst (checkPeerReachable E cfg w2))) #
       process_samples cfg w'" .
  show "set (kept_values cfg w') \<subseteq> shown ` set ss" using kept_values_shown [of cfg w'] by (auto simp: ss)
  show "0 \<le> snd (shown s) \<or> shown s \<in> set (kept_values cfg w') \<or> sample_name s \<in> raw_names"
    if s: "s \<in> set ss"
  proof -
    consider "s \<in> set db" | "s \<in> set (process_samples cfg w')" | "0 \<le> snd (shown s)"
      using s by (auto simp: ss shown_amounts(4) tick_now)
    then show ?thesis
    proof cases
      case 1
      with db show ?thesis using database_samples_computed [of s E "tick E w"] by auto
    next
      case 2
      then show ?thesis using process_samples_computed by blast
    qed simp
  qed
qed



end
