(* ===== verification/Api.thy ===== *)
theory Api
  imports MainLoop Auth Backup Metrics
begin

text \<open>
  \<open>src/src/api.go\<close> and \<open>src/src/metrics_server.go\<close>: the handlers of both listeners and their
  routes. A handler returns the reply, the exit code it then asks the main loop for (if any) and
  the world. What a handler hands over to the main loop it does through \<open>serve\<close>, which sends the
  request and waits for the answer; \<open>handover_channel\<close> states what the loop promises.
\<close>

section \<open>Replies\<close>

text \<open>The report of \<open>/status\<close>, its fields under their JSON names.\<close>

record statusResponse =
  version :: string
  commit :: string
  build_date :: string
  role :: string
  postgres_reachable :: bool
  peer_reachable :: bool
  peer_host :: string
  replication_lag_bytes :: "int option"
  server_version :: string
  shutdown_in_progress :: bool
  switchover_in_progress :: bool
  maintenance_active :: bool
  role_before_maintenance :: string
  shutdown_mode :: string
  failover_mode :: string
  failover_timeout_seconds :: amount
  failover_countdown_active :: bool
  failover_countdown_remaining_seconds :: amount
  reboot_grace_period_seconds :: amount
  reboot_suppress_active :: bool
  reboot_suppress_remaining_seconds :: amount
  tls_enabled :: bool
  mtls_required :: bool
  api_token_required :: bool
  metrics_mode :: string
  textfile_dir :: string
  textfile_interval_seconds :: amount
  backup_enabled :: bool
  backup_in_progress :: bool
  last_backup_timestamp_seconds :: amount
  last_backup_duration_seconds :: amount
  last_backup_attempt_ok :: bool
  last_backup_attempt_error :: "pg_error option"
  last_backup_attempt_timestamp_seconds :: amount
  postgres_restart_limit :: int
  postgres_restart_window_seconds :: amount
  last_postgres_crash_timestamp_seconds :: amount
  state_file :: string

datatype body =
    ErrorBody pg_error
  | ResultBody string
  | NoticeBody gotime
  | BackupBody string duration
  | StatusBody statusResponse
  | MetricsBody "sample list"
  | NotReadyBody
  | NoRouteBody

datatype reply = Reply (status_code: int) (content: body)

type_synonym answer = "reply \<times> int option"

type_synonym handler = "request \<Rightarrow> world \<Rightarrow> answer \<times> world"

type_synonym serve = "string \<Rightarrow> world \<Rightarrow> (pg_error + unit) \<times> world"

definition refusal :: "int \<Rightarrow> pg_error \<Rightarrow> answer" where
  "refusal code e = (Reply code (ErrorBody e), None)"

definition ok_reply :: "string \<Rightarrow> int option \<Rightarrow> answer" where
  "ok_reply msg ex = (Reply 200 (ResultBody msg), ex)"

section \<open>Reading handlers\<close>

definition handleHealth :: handler where
  "handleHealth r w = (ok_reply ''ok'' None, w)"

definition handleReady :: "env \<Rightarrow> handler" where
  "handleReady E r w =
     (let (up, w1) = Ping E w
      in if up then (ok_reply ''ready'' None, w1) else ((Reply 503 NotReadyBody, None), w1))"

text \<open>What is known without the database.\<close>

definition process_status :: "config \<Rightarrow> string \<times> string \<times> string \<Rightarrow> bool \<Rightarrow> world \<Rightarrow> statusResponse" where
  "process_status cfg build peer w = \<lparr>
     version = fst build,
     commit = fst (snd build),
     build_date = snd (snd build),
     role = ''unknown'',
     postgres_reachable = False,
     peer_reachable = peer,
     peer_host = PeerHost cfg,
     replication_lag_bytes = None,
     server_version = [],
     shutdown_in_progress = shutdownInProgress w,
     switchover_in_progress = switchoverInProgress w,
     maintenance_active = maintenanceActive w,
     role_before_maintenance =
       (if maintenanceActive w then if maintenanceWasPrimary w then ''primary'' else ''standby'' else []),
     shutdown_mode = ShutdownMode cfg,
     failover_mode = FailoverMode cfg,
     failover_timeout_seconds = Seconds (FailoverTimeout cfg),
     failover_countdown_active = failoverCountdownActive w,
     failover_countdown_remaining_seconds = Seconds (failoverPromoteRemaining w),
     reboot_grace_period_seconds = Seconds (RebootGracePeriod cfg),
     reboot_suppress_active = rebootSuppressActive w,
     reboot_suppress_remaining_seconds = Seconds (rebootSuppressRemaining w),
     tls_enabled = TLSEnabled cfg,
     mtls_required = MTLSRequire cfg,
     api_token_required = (APIToken cfg \<noteq> []),
     metrics_mode = MetricsMode cfg,
     textfile_dir = TextfileDir cfg,
     textfile_interval_seconds = Seconds (TextfileInterval cfg),
     backup_enabled = BackupEnabled cfg,
     backup_in_progress = backupInProgress w,
     last_backup_timestamp_seconds = timestampSeconds (lastBackupUnixNano (met w)),
     last_backup_duration_seconds = Seconds (lastBackupDuration (met w)),
     last_backup_attempt_ok = fst (backupAttemptStatus w),
     last_backup_attempt_error = fst (snd (backupAttemptStatus w)),
     last_backup_attempt_timestamp_seconds = snd (snd (backupAttemptStatus w)),
     postgres_restart_limit = PostgresRestartLimit cfg,
     postgres_restart_window_seconds = Seconds (PostgresRestartWindow cfg),
     last_postgres_crash_timestamp_seconds = timestampSeconds (lastPostgresCrashUnixNano (met w)),
     state_file = StateFile cfg \<rparr>"

text \<open>The role and the lag are reported only when their queries succeed.\<close>

definition add_role :: "env \<Rightarrow> statusResponse \<Rightarrow> world \<Rightarrow> statusResponse \<times> world" where
  "add_role E s w =
     (case isInRecovery E w of
        (Inl _, w1) \<Rightarrow> (s, w1)
      | (Inr inRecovery, w1) \<Rightarrow>
          (let s1 = s\<lparr>role := (if inRecovery then ''standby'' else ''primary'')\<rparr>;
               (lag, w2) = replicationLagBytes E inRecovery w1
           in (case lag of Inl _ \<Rightarrow> s1 | Inr n \<Rightarrow> s1\<lparr>replication_lag_bytes := Some n\<rparr>, w2)))"

definition add_version :: "env \<Rightarrow> statusResponse \<Rightarrow> world \<Rightarrow> statusResponse \<times> world" where
  "add_version E s w =
     (let (v, w1) = serverVersion E w
      in (case v of Inl _ \<Rightarrow> s | Inr x \<Rightarrow> s\<lparr>server_version := x\<rparr>, w1))"

definition status_report ::
  "env \<Rightarrow> config \<Rightarrow> string \<times> string \<times> string \<Rightarrow> world \<Rightarrow> statusResponse \<times> world" where
  "status_report E cfg build w =
     (let (peer, w1) = checkPeerReachable E cfg w;
          s = process_status cfg build peer w1;
          (up, w2) = Ping E w1
      in if \<not> up then (s, w2)
         else (let (s1, w3) = add_role E (s\<lparr>postgres_reachable := True\<rparr>) w2 in add_version E s1 w3))"

definition handleStatus :: "env \<Rightarrow> config \<Rightarrow> string \<times> string \<times> string \<Rightarrow> handler" where
  "handleStatus E cfg build r w =
     (let (s, w1) = status_report E cfg build w in ((Reply 200 (StatusBody s), None), w1))"

definition handleMetrics :: "env \<Rightarrow> config \<Rightarrow> handler" where
  "handleMetrics E cfg r w =
     (if \<not> MetricsEnabled cfg then ((Reply 404 NoRouteBody, None), w)
      else (let (ss, w1) = collectMetrics E cfg w in ((Reply 200 (MetricsBody ss), None), w1)))"

section \<open>Changing handlers\<close>

definition peer_is_primary :: "env \<Rightarrow> config \<Rightarrow> world \<Rightarrow> bool \<times> world" where
  "peer_is_primary E cfg w =
     (case fetchPeerStatus E cfg w of
        (Inl _, w1) \<Rightarrow> (False, w1)
      | (Inr peerRole, w1) \<Rightarrow> (peerRole = ''primary'', w1))"

definition do_promote :: "env \<Rightarrow> config \<Rightarrow> world \<Rightarrow> answer \<times> world" where
  "do_promote E cfg w =
     (case promote E w of
        (Inl e, w1) \<Rightarrow> (refusal 500 e, w1)
      | (Inr _, w1) \<Rightarrow>
          (ok_reply ''promoted'' None, ensureRoleAndDatabaseBlocking E cfg (record_promotion (now w) w1)))"

definition handlePromote :: "env \<Rightarrow> config \<Rightarrow> handler" where
  "handlePromote E cfg r w =
     (if forceParam r \<noteq> ''true''
      then (let (primary, w1) = peer_is_primary E cfg w
            in if primary
               then (refusal 409 (Err ''peer is reachable and reports itself as primary''), w1)
               else do_promote E cfg w1)
      else do_promote E cfg w)"

definition handleShutdown :: "config \<Rightarrow> serve \<Rightarrow> handler" where
  "handleShutdown cfg serve r w =
     (let reboot = (ShutdownMode cfg = ''reboot'');
          finish = (\<lambda>v. v\<lparr>shutdownInProgress := False\<rparr>)
      in case serve (if reboot then ''reboot'' else ''shutdown'') (w\<lparr>shutdownInProgress := True\<rparr>) of
           (Inl e, w1) \<Rightarrow> (refusal 409 e, finish w1)
         | (Inr _, w1) \<Rightarrow>
             (ok_reply ''shutdown complete'' (Some (if reboot then exitCodeSwitchoverRestart else 0)),
              finish w1))"

definition handleRebootNotice :: "config \<Rightarrow> handler" where
  "handleRebootNotice cfg r w =
     (let until = now w + RebootGracePeriod cfg
      in ((Reply 200 (NoticeBody until), None), w\<lparr>rebootSuppressUntil := until\<rparr>))"

definition note_role :: "env \<Rightarrow> world \<Rightarrow> world" where
  "note_role E w =
     (case isInRecovery E w of
        (Inl _, w1) \<Rightarrow> w1
      | (Inr inRecovery, w1) \<Rightarrow> w1\<lparr>maintenanceWasPrimary := (\<not> inRecovery)\<rparr>)"

definition handleMaintenance :: "env \<Rightarrow> serve \<Rightarrow> handler" where
  "handleMaintenance E serve r w =
     (let finish = (\<lambda>v. v\<lparr>shutdownInProgress := False\<rparr>)
      in case serve ''maintenance'' (note_role E (w\<lparr>shutdownInProgress := True\<rparr>)) of
           (Inl e, w1) \<Rightarrow> (refusal 409 e, finish w1)
         | (Inr _, w1) \<Rightarrow>
             (ok_reply ''postgres stopped for maintenance'' None, finish (w1\<lparr>maintenanceActive := True\<rparr>)))"

definition handleSwitchover :: "env \<Rightarrow> serve \<Rightarrow> handler" where
  "handleSwitchover E serve r w =
     (if \<not> postgresRunning w then (refusal 409 PostgresNotRunning, w)
      else
        (case isInRecovery E w of
           (Inl e, w1) \<Rightarrow> (refusal 503 e, w1)
         | (Inr True, w1) \<Rightarrow> (refusal 400 (Err ''switchover must be requested on the current primary''), w1)
         | (Inr False, w1) \<Rightarrow>
             (let finish = (\<lambda>v. v\<lparr>switchoverInProgress := False\<rparr>)
              in case serve ''switchover'' (w1\<lparr>switchoverInProgress := True\<rparr>) of
                   (Inl e, w2) \<Rightarrow> (refusal 409 e, finish w2)
                 | (Inr _, w2) \<Rightarrow>
                     (ok_reply ''switchover complete'' (Some exitCodeSwitchoverRestart), finish w2))))"

text \<open>Leaving maintenance; the check that \<open>handleStart\<close> starts beside its reply runs in the background.\<close>

definition handleRejoin :: "serve \<Rightarrow> handler" where
  "handleRejoin serve r w =
     (case serve ''rejoin'' w of
        (Inl e, w1) \<Rightarrow> (refusal 409 e, w1)
      | (Inr _, w1) \<Rightarrow> (ok_reply ''rejoined as standby and started'' None, w1\<lparr>maintenanceActive := False\<rparr>))"

definition handleStart :: "serve \<Rightarrow> handler" where
  "handleStart serve r w =
     (case serve ''start'' w of
        (Inl e, w1) \<Rightarrow> (refusal 409 e, w1)
      | (Inr _, w1) \<Rightarrow> (ok_reply ''postgres started'' None, w1\<lparr>maintenanceActive := False\<rparr>))"

definition handleBackup :: "env \<Rightarrow> config \<Rightarrow> handler" where
  "handleBackup E cfg r w =
     (case performBackup E cfg w of
        (Inl e, w1) \<Rightarrow>
          (if errors_Is e errBackupNotPrimary
           then refusal 409 (Err ''backup must be requested on the current primary, not a standby'')
           else if errors_Is e errBackupInProgress then refusal 409 (Err ''a backup is already in progress'')
           else refusal 500 e, w1)
      | (Inr (dest, d), w1) \<Rightarrow> ((Reply 200 (BackupBody dest d), None), w1))"

section \<open>Routes\<close>

text \<open>A route of \<open>GET\<close> also takes \<open>HEAD\<close>; a path with another method is answered 405.\<close>

type_synonym route = "string \<times> string \<times> handler"

definition takes :: "request \<Rightarrow> route \<Rightarrow> bool" where
  "takes r rt \<longleftrightarrow> fst (snd rt) = reqPath r \<and>
     (fst rt = reqMethod r \<or> fst rt = ''GET'' \<and> reqMethod r = ''HEAD'')"

definition ServeHTTP :: "route list \<Rightarrow> handler" where
  "ServeHTTP routes r w =
     (case find (takes r) routes of
        Some (_, _, h) \<Rightarrow> h r w
      | None \<Rightarrow>
          ((Reply (if list_ex (\<lambda>rt. fst (snd rt) = reqPath r) routes then 405 else 404) NoRouteBody, None), w))"

definition read_routes :: "env \<Rightarrow> config \<Rightarrow> string \<times> string \<times> string \<Rightarrow> route list" where
  "read_routes E cfg build =
     [(''GET'', ''/health'', handleHealth), (''GET'', ''/ready'', handleReady E),
      (''GET'', ''/status'', handleStatus E cfg build), (''GET'', ''/metrics'', handleMetrics E cfg)]"

definition control_routes :: "env \<Rightarrow> config \<Rightarrow> serve \<Rightarrow> route list" where
  "control_routes E cfg serve =
     [(''POST'', ''/api/promote'', handlePromote E cfg),
      (''POST'', ''/api/shutdown'', handleShutdown cfg serve),
      (''POST'', ''/api/rejoin'', handleRejoin serve),
      (''POST'', ''/api/switchover'', handleSwitchover E serve),
      (''POST'', ''/api/maintenance'', handleMaintenance E serve),
      (''POST'', ''/api/start'', handleStart serve),
      (''POST'', ''/api/reboot-notice'', handleRebootNotice cfg),
      (''POST'', ''/api/backup'', handleBackup E cfg)]"

definition guard_route :: "env \<Rightarrow> config \<Rightarrow> route \<Rightarrow> route" where
  "guard_route E cfg rt = (fst rt, fst (snd rt), requireHAAuth E cfg refusal (snd (snd rt)))"

text \<open>The listeners of \<open>startAPIServer\<close> and \<open>startMetricsServer\<close>.\<close>

definition api_server :: "env \<Rightarrow> config \<Rightarrow> string \<times> string \<times> string \<Rightarrow> serve \<Rightarrow> handler" where
  "api_server E cfg build serve =
     ServeHTTP (read_routes E cfg build @ map (guard_route E cfg) (control_routes E cfg serve))"

definition metrics_server :: "env \<Rightarrow> config \<Rightarrow> string \<times> string \<times> string \<Rightarrow> handler" where
  "metrics_server E cfg build = ServeHTTP (read_routes E cfg build)"

end
