(* ===== verification/History.thy ===== *)
theory History
  imports LoopProps
begin

text \<open>
  Every step of the main loop only adds to the history: the clock and the trace go forward, exits of
  processes and kills stay. So what held of the past at one point of a run still does at its end.
\<close>

lemma later_update [simp]:
  "later w (u\<lparr>restartAt := t\<rparr>) = later w u" "later w (u\<lparr>restartPending := b\<rparr>) = later w u"
  "later w (u\<lparr>met := m\<rparr>) = later w u" "later w (u\<lparr>crashTimestamps := ts\<rparr>) = later w u"
  "later w (u\<lparr>currentChild := c\<rparr>) = later w u" "later w (u\<lparr>postgresRunning := b\<rparr>) = later w u"
  "later w (u\<lparr>proc_exit := c'\<rparr>) = later w u"
  by (simp_all add: later_def)

lemma later_chain:
  "later w u \<Longrightarrow> later w (emit e u)"
  "later w u \<Longrightarrow> later w (exit_process code u)"
  "later w u \<Longrightarrow> later w (persistState E cfg u)"
  "later w u \<Longrightarrow> later w (forget_child u)"
  "later w u \<Longrightarrow> later w (watch_child p u)"
proof -
  assume u: "later w u"
  show "later w (emit e u)" by (rule later_trans [OF u later_emit])
  have "later w (emit (EvExit code) (u\<lparr>proc_exit := Some code\<rparr>))"
    by (rule later_trans [OF _ later_emit]) (simp add: u)
  then show "later w (exit_process code u)" using u by (simp add: exit_process_def)
  show "later w (persistState E cfg u)" by (rule later_trans [OF u off_childD(1)]) simp
  show "later w (forget_child u)" by (rule later_trans [OF u later_forget_child])
  show "later w (watch_child p u)" by (rule later_trans [OF u later_watch_child])
qed

lemma started_later: "start E cfg w = (r, w') \<Longrightarrow> later w w'"
  using later_start [of w E cfg] by simp

lemma later_startPostgres: "later w (startPostgres E cfg w)"
proof (cases rule: startPostgres_cases [of w E cfg])
  case left_stopped
  then show ?thesis by (rule off_childD(1))
next
  case (spawn_failed w2 w3 e)
  from later_trans [OF off_childD(1) [OF spawn_failed(1)] started_later [OF spawn_failed(2)]] show ?thesis
    by (simp add: spawn_failed(3) later_chain)
next
  case (started w1 w2 w3 p)
  from later_trans [OF off_childD(1) [OF started(3)] started_later [OF started(4)]] show ?thesis
    by (simp add: started(5) later_chain)
qed

lemma later_child_only: "f = (r, w') \<Longrightarrow> child_only w (snd f) \<Longrightarrow> later w w'"
  using child_onlyD(1) [of w w'] by simp

lemma later_request:
  assumes "handleHandoverRequest E cfg kind w = (r, w')"
  shows "later w w'"
  using assms
proof (cases rule: handleHandoverRequest_cases)
  case (stop s)
  have "stopper s" using stop(1) by (simp add: accounting_stopper_def)
  with stopper.request_answer [OF this stop(2)] show ?thesis by (blast dest: child_onlyD(1))
next
  case rejoin
  from rejoin(2) show ?thesis
  proof (cases rule: request_rejoin_cases)
    case (not_started e k w1)
    then show ?thesis using later_trans [OF off_childD(1) started_later] by blast
  next
    case (started p w1 w2)
    from later_trans [OF off_childD(1) [OF started(3)] started_later [OF started(4)]] show ?thesis
      by (simp add: started(5) later_chain)
  qed (auto dest: off_childD(1))
next
  case start
  from start(2) show ?thesis
    by (cases rule: request_start_cases) (simp_all add: later_startPostgres)
qed simp

lemma later_handleTerminationSignal:
  assumes "handleTerminationSignal E cfg sig w = (code, w')"
  shows "later w w'"
proof (cases "currentChild w")
  case None
  with assms show ?thesis by (simp add: handleTerminationSignal_def)
next
  case (Some p)
  have force: "later w (stop_or_force E cfg p sig res)" if "later w (snd res)" for res
  proof -
    obtain x v where res: "res = (x, v)" by (rule prod.exhaust)
    have "later v (snd (coordinateHandover E cfg p sig ''force'' v))"
      by (rule child_onlyD(1)) (rule child_only_coordinateHandover)
    with that res show ?thesis
      by (cases x) (simp_all add: stop_or_force_def later_chain later_trans)
  qed
  have "child_only w (snd (coordinateReboot E cfg p sig w))"
    using stopper.frame [OF reboot_stop.stopper_axioms prod.collapse [symmetric]] .
  note reboot = force [OF child_onlyD(1) [OF this]]
  note handover = force [OF child_onlyD(1) [OF child_only_coordinateHandover]]
  from assms Some reboot handover show ?thesis
    unfolding handleTerminationSignal_def by (simp only: option.case prod.inject split: if_splits) auto
qed

lemma later_handle_crash: "later w (handle_crash E cfg p code w)"
proof -
  have "later w (forget_child (emit (EvCrash p code) w))" by (simp add: later_chain)
  from later_trans [OF this off_childD(1) [OF noted_crash_off_child]]
  have n: "later w (noted_crash E cfg p code w)" .
  then show ?thesis
    by (cases rule: handle_crash_cases [of E cfg p code w]) (simp_all add: later_chain)
qed

lemma later_handle_restart: "later w (handle_restart E cfg w)"
proof (cases "currentChild w")
  case None
  from handle_restart_eq [OF this, of E cfg] obtain c u where
    u: "off_child (w\<lparr>restartAt := None, restartPending := False, met := c\<rparr>) u"
    and eq: "handle_restart E cfg w = (if currentChild (startPostgres E cfg u) = None
      then exit_process 1 (startPostgres E cfg u) else startPostgres E cfg u)" by blast
  have "later w (w\<lparr>restartAt := None, restartPending := False, met := c\<rparr>)" by simp
  from later_trans [OF later_trans [OF this off_childD(1) [OF u]] later_startPostgres [of u E cfg]]
  show ?thesis by (simp add: eq later_chain)
next
  case (Some p)
  then show ?thesis by (simp add: handle_restart_def Let_def later_chain)
qed

lemma later_loop_step:
  assumes "loop_step E cfg w w'"
  shows "later w w'"
  using assms
proof (cases rule: loop_step.cases)
  case other
  then show ?thesis by (simp add: background_def)
next
  case (signalled sig code v)
  then show ?thesis using later_handleTerminationSignal later_chain(2) by simp
next
  case (request kind r v)
  then show ?thesis using later_request later_chain(1) by simp
qed (simp_all add: later_handle_crash later_handle_restart later_chain)

lemma later_loop_steps: "rtranclp (loop_step E cfg) w w' \<Longrightarrow> later w w'"
  by (induction rule: rtranclp_induct) (auto intro: later_trans later_loop_step)

end
