(* ===== verification/ApiProps.thy ===== *)
theory ApiProps
  imports Api History
begin

text \<open>
  What the handlers of the API may do, whatever the main loop does meanwhile: who is let in, how a
  promotion is guarded, what an answer says, and that every request is one of the things the main
  loop's step relation allows for.
\<close>

section \<open>Work beside the main loop\<close>

lemma background_refl [simp]: "background w w"
  by (simp add: background_def)

lemma background_trans [trans]:
  assumes "background u v" and "background v w"
  shows "background u w"
  using assms later_trans [of u v w] same_child_trans [of u v w] by (simp add: background_def)

lemma background_off_child: "off_child w w' \<Longrightarrow> background w w'"
  by (simp add: background_def off_childD(1-6))

lemma background_observed: "only_observed w w' \<Longrightarrow> background w w'"
  by (rule background_off_child [OF off_child_observed])

text \<open>Fields the loop does not own.\<close>

lemma background_update [simp]:
  "background w (u\<lparr>backupInProgress := b\<rparr>) = background w u"
  "background w (u\<lparr>backup_entries := es\<rparr>) = background w u"
  "background w (u\<lparr>met := m\<rparr>) = background w u"
  "background w (u\<lparr>shutdownInProgress := b\<rparr>) = background w u"
  "background w (u\<lparr>switchoverInProgress := b\<rparr>) = background w u"
  "background w (u\<lparr>maintenanceActive := b\<rparr>) = background w u"
  "background w (u\<lparr>maintenanceWasPrimary := b\<rparr>) = background w u"
  "background w (u\<lparr>rebootSuppressUntil := t\<rparr>) = background w u"
  "background w (u\<lparr>failoverPromoteDeadline := t\<rparr>) = background w u"
  "background w (u\<lparr>lastPeerSeen := s\<rparr>) = background w u"
  "background w (u\<lparr>disk := f\<rparr>) = background w u"
  by (simp_all add: background_def later_def same_child_def)

lemma background_steps:
  "background w u \<Longrightarrow> background w (tick E u)"
  "background w u \<Longrightarrow> background w (emit e u)"
  "background w u \<Longrightarrow> background w (persistState E cfg u)"
  "background w u \<Longrightarrow> background w (snd (isInRecovery E u))"
  "background w u \<Longrightarrow> background w (snd (promote E u))"
  "background w u \<Longrightarrow> background w (snd (fetchPeerStatus E cfg u))"
  "background w u \<Longrightarrow> background w (ensureRoleAndDatabaseBlocking E cfg u)"
  by (erule background_trans, rule background_off_child, simp add: off_child_observed)+

lemma background_snd: "f = (r, w') \<Longrightarrow> background w (snd f) \<Longrightarrow> background w w'"
  by simp

lemma background_backup_tool:
  "background w u \<Longrightarrow> background w (snd (run_backup_tool E tool args u))"
  by (simp add: run_backup_tool_def Let_def split_beta background_steps)

lemma background_destination:
  "background w u \<Longrightarrow> background w (snd (backup_to_destination E cfg u))"
proof -
  assume b: "background w u"
  have dir: "background w (snd (runBackup E cfg u))"
    using b background_snd [OF _ background_backup_tool]
    by (auto simp: runBackup_def Let_def background_steps split: prod.splits sum.splits)
  have pipe: "background w (snd (runBackupPipe E cfg u))"
    using b by (simp add: runBackupPipe_def Let_def background_steps)
  from dir pipe show ?thesis
    by (auto simp: backup_to_destination_def split: prod.splits sum.splits)
qed

lemma background_prune: "background w u \<Longrightarrow> background w (snd (pruneOldBackups E cfg u))"
proof -
  assume b: "background w u"
  have r: "background w v \<Longrightarrow> background w (snd (remove_backups E ns v))" for ns v
    by (induction ns arbitrary: v) (simp_all add: Let_def background_steps)
  show ?thesis using b by (simp add: pruneOldBackups_def Let_def background_steps r)
qed

lemma background_performBackup: "background w (snd (performBackup E cfg w))"
proof -
  obtain r w1 where 1: "isInRecovery E w = (r, w1)" by (rule prod.exhaust)
  obtain x w2 where 2: "backup_to_destination E cfg w1 = (x, w2)" by (rule prod.exhaust)
  have b1: "background w w1" using background_steps(4) [OF background_refl, of w E] 1 by simp
  have b2: "background w w2" using background_destination [OF b1, of E cfg] 2 by simp
  show ?thesis
    using b1 b2
    by (auto simp: performBackup_def 1 2 Let_def recordBackupAttempt_def incrementBackupFailures_def
        incrementBackups_def recordBackupSuccess_def background_steps background_prune
        split: sum.splits bool.splits)
qed

lemma background_do_promote: "background w u \<Longrightarrow> background w (snd (do_promote E cfg u))"
  using background_steps(5) [of w u E]
  by (auto simp: do_promote_def record_promotion_def background_steps(7) split: prod.splits sum.splits)

lemma background_handlePromote: "background w (snd (handlePromote E cfg r w))"
proof -
  have "background w (snd (peer_is_primary E cfg w))"
    using background_steps(6) [OF background_refl, of w E cfg]
    by (auto simp: peer_is_primary_def split: prod.splits sum.splits)
  then show ?thesis
    using background_do_promote [of w w] background_do_promote
    by (auto simp: handlePromote_def Let_def split: prod.splits)
qed

lemma background_handleBackup: "background w (snd (handleBackup E cfg r w))"
  using background_performBackup [of w E cfg] by (auto simp: handleBackup_def split: prod.splits sum.splits)

lemma background_note_role: "background w u \<Longrightarrow> background w (note_role E u)"
  using background_steps(4) [of w u E] by (auto simp: note_role_def split: prod.splits sum.splits)

section \<open>Reading changes nothing\<close>

lemma observed_snd: "f = (r, w') \<Longrightarrow> only_observed w (snd f) \<Longrightarrow> only_observed w w'"
  by simp

lemma observed_add_role: "only_observed w (snd (add_role E s w))"
proof -
  obtain r w1 where 1: "isInRecovery E w = (r, w1)" by (rule prod.exhaust)
  have o: "only_observed w w1" using only_observed_peer(5) [of w E] 1 by simp
  have "only_observed w (snd (replicationLagBytes E b w1))" for b
    using only_observed_trans [OF o observed_replication(2)] .
  with o show ?thesis
    by (auto simp: add_role_def 1 Let_def split: sum.splits prod.splits dest: observed_snd)
qed

lemma observed_status_report: "only_observed w (snd (status_report E cfg build w))"
proof -
  obtain p w1 where 1: "checkPeerReachable E cfg w = (p, w1)" by (rule prod.exhaust)
  obtain s w3 where 3: "add_role E ((process_status cfg build p w1)\<lparr>postgres_reachable := True\<rparr>) (tick E w1) = (s, w3)"
    by (rule prod.exhaust)
  have o: "only_observed w w1" "only_observed (tick E w1) w3"
    using only_observed_peer(1) [of w E cfg] 1 observed_add_role [of "tick E w1" E] 3 by simp_all (metis snd_conv)
  have t: "only_observed w (tick E w1)" by (rule only_observed_trans [OF o(1) only_observed_tick])
  have "only_observed w (snd (add_version E s w3))"
    using only_observed_trans [OF only_observed_trans [OF t o(2)] observed_queries(3)]
    by (simp add: add_version_def Let_def split_beta)
  with t show ?thesis by (simp add: status_report_def 1 3 Ping_def Let_def)
qed

lemma observed_collectMetrics: "only_observed w (snd (collectMetrics E cfg w))"
  by (metis collectMetrics_split prod.collapse)

lemma observed_read:
  assumes "rt \<in> set (read_routes E cfg build)" and "snd (snd rt) r w = (a, w')"
  shows "only_observed w w' \<and> snd a = None"
proof -
  have "only_observed w (snd (h r w)) \<and> snd (fst (h r w)) = None"
    if "h \<in> {handleHealth, handleReady E, handleStatus E cfg build, handleMetrics E cfg}" for h
    using that observed_status_report [of w E cfg build] observed_collectMetrics [of w E cfg]
      observed_queries(1) [of w E]
    by (auto simp: handleHealth_def handleReady_def handleStatus_def handleMetrics_def ok_reply_def Let_def
        split_beta)
  moreover have "snd (snd rt) \<in> {handleHealth, handleReady E, handleStatus E cfg build, handleMetrics E cfg}"
    using assms(1) by (auto simp: read_routes_def)
  ultimately show ?thesis using assms(2) by fastforce
qed

text \<open>What a request can reach.\<close>

lemma ServeHTTP_cases:
  assumes "ServeHTTP routes r w = (a, w')"
  obtains (route) rt where "rt \<in> set routes" "takes r rt" "snd (snd rt) r w = (a, w')"
  | (none) code where "\<forall>rt \<in> set routes. \<not> takes r rt" "a = (Reply code NoRouteBody, None)" "w' = w"
proof (cases "find (takes r) routes")
  case None
  with assms show thesis by (intro none) (auto simp: ServeHTTP_def find_None_iff)
next
  case (Some rt)
  then have "rt \<in> set routes" "takes r rt" by (auto simp: find_Some_iff)
  with Some assms show thesis by (intro route) (auto simp: ServeHTTP_def split: prod.splits)
qed

section \<open>The channel to the main loop\<close>

text \<open>
  Sending a request to the loop and waiting for its answer: the loop may first do other steps, then
  handles the request, and may go on before the handler reads the answer.
\<close>

locale handover_channel =
  fixes E :: env and cfg :: config and serve :: serve
  assumes answered: "proc_exit w = None \<Longrightarrow> serve kind w = (r, w') \<Longrightarrow>
    \<exists>u v. rtranclp (loop_step E cfg) w u \<and> proc_exit u = None \<and> handleHandoverRequest E cfg kind u = (r, v) \<and>
      rtranclp (loop_step E cfg) (emit (EvReply kind r) v) w'"
begin

lemma serve_runs:
  assumes "proc_exit w = None" and "serve kind w = (r, w')"
  shows "rtranclp (loop_step E cfg) w w'"
proof -
  from answered [OF assms] obtain u v where u: "rtranclp (loop_step E cfg) w u"
    "loop_step E cfg u (emit (EvReply kind r) v)" "rtranclp (loop_step E cfg) (emit (EvReply kind r) v) w'"
    using loop_step.request by blast
  then show ?thesis by (meson rtranclp.rtrancl_into_rtrancl rtranclp_trans)
qed

lemma around:
  assumes "proc_exit w = None" and "background w u" and "serve kind u = (r, v)"
    and "background v w'" and "proc_exit w' = None"
  shows "rtranclp (loop_step E cfg) w w'"
proof -
  have "loop_step E cfg w u" by (rule loop_step.other [OF assms(1,2)])
  moreover have "rtranclp (loop_step E cfg) u v"
    using assms(1,2) by (intro serve_runs [OF _ assms(3)]) (simp add: background_def)
  moreover have "loop_step E cfg v w'"
    using assms(4,5) by (intro loop_step.other) (simp_all add: background_def)
  ultimately show ?thesis
    by (meson converse_rtranclp_into_rtranclp rtranclp.rtrancl_into_rtrancl)
qed

lemma beside:
  assumes "proc_exit w = None" and "background w w'"
  shows "rtranclp (loop_step E cfg) w w'"
  using loop_step.other [OF assms] by blast

text \<open>Where a handler calls \<open>serve\<close>, and what it does around it.\<close>

lemma serving_handlers:
  assumes "h \<in> {handleShutdown cfg serve, handleMaintenance E serve, handleSwitchover E serve,
      handleRejoin serve, handleStart serve}"
    and "h r w = (a, w')"
  shows "background w w' \<or>
    (\<exists>u kind x v. background w u \<and> serve kind u = (x, v) \<and> background v w')"
proof -
  obtain q w1 where q: "isInRecovery E w = (q, w1)" by (rule prod.exhaust)
  have b1: "background w w1" using background_steps(4) [OF background_refl, of w E] q by simp
  have nr: "background w (note_role E (w\<lparr>shutdownInProgress := True\<rparr>))"
    by (rule background_note_role) simp
  have fin: "background v (v\<lparr>shutdownInProgress := b\<rparr>)" "background v (v\<lparr>maintenanceActive := b\<rparr>)"
    "background v (v\<lparr>switchoverInProgress := b\<rparr>)"
    "background v (v\<lparr>maintenanceActive := b, shutdownInProgress := b'\<rparr>)" for v b b'
    by simp_all
  from assms(1) consider "h = handleShutdown cfg serve" | "h = handleMaintenance E serve"
    | "h = handleSwitchover E serve" | "h = handleRejoin serve \<or> h = handleStart serve" by auto
  then show ?thesis
  proof cases
    case 1
    define k where "k = (if ShutdownMode cfg = ''reboot'' then ''reboot'' else ''shutdown'')"
    obtain x v where s: "serve k (w\<lparr>shutdownInProgress := True\<rparr>) = (x, v)" by (rule prod.exhaust)
    have "w' = v\<lparr>shutdownInProgress := False\<rparr>"
      using assms(2) s by (auto simp: 1 handleShutdown_def k_def Let_def split: sum.splits)
    moreover have "background w (w\<lparr>shutdownInProgress := True\<rparr>)" by simp
    ultimately show ?thesis using s fin(1) by blast
  next
    case 2
    obtain x v where s: "serve ''maintenance'' (note_role E (w\<lparr>shutdownInProgress := True\<rparr>)) = (x, v)"
      by (rule prod.exhaust)
    have "w' = v\<lparr>shutdownInProgress := False\<rparr> \<or> w' = v\<lparr>maintenanceActive := True, shutdownInProgress := False\<rparr>"
      using assms(2) s by (auto simp: 2 handleMaintenance_def Let_def split: sum.splits)
    then show ?thesis using nr s fin(1,4) by blast
  next
    case 3
    obtain x v where s: "serve ''switchover'' (w1\<lparr>switchoverInProgress := True\<rparr>) = (x, v)" by (rule prod.exhaust)
    have "w' = w \<or> w' = w1 \<or> w' = v\<lparr>switchoverInProgress := False\<rparr>"
      using assms(2) s by (auto simp: 3 handleSwitchover_def q Let_def split: sum.splits if_splits bool.splits)
    moreover have "background w (w1\<lparr>switchoverInProgress := True\<rparr>)" using b1 by simp
    ultimately show ?thesis using b1 s fin(3) by (elim disjE) (simp, simp, blast)
  next
    case 4
    then obtain kind where "\<exists>x v. serve kind w = (x, v) \<and> (w' = v \<or> w' = v\<lparr>maintenanceActive := False\<rparr>)"
    proof
      assume "h = handleRejoin serve"
      with assms(2) show ?thesis
        by (intro that [of "''rejoin''"]) (auto simp: handleRejoin_def split: prod.splits sum.splits)
    next
      assume "h = handleStart serve"
      with assms(2) show ?thesis
        by (intro that [of "''start''"]) (auto simp: handleStart_def split: prod.splits sum.splits)
    qed
    then obtain x v where "serve kind w = (x, v)" "background v w'" using fin(2) by auto
    then show ?thesis using background_refl by blast
  qed
qed

lemma control_runs:
  assumes "rt \<in> set (control_routes E cfg serve)" and "snd (snd rt) r w = (a, w')"
    and "proc_exit w = None" and "proc_exit w' = None"
  shows "rtranclp (loop_step E cfg) w w'"
proof -
  from assms(1) consider "snd (snd rt) \<in> {handleShutdown cfg serve, handleMaintenance E serve,
      handleSwitchover E serve, handleRejoin serve, handleStart serve}"
    | "snd (snd rt) \<in> {handlePromote E cfg, handleRebootNotice cfg, handleBackup E cfg}"
    by (auto simp: control_routes_def)
  then show ?thesis
  proof cases
    case 1
    from serving_handlers [OF 1 assms(2)] show ?thesis
      using beside [OF assms(3)] around [OF assms(3) _ _ _ assms(4)] by blast
  next
    case 2
    have "background w (snd (h r w))" if "h \<in> {handlePromote E cfg, handleRebootNotice cfg, handleBackup E cfg}" for h
      using that background_handlePromote [of w E cfg r] background_handleBackup [of w E cfg r]
      by (auto simp: handleRebootNotice_def Let_def)
    from this [OF 2] assms(2) show ?thesis by (intro beside [OF assms(3)]) simp
  qed
qed

end

text \<open>The loop itself provides it: here with nothing else happening before or after.\<close>

definition serve_now :: "env \<Rightarrow> config \<Rightarrow> serve" where
  "serve_now E cfg kind w =
     (let (r, v) = handleHandoverRequest E cfg kind w in (r, emit (EvReply kind r) v))"

interpretation loop_serves: handover_channel E cfg "serve_now E cfg" for E cfg
proof
  fix w kind r w'
  assume "proc_exit w = None" and "serve_now E cfg kind w = (r, w')"
  then obtain v where "handleHandoverRequest E cfg kind w = (r, v)" "w' = emit (EvReply kind r) v"
    by (auto simp: serve_now_def Let_def split: prod.splits)
  with \<open>proc_exit w = None\<close> show "\<exists>u v. rtranclp (loop_step E cfg) w u \<and> proc_exit u = None \<and>
      handleHandoverRequest E cfg kind u = (r, v) \<and> rtranclp (loop_step E cfg) (emit (EvReply kind r) v) w'"
    by blast
qed

section \<open>What a stop has done\<close>

lemma stop_request_ok:
  assumes "reachable E cfg u" and "handleHandoverRequest E cfg kind u = (Inr (), v)"
    and "kind \<notin> {''start'', ''rejoin''}"
  shows "\<exists>p. currentChild u = Some p \<and> cleared v \<and> gone v p"
  using assms(2)
proof (cases rule: handleHandoverRequest_cases)
  case (stop s)
  have st: "stopper s" using stop(1) by (simp add: accounting_stopper_def)
  from stopper.request_answer [OF st stop(2)] obtain p where
    p: "currentChild u = Some p" "cleared v" by auto
  moreover have "sup_proc u = Some p"
    using main_inv_reachable [OF assms(1)] p(1) by (simp add: main_inv_def)
  ultimately show ?thesis
    using accounting_stopper.request_accounts [OF stop(1,2)] by (fastforce simp: cleared_def)
qed (use assms(3) in auto)

context handover_channel
begin

lemma stopped_by_loop:
  assumes "reachable E cfg w" and "proc_exit w = None" and "background w w0"
    and "serve kind w0 = (Inr (), w1)" and "kind \<notin> {''start'', ''rejoin''}"
  shows "\<exists>u v p. reachable E cfg u \<and> handleHandoverRequest E cfg kind u = (Inr (), v) \<and>
    currentChild u = Some p \<and> cleared v \<and> gone v p \<and> later w u \<and> later v w1"
proof -
  have r0: "reachable E cfg w0" "proc_exit w0 = None"
    using reachable.step [OF assms(1) loop_step.other [OF assms(2,3)]] assms(2,3)
    by (simp_all add: background_def)
  from answered [OF r0(2) assms(4)] obtain u v where
    u: "rtranclp (loop_step E cfg) w0 u" "handleHandoverRequest E cfg kind u = (Inr (), v)"
      "rtranclp (loop_step E cfg) (emit (EvReply kind (Inr ())) v) w1" by blast
  have reach: "rtranclp (loop_step E cfg) a b \<Longrightarrow> reachable E cfg a \<Longrightarrow> reachable E cfg b" for a b
    by (induction rule: rtranclp_induct) (auto intro: reachable.step)
  from stop_request_ok [OF reach [OF u(1) r0(1)] u(2) assms(5)] obtain p where
    p: "currentChild u = Some p" "cleared v" "gone v p" by blast
  have "later w w0" using assms(3) by (simp add: background_def)
  from later_trans [OF this later_loop_steps [OF u(1)]]
    later_trans [OF later_emit later_loop_steps [OF u(3)]] p gone_later
  show ?thesis using reach [OF u(1) r0(1)] u(2) by blast
qed

end

section \<open>What a promotion does\<close>

lemma do_promote_effect:
  assumes "do_promote E cfg u = ((rep, ex), w')"
  obtains pr sql where "trace w' = trace u @ EvLocalPromote pr # sql" "\<forall>e \<in> set sql. \<exists>s. e = EvSQL s"
    "status_code rep = (if pr = Some True then 200 else 500)" "ex = None"
    "promotionsCounter (met w') = promotionsCounter (met u) + (if pr = Some True then 1 else 0)"
proof -
  obtain x u1 where p: "promote E u = (x, u1)" by (rule prod.exhaust)
  define pr where "pr = promote_reply E (calls u)"
  have u1: "trace u1 = trace u @ [EvLocalPromote pr]" "met u1 = met u"
    and x: "is_ok x \<longleftrightarrow> pr = Some True"
    using p by (auto simp: promote_def Let_def pr_def split: option.splits if_splits)
  define v where "v = record_promotion (now u) u1"
  show thesis
  proof (cases x)
    case (Inl e)
    with assms p u1 x show thesis
      by (intro that [of pr "[]"]) (auto simp: do_promote_def refusal_def)
  next
    case (Inr y)
    then have ok: "pr = Some True" using x by simp
    have w': "w' = ensureRoleAndDatabaseBlocking E cfg v" "ex = None" "status_code rep = 200"
      using assms p Inr by (auto simp: do_promote_def v_def ok_reply_def split: prod.splits)
    from sql_upkeep.ensureRoleAndDatabaseBlocking [of v E cfg] obtain sql where
      "trace w' = trace v @ sql" "\<forall>e \<in> set sql. \<exists>s. e = EvSQL s"
      by (auto simp: only_sql_def adds_def w'(1))
    moreover have "met w' = met v" unfolding w'(1) by (rule metrics_upkeep.ensureRoleAndDatabaseBlocking)
    ultimately show thesis using u1 ok w'
      by (intro that [of pr sql]) (simp_all add: v_def record_promotion_def)
  qed
qed

section \<open>Properties\<close>

definition control_paths :: "string list" where
  "control_paths = [''/api/promote'', ''/api/shutdown'', ''/api/rejoin'', ''/api/switchover'',
     ''/api/maintenance'', ''/api/start'', ''/api/reboot-notice'', ''/api/backup'']"

definition authorised :: "env \<Rightarrow> config \<Rightarrow> request \<Rightarrow> world \<Rightarrow> bool" where
  "authorised E cfg r w \<longleftrightarrow> holds_token cfg r \<and> comes_from_peer E cfg r (calls w)"

lemma api_server_cases:
  assumes "api_server E cfg build serve r w = (a, w')"
  obtains (harmless) "only_observed w w'" "snd a = None" "reqMethod r = ''POST'' \<longrightarrow> reqPath r \<notin> set control_paths"
  | (refused) e where "only_observed w w'" "reqMethod r = ''POST''" "reqPath r \<in> set control_paths"
      "\<not> authorised E cfg r w" "a = refusal (if holds_token cfg r then 403 else 401) e"
  | (ran) rt v where "rt \<in> set (control_routes E cfg serve)" "fst (snd rt) = reqPath r"
      "reqMethod r = ''POST''" "authorised E cfg r w" "only_observed w v" "snd (snd rt) r v = (a, w')"
proof -
  have paths: "set control_paths = (\<lambda>rt. fst (snd rt)) ` set (control_routes E cfg serve)"
    by (simp add: control_paths_def control_routes_def)
  have post: "\<forall>rt \<in> set (control_routes E cfg serve). fst rt = ''POST''" by (simp add: control_routes_def)
  have get: "\<forall>rt \<in> set (read_routes E cfg build). fst rt = ''GET''" by (simp add: read_routes_def)
  from assms [unfolded api_server_def] show thesis
  proof (cases rule: ServeHTTP_cases)
    case (none code)
    have "reqPath r \<notin> set control_paths" if post_r: "reqMethod r = ''POST''"
    proof
      assume "reqPath r \<in> set control_paths"
      then obtain rt where rt: "rt \<in> set (control_routes E cfg serve)" "fst (snd rt) = reqPath r"
        unfolding paths image_iff by (elim bexE) (rule that, simp_all)
      with post post_r have "takes r (guard_route E cfg rt)" by (simp add: takes_def guard_route_def)
      with none(1) rt(1) show False by simp
    qed
    with none(2,3) show thesis by (intro harmless) auto
  next
    case (route rt)
    show thesis
    proof (cases "rt \<in> set (read_routes E cfg build)")
      case True
      with observed_read [OF True route(3)] get route(2) show thesis
        by (intro harmless) (auto simp: takes_def)
    next
      case False
      with route(1) obtain rt' where rt': "rt' \<in> set (control_routes E cfg serve)" "rt = guard_route E cfg rt'"
        by auto
      have m: "reqMethod r = ''POST''" "fst (snd rt') = reqPath r"
        using route(2) post rt' by (auto simp: takes_def guard_route_def)
      then have p: "reqPath r \<in> set control_paths"
        using imageI [OF rt'(1), of "\<lambda>rt. fst (snd rt)"] by (simp add: paths)
      have run: "requireHAAuth E cfg refusal (snd (snd rt')) r w = (a, w')"
        using route(3) by (simp add: rt'(2) guard_route_def)
      show thesis
      proof (cases rule: requireHAAuth_cases [of cfg r E refusal "snd (snd rt')" w])
        case (no_token e)
        with run m p show thesis by (intro refused [of e]) (auto simp: authorised_def)
      next
        case (no_peer e)
        with run m p show thesis by (intro refused [of e]) (auto simp: authorised_def)
      next
        case authorised
        with run m rt' show thesis
          by (intro ran [of rt' "snd (checkPeerOrigin E cfg r w)"]) (auto simp: authorised_def)
      qed
    qed
  qed
qed

text \<open>
  C26. Only an authorised \<open>POST\<close> to one of the eight control paths can change anything but what an
  observation changes, or ask the process to exit: the caller holds the token, when one is set, and
  comes from the peer, when that is verified. A caller of a control path who does not is answered
  401 or 403. The listener for metrics changes nothing at all.
\<close>

theorem control_needs_authorisation:
  assumes "api_server E cfg build serve r w = ((rep, ex), w')"
  shows "(only_observed w w' \<and> ex = None \<or>
      reqMethod r = ''POST'' \<and> reqPath r \<in> set control_paths \<and> authorised E cfg r w) \<and>
    (reqMethod r = ''POST'' \<and> reqPath r \<in> set control_paths \<and> \<not> authorised E cfg r w \<longrightarrow>
      status_code rep = (if holds_token cfg r then 403 else 401)) \<and>
    only_observed w (snd (metrics_server E cfg build r w)) \<and> snd (fst (metrics_server E cfg build r w)) = None"
proof -
  obtain b v where ms: "metrics_server E cfg build r w = (b, v)" by (rule prod.exhaust)
  have "only_observed w v \<and> snd b = None"
    using ms [unfolded metrics_server_def] observed_read [of _ E cfg build r w b v]
    by (cases rule: ServeHTTP_cases) auto
  moreover from assms have "(only_observed w w' \<and> ex = None \<or>
      reqMethod r = ''POST'' \<and> reqPath r \<in> set control_paths \<and> authorised E cfg r w) \<and>
    (reqMethod r = ''POST'' \<and> reqPath r \<in> set control_paths \<and> \<not> authorised E cfg r w \<longrightarrow>
      status_code rep = (if holds_token cfg r then 403 else 401))"
  proof (cases rule: api_server_cases)
    case (refused e)
    then show ?thesis by (simp add: refusal_def)
  next
    case (ran rt v)
    then have "reqPath r \<in> set control_paths" by (auto simp: control_routes_def control_paths_def)
    with ran show ?thesis by simp
  qed auto
  ultimately show ?thesis using ms by simp
qed

text \<open>
  C27. A request to the API is one of the things the main loop's step relation allows for: as long as
  the process lives, the world it leaves is reached by steps of the loop, so every invariant of the
  loop holds across it, and after it.
\<close>

theorem api_runs_inside_loop:
  assumes "handover_channel E cfg serve" and "reachable E cfg w" and "proc_exit w = None"
    and "api_server E cfg build serve r w = (a, w')" and "proc_exit w' = None"
  shows "rtranclp (loop_step E cfg) w w' \<and> loop_inv cfg w'"
proof -
  note beside = loop_step.other [OF assms(3) background_observed]
  from assms(4) have run: "rtranclp (loop_step E cfg) w w'"
  proof (cases rule: api_server_cases)
    case harmless
    with beside show ?thesis by blast
  next
    case (refused e)
    with beside show ?thesis by blast
  next
    case (ran rt v)
    have "proc_exit v = None" using only_observedD(8) [OF ran(5)] assms(3) by simp
    from handover_channel.control_runs [OF assms(1) ran(1,6) this assms(5)] beside [OF ran(5)]
    show ?thesis by (meson converse_rtranclp_into_rtranclp)
  qed
  then have "reachable E cfg w'" using assms(2)
    by (induction rule: rtranclp_induct) (auto intro: reachable.step)
  with run assms(5) loop_inv_reachable show ?thesis by blast
qed

section \<open>Examples\<close>

definition api_config :: config where
  "api_config = demo_config\<lparr>APIToken := ''t0ken'', PeerVerify := ''ip''\<rparr>"

definition build_unknown :: "string \<times> string \<times> string" where
  "build_unknown = (''dev'', ''unknown'', ''unknown'')"

text \<open>Where \<open>requestPeerPromote\<close> and \<open>notifyPeerReboot\<close> of the node \<open>cfg\<close> arrive, called from \<open>addr\<close>.\<close>

definition promote_request :: "config \<Rightarrow> string \<Rightarrow> request" where
  "promote_request cfg addr = \<lparr>reqMethod = ''POST'', reqPath = ''/api/promote'', forceParam = ''true'',
     authHeader = authorization cfg, RemoteAddr = addr\<rparr>"

definition notice_request :: "config \<Rightarrow> string \<Rightarrow> request" where
  "notice_request cfg addr = \<lparr>reqMethod = ''POST'', reqPath = ''/api/reboot-notice'', forceParam = [],
     authHeader = authorization cfg, RemoteAddr = addr\<rparr>"

theorem control_needs_authorisation_witness:
  "status_code (fst (fst (api_server calm api_config build_unknown (serve_now calm api_config)
     (promote_request demo_config ''10.0.0.2:40000'') (running_world 0 Map.empty)))) = 401"
proof -
  have "\<not> holds_token api_config (promote_request demo_config ''10.0.0.2:40000'')"
    by (simp add: holds_token_def promote_request_def api_config_def evals)
  moreover from control_needs_authorisation [of calm api_config build_unknown "serve_now calm api_config"
      "promote_request demo_config ''10.0.0.2:40000''" "running_world 0 Map.empty"]
  have "reqMethod (promote_request demo_config ''10.0.0.2:40000'') = ''POST'' \<and>
      reqPath (promote_request demo_config ''10.0.0.2:40000'') \<in> set control_paths \<and>
      \<not> authorised calm api_config (promote_request demo_config ''10.0.0.2:40000'') (running_world 0 Map.empty) \<longrightarrow>
    status_code (fst (fst (api_server calm api_config build_unknown (serve_now calm api_config)
     (promote_request demo_config ''10.0.0.2:40000'') (running_world 0 Map.empty)))) =
      (if holds_token api_config (promote_request demo_config ''10.0.0.2:40000'') then 403 else 401)"
    by (metis prod.collapse)
  ultimately show ?thesis by (simp add: promote_request_def control_paths_def authorised_def)
qed

lemma do_promote_fresh:
  assumes "do_promote E cfg u = ((rep, ex), w')" and "trace u = trace w @ as" and "met u = met w"
  shows "\<exists>pr sql. fresh_events w w' = as @ [EvLocalPromote pr] @ sql \<and> (\<forall>e \<in> set sql. \<exists>s. e = EvSQL s) \<and>
    ex = None \<and> status_code rep = (if pr = Some True then 200 else 500) \<and>
    promotionsCounter (met w') = promotionsCounter (met w) + (if status_code rep = 200 then 1 else 0)"
proof -
  from do_promote_effect [OF assms(1)] obtain pr sql where
    "trace w' = trace u @ EvLocalPromote pr # sql" "\<forall>e \<in> set sql. \<exists>s. e = EvSQL s"
    "status_code rep = (if pr = Some True then 200 else 500)" "ex = None"
    "promotionsCounter (met w') = promotionsCounter (met u) + (if pr = Some True then 1 else 0)" .
  with assms(2,3) show ?thesis
    by (intro exI [of _ pr] exI [of _ sql]) (simp add: fresh_events_def)
qed

text \<open>
  C28. A promotion without \<open>force\<close> is guarded against two primaries: the local server is asked to
  promote itself only right after the peer failed to answer or reported another role than primary,
  and a peer that is primary makes the answer 409 with nothing done. The answer is 200 exactly when
  the server said it was promoted, and exactly then one more promotion is counted.
\<close>

theorem promotion_is_guarded:
  assumes "handlePromote E cfg r w = ((rep, ex), w')"
  shows "\<exists>asked promoted sql. fresh_events w w' = asked @ promoted @ sql \<and>
    (\<forall>e \<in> set sql. \<exists>s. e = EvSQL s) \<and> ex = None \<and>
    (forceParam r = ''true'' \<or> PeerHost cfg = [] \<longrightarrow> asked = []) \<and>
    (forceParam r \<noteq> ''true'' \<and> PeerHost cfg \<noteq> [] \<longrightarrow> (\<exists>reply. asked = [EvStatus reply] \<and>
       (promoted = [] \<longleftrightarrow> reported_role reply = Inr ''primary''))) \<and>
    (promoted = [] \<longrightarrow> status_code rep = 409 \<and> only_observed w w') \<and>
    (promoted \<noteq> [] \<longrightarrow> (\<exists>pr. promoted = [EvLocalPromote pr] \<and>
       status_code rep = (if pr = Some True then 200 else 500))) \<and>
    promotionsCounter (met w') = promotionsCounter (met w) + (if status_code rep = 200 then 1 else 0)"
proof -
  obtain x w1 where f: "fetchPeerStatus E cfg w = (x, w1)" by (rule prod.exhaust)
  have o: "only_observed w w1" using only_observed_peer(2) [of w E cfg] f by simp
  define asked where "asked = (if PeerHost cfg = [] then [] else [EvStatus (status_reply E (calls w))])"
  have t1: "trace w1 = trace w @ asked" using fetchPeerStatus_trace [of E cfg w] f by (simp add: asked_def)
  have x: "PeerHost cfg \<noteq> [] \<Longrightarrow> x = reported_role (status_reply E (calls w))" "PeerHost cfg = [] \<Longrightarrow> \<not> is_ok x"
    using f by (auto simp: fetchPeerStatus_def Let_def)
  note promoted = do_promote_fresh [of E cfg _ rep ex w' w]
  show ?thesis
  proof (cases "forceParam r = ''true''")
    case True
    with assms have "do_promote E cfg w = ((rep, ex), w')" by (simp add: handlePromote_def)
    from promoted [OF this, of "[]"] True obtain pr sql where "fresh_events w w' = [EvLocalPromote pr] @ sql"
      "\<forall>e \<in> set sql. \<exists>s. e = EvSQL s" "ex = None" "status_code rep = (if pr = Some True then 200 else 500)"
      "promotionsCounter (met w') = promotionsCounter (met w) + (if status_code rep = 200 then 1 else 0)"
      by auto
    with True show ?thesis
      by (intro exI [of _ "[]"] exI [of _ "[EvLocalPromote pr]"] exI [of _ sql]) simp
  next
    case False
    show ?thesis
    proof (cases "x = Inr ''primary''")
      case True
      then have peer: "PeerHost cfg \<noteq> []" using x(2) by auto
      from True assms False f have r: "w' = w1" "ex = None" "status_code rep = 409"
        by (auto simp: handlePromote_def peer_is_primary_def refusal_def)
      have "fresh_events w w' = asked" using t1 by (simp add: r fresh_events_def)
      with r o x(1) [OF peer] True False peer only_observedD(4) [OF o] show ?thesis
        by (intro exI [of _ asked] exI [of _ "[]"] exI [of _ "[]"]) (simp add: asked_def)
    next
      case other: False
      then have "do_promote E cfg w1 = ((rep, ex), w')"
        using assms False f by (auto simp: handlePromote_def peer_is_primary_def split: sum.splits)
      from promoted [OF this t1 only_observedD(4) [OF o]] obtain pr sql where
        e: "fresh_events w w' = asked @ [EvLocalPromote pr] @ sql"
        "\<forall>e \<in> set sql. \<exists>s. e = EvSQL s" "ex = None" "status_code rep = (if pr = Some True then 200 else 500)"
        "promotionsCounter (met w') = promotionsCounter (met w) + (if status_code rep = 200 then 1 else 0)"
        by blast
      from other x(1) have "PeerHost cfg \<noteq> [] \<Longrightarrow> reported_role (status_reply E (calls w)) \<noteq> Inr ''primary''" by auto
      with e False show ?thesis
        by (intro exI [of _ asked] exI [of _ "[EvLocalPromote pr]"] exI [of _ sql]) (simp add: asked_def)
    qed
  qed
qed

text \<open>Between two worlds a server was recorded, then none, and that server is gone.\<close>

definition stopped_between :: "world \<Rightarrow> world \<Rightarrow> bool" where
  "stopped_between w w' \<longleftrightarrow> (\<exists>u v p. later w u \<and> currentChild u = Some p \<and>
     cleared v \<and> gone v p \<and> later v w' \<and> gone w' p)"

lemma stopped_by_request:
  assumes "handover_channel E cfg serve" and "reachable E cfg w" and "proc_exit w = None"
    and "background w w0" and "serve kind w0 = (Inr (), w1)" and "kind \<notin> {''start'', ''rejoin''}"
    and "later w1 w'"
  shows "stopped_between w w'"
  using handover_channel.stopped_by_loop [OF assms(1-6)] assms(7) later_trans gone_later
  unfolding stopped_between_def by blast

lemma handleShutdown_stops:
  assumes "handover_channel E cfg serve" and "reachable E cfg w" and "proc_exit w = None"
    and "handleShutdown cfg serve r w = ((rep, ex), w')"
  shows "(status_code rep = 200 \<longrightarrow> stopped_between w w') \<and>
    ex = (if status_code rep = 200 then Some (if ShutdownMode cfg = ''reboot'' then 78 else 0) else None)"
proof -
  define k where "k = (if ShutdownMode cfg = ''reboot'' then ''reboot'' else ''shutdown'')"
  define w0 where "w0 = w\<lparr>shutdownInProgress := True\<rparr>"
  obtain x w1 where s: "serve k w0 = (x, w1)" by (rule prod.exhaust)
  have w': "w' = w1\<lparr>shutdownInProgress := False\<rparr>" "status_code rep = (if is_ok x then 200 else 409)"
    "ex = (if is_ok x then Some (if ShutdownMode cfg = ''reboot'' then 78 else 0) else None)"
    using assms(4) s by (auto simp: handleShutdown_def k_def w0_def Let_def refusal_def ok_reply_def
        exitCodeSwitchoverRestart_def split: sum.splits)
  have "background w w0" "k \<notin> {''start'', ''rejoin''}" by (simp_all add: w0_def k_def)
  note stop = stopped_by_request [OF assms(1-3) this(1) _ this(2), of w1 w']
  have "later w1 w'" by (simp add: w'(1) later_def)
  with stop s w' show ?thesis by (cases x) simp_all
qed

lemma handleMaintenance_stops:
  assumes "handover_channel E cfg serve" and "reachable E cfg w" and "proc_exit w = None"
    and "handleMaintenance E serve r w = ((rep, ex), w')"
  shows "(status_code rep = 200 \<longrightarrow> stopped_between w w' \<and> maintenanceActive w') \<and> ex = None"
proof -
  define w0 where "w0 = note_role E (w\<lparr>shutdownInProgress := True\<rparr>)"
  obtain x w1 where s: "serve ''maintenance'' w0 = (x, w1)" by (rule prod.exhaust)
  have b: "background w w0" unfolding w0_def by (rule background_note_role) simp
  show ?thesis
  proof (cases x)
    case (Inl e)
    with assms(4) s show ?thesis by (auto simp: handleMaintenance_def w0_def Let_def refusal_def)
  next
    case (Inr y)
    then have w': "w' = w1\<lparr>maintenanceActive := True, shutdownInProgress := False\<rparr>" "ex = None"
      using assms(4) s by (auto simp: handleMaintenance_def w0_def Let_def ok_reply_def)
    have "later w1 w'" by (simp add: w'(1) later_def)
    with stopped_by_request [OF assms(1-3) b, of "''maintenance''" w1 w'] s Inr w' show ?thesis by simp
  qed
qed

lemma handleSwitchover_stops:
  assumes "handover_channel E cfg serve" and "reachable E cfg w" and "proc_exit w = None"
    and "handleSwitchover E serve r w = ((rep, ex), w')"
  shows "(status_code rep = 200 \<longrightarrow> stopped_between w w' \<and> recovery_reply E (calls w) = Some False) \<and>
    ex = (if status_code rep = 200 then Some 78 else None)"
proof -
  obtain q w1 where q: "isInRecovery E w = (q, w1)" by (rule prod.exhaust)
  define w0 where "w0 = w1\<lparr>switchoverInProgress := True\<rparr>"
  have b: "background w w0" using background_steps(4) [OF background_refl, of w E] q by (simp add: w0_def)
  obtain x w2 where s: "serve ''switchover'' w0 = (x, w2)" by (rule prod.exhaust)
  show ?thesis
  proof (cases "status_code rep = 200")
    case True
    with assms(4) q s have ok: "q = Inr False" "x = Inr ()" "w' = w2\<lparr>switchoverInProgress := False\<rparr>" "ex = Some 78"
      by (auto simp: handleSwitchover_def w0_def Let_def refusal_def ok_reply_def exitCodeSwitchoverRestart_def
          split: if_splits sum.splits bool.splits)
    have "recovery_reply E (calls w) = Some False" using isInRecovery_fst [of E w False] q ok(1) by simp
    moreover have "later w2 w'" by (simp add: ok(3) later_def)
    ultimately show ?thesis using stopped_by_request [OF assms(1-3) b, of "''switchover''" w2 w'] s ok True by simp
  next
    case False
    with assms(4) q s show ?thesis
      by (auto simp: handleSwitchover_def w0_def Let_def refusal_def ok_reply_def
          split: if_splits sum.splits bool.splits)
  qed
qed

text \<open>
  C29. What a stop answers is what happened. A 200 to \<open>shutdown\<close>, \<open>maintenance\<close> or \<open>switchover\<close>
  means that between request and answer a server was recorded, then none, and that server has
  exited or a kill was delivered to it. The process is asked to exit only with such an answer: with 78, which
  brings the container back, after a switchover or in reboot mode, with 0 after another shutdown,
  never for maintenance. A switchover went ahead only on a primary, and maintenance is marked.
\<close>

theorem stop_answers_tell_state:
  assumes "handover_channel E cfg serve" and "reachable E cfg w" and "proc_exit w = None"
    and "(''POST'', path, h) \<in> set (control_routes E cfg serve)"
    and "path \<in> {''/api/shutdown'', ''/api/maintenance'', ''/api/switchover''}"
    and "h r w = ((rep, ex), w')"
  shows "(status_code rep = 200 \<longrightarrow> (\<exists>u v p. later w u \<and> currentChild u = Some p \<and>
        cleared v \<and> gone v p \<and> later v w' \<and> gone w' p)) \<and>
    ex = (if status_code rep \<noteq> 200 \<or> path = ''/api/maintenance'' then None
      else if path = ''/api/switchover'' \<or> ShutdownMode cfg = ''reboot'' then Some 78 else Some 0) \<and>
    (status_code rep = 200 \<and> path = ''/api/maintenance'' \<longrightarrow> maintenanceActive w') \<and>
    (status_code rep = 200 \<and> path = ''/api/switchover'' \<longrightarrow> recovery_reply E (calls w) = Some False)"
proof -
  have hs: "path = ''/api/shutdown'' \<Longrightarrow> h = handleShutdown cfg serve"
    "path = ''/api/maintenance'' \<Longrightarrow> h = handleMaintenance E serve"
    "path = ''/api/switchover'' \<Longrightarrow> h = handleSwitchover E serve"
    using assms(4) by (simp_all add: control_routes_def)
  from assms(5) consider "path = ''/api/shutdown''" | "path = ''/api/maintenance''" | "path = ''/api/switchover''"
    by (elim insertE emptyE)
  then show ?thesis
  proof cases
    case 1
    with handleShutdown_stops [OF assms(1-3), of r rep ex w'] hs(1) assms(6) show ?thesis
      by (simp add: stopped_between_def)
  next
    case 2
    with handleMaintenance_stops [OF assms(1-3), of r rep ex w'] hs(2) assms(6) show ?thesis
      by (simp add: stopped_between_def)
  next
    case 3
    with handleSwitchover_stops [OF assms(1-3), of r rep ex w'] hs(3) assms(6) show ?thesis
      by (simp add: stopped_between_def)
  qed
qed

text \<open>
  The two nodes of a pair let each other in: with one token, a promotion or reboot notice that a
  node sends reaches its peer's handler, when the peer verifies nothing or the sender's address is
  one its host name resolves to.
\<close>

theorem nodes_accept_each_other:
  assumes "APIToken cfg' = APIToken cfg" and "RemoteAddr r = JoinHostPort ip port"
    and "no_brackets ip" and "no_brackets port" and "CHR '':'' \<notin> set port"
    and "PeerVerify cfg' = ''off'' \<or>
      PeerVerify cfg' = ''ip'' \<and> PeerHost cfg' \<noteq> [] \<and> resolves_to E (calls w) ip"
  shows "(r = promote_request cfg (RemoteAddr r) \<longrightarrow>
      (\<exists>v. only_observed w v \<and> api_server E cfg' build serve r w = do_promote E cfg' v)) \<and>
    (r = notice_request cfg (RemoteAddr r) \<longrightarrow>
      (\<exists>v. only_observed w v \<and> api_server E cfg' build serve r w =
        ((Reply 200 (NoticeBody (now v + RebootGracePeriod cfg')), None),
          v\<lparr>rebootSuppressUntil := now v + RebootGracePeriod cfg'\<rparr>)))"
proof -
  have ip: "remote_ip r = ip"
    unfolding remote_ip_def assms(2) SplitHostPort_JoinHostPort [OF assms(3-5)] by simp
  define v where "v = snd (checkPeerOrigin E cfg' r w)"
  have o: "only_observed w v" by (simp add: v_def)
  have auth: "requireHAAuth E cfg' refusal h r w = h r v" if "authHeader r = authorization cfg" for h
  proof (cases rule: requireHAAuth_cases [of cfg' r E refusal h w])
    case (no_token e)
    with that assms(1) show ?thesis by (auto simp: holds_token_def authorization_def)
  next
    case (no_peer e)
    with assms(6) show ?thesis by (auto simp: comes_from_peer_def ip)
  next
    case authorised
    then show ?thesis by (simp add: v_def)
  qed
  have promote: "api_server E cfg' build serve r w = handlePromote E cfg' r v"
    if "r = promote_request cfg (RemoteAddr r)"
  proof -
    from that have "reqMethod r = ''POST''" "reqPath r = ''/api/promote''" "authHeader r = authorization cfg"
      by (metis promote_request_def request.select_convs)+
    with auth show ?thesis
      by (simp add: api_server_def ServeHTTP_def read_routes_def control_routes_def guard_route_def takes_def)
  qed
  have notice: "api_server E cfg' build serve r w = handleRebootNotice cfg' r v"
    if "r = notice_request cfg (RemoteAddr r)"
  proof -
    from that have "reqMethod r = ''POST''" "reqPath r = ''/api/reboot-notice''" "authHeader r = authorization cfg"
      by (metis notice_request_def request.select_convs)+
    with auth show ?thesis
      by (simp add: api_server_def ServeHTTP_def read_routes_def control_routes_def guard_route_def takes_def)
  qed
  have force: "forceParam r = ''true''" if "r = promote_request cfg (RemoteAddr r)"
    using that by (metis promote_request_def request.select_convs(3))
  show ?thesis
    using promote notice force o by (auto simp: handlePromote_def handleRebootNotice_def Let_def)
qed

section \<open>Witnesses\<close>

theorem api_runs_inside_loop_witness:
  "loop_inv demo_config (snd (api_server cloning demo_config build_unknown (serve_now cloning demo_config)
     (notice_request demo_config ''10.0.0.2:40000'') booted))"
proof -
  have "proc_exit (snd (api_server cloning demo_config build_unknown (serve_now cloning demo_config)
     (notice_request demo_config ''10.0.0.2:40000'') booted)) = None"
    by (simp add: api_server_def ServeHTTP_def read_routes_def control_routes_def guard_route_def takes_def
        notice_request_def requireHAAuth_def checkAPIToken_def checkPeerOrigin_def handleRebootNotice_def
        booted_eval demo_config_def zero_config_def Let_def)
  from api_runs_inside_loop [OF loop_serves.handover_channel_axioms booted_reachable booted_eval(5)
      prod.collapse [symmetric] this]
  show ?thesis by blast
qed

theorem promotion_is_guarded_witness:
  "promotionsCounter (met (snd (handlePromote calm demo_config (promote_request demo_config ''10.0.0.2:40000'')
     (running_world 0 Map.empty)))) = 1"
proof -
  have "status_code (fst (fst (handlePromote calm demo_config (promote_request demo_config ''10.0.0.2:40000'')
     (running_world 0 Map.empty)))) = 200"
    by (simp add: handlePromote_def promote_request_def do_promote_def promote_def ok_reply_def calm_def Let_def)
  moreover obtain rep ex w' where run: "handlePromote calm demo_config (promote_request demo_config ''10.0.0.2:40000'')
     (running_world 0 Map.empty) = ((rep, ex), w')" by (metis prod.exhaust)
  ultimately show ?thesis using promotion_is_guarded [OF run]
    by (elim exE) (simp add: evals)
qed

text \<open>A planned reboot of a node that has started, whose server exits when it is asked to.\<close>

definition reboot_config :: config where
  "reboot_config = demo_config\<lparr>ShutdownMode := ''reboot''\<rparr>"

definition reboot_env :: env where
  "reboot_env = cloning\<lparr>dies := (\<lambda>k p. if 100 \<le> k then Some 0 else None)\<rparr>"

definition up_for_reboot :: world where
  "up_for_reboot = (first_start reboot_env reboot_config
     (initPersistentState reboot_env reboot_config
       (init_world 0 standby_data)))\<lparr>calls := 100\<rparr>"

lemma up_for_reboot_eval:
  "currentChild up_for_reboot = Some 0" "next_pid up_for_reboot = 1" "proc_exit up_for_reboot = None"
  "exit_of up_for_reboot 0 = None" "sup_proc up_for_reboot = Some 0" "calls up_for_reboot = 100"
  by (simp_all add: up_for_reboot_def first_start_def evals standby_data_def initPersistentState_def reboot_env_def
      reboot_config_def ensureRoleAndDatabaseBlocking_def ensure_loop.simps ensure_turn_def
      ensureRoleAndDatabase_def cloning_def)

lemma up_for_reboot_reachable: "reachable reboot_env reboot_config up_for_reboot"
proof -
  define v where "v = first_start reboot_env reboot_config
     (initPersistentState reboot_env reboot_config
       (init_world 0 standby_data))"
  have "proc_exit v = None" using up_for_reboot_eval(3) by (simp add: up_for_reboot_def v_def)
  moreover have "background v up_for_reboot"
    by (simp add: up_for_reboot_def v_def background_def later_def same_child_def)
  ultimately show ?thesis
    using reachable.boot [of reboot_env reboot_config 0 standby_data "\<lambda>_. None" "[]", unfolded boot_world_empty] reachable.step loop_step.other
    unfolding v_def by blast
qed

lemma reboot_answer:
  "fst (handleShutdown reboot_config (serve_now reboot_env reboot_config) (notice_request reboot_config [])
     up_for_reboot) = (Reply 200 (ResultBody ''shutdown complete''), Some 78)"
  by (simp add: handleShutdown_def serve_now_def handleHandoverRequest_def request_stop_def evals
      reboot_config_def reboot_env_def cloning_def up_for_reboot_eval ok_reply_def exitCodeSwitchoverRestart_def)

theorem stop_answers_tell_state_witness:
  "\<exists>p. gone (snd (handleShutdown reboot_config (serve_now reboot_env reboot_config)
     (notice_request reboot_config []) up_for_reboot)) p"
proof -
  have mem: "(''POST'', ''/api/shutdown'', handleShutdown reboot_config (serve_now reboot_env reboot_config))
      \<in> set (control_routes reboot_env reboot_config (serve_now reboot_env reboot_config))"
    by (simp add: control_routes_def)
  have "handleShutdown reboot_config (serve_now reboot_env reboot_config) (notice_request reboot_config [])
      up_for_reboot = ((Reply 200 (ResultBody ''shutdown complete''), Some 78),
        snd (handleShutdown reboot_config (serve_now reboot_env reboot_config) (notice_request reboot_config [])
          up_for_reboot))"
    unfolding reboot_answer [symmetric] by simp
  from stop_answers_tell_state [OF loop_serves.handover_channel_axioms up_for_reboot_reachable
      up_for_reboot_eval(3) mem _ this]
  show ?thesis by auto
qed

theorem nodes_accept_each_other_witness:
  "\<exists>v. api_server calm api_config build_unknown (serve_now calm api_config)
     (promote_request api_config (JoinHostPort ''10.0.0.2'' ''40000'')) (running_world 0 Map.empty) =
     do_promote calm api_config v"
proof -
  have "resolves_to calm (calls (running_world 0 Map.empty)) ''10.0.0.2''"
    by (simp add: resolves_to_def calm_def)
  moreover have "PeerVerify api_config = ''ip''" "PeerHost api_config \<noteq> []"
    by (simp_all add: api_config_def demo_config_def)
  moreover have "no_brackets ''10.0.0.2''" "no_brackets ''40000''" "CHR '':'' \<notin> set ''40000''"
    by (simp_all add: no_brackets_def)
  moreover have addr: "RemoteAddr (promote_request api_config (JoinHostPort ''10.0.0.2'' ''40000'')) =
      JoinHostPort ''10.0.0.2'' ''40000''"
    by (simp add: promote_request_def)
  ultimately show ?thesis
    using nodes_accept_each_other [OF refl addr, of api_config calm "running_world 0 Map.empty"
        build_unknown "serve_now calm api_config"]
    by (simp only: addr) blast
qed

end
