(* ===== verification/Cluster.thy ===== *)
theory Cluster
  imports ApiProps
begin

text \<open>
  Two nodes together: the node that hands its role over runs \<open>coordinateHandover\<close>, and what it hears
  from its peer is what the peer's handlers answer. The peer is in some state of its own whenever a
  request reaches it; what it does beside these requests is left open.
\<close>

section \<open>A node that answers\<close>

text \<open>\<open>node_at B k\<close> is the state in which the \<open>k\<close>th external call of the other node would find \<open>B\<close>.\<close>

record node =
  node_env :: env
  node_cfg :: config
  node_build :: "string \<times> string \<times> string"
  node_serve :: serve
  node_at :: "nat \<Rightarrow> world"

definition promote_answer :: "node \<Rightarrow> request \<Rightarrow> nat \<Rightarrow> answer \<times> world" where
  "promote_answer B r k =
     api_server (node_env B) (node_cfg B) (node_build B) (node_serve B) r (node_at B k)"

definition status_request :: "string \<Rightarrow> request" where
  "status_request addr = \<lparr>reqMethod = ''GET'', reqPath = ''/status'', forceParam = [], authHeader = [],
     RemoteAddr = addr\<rparr>"

definition status_answer :: "node \<Rightarrow> string \<Rightarrow> nat \<Rightarrow> answer \<times> world" where
  "status_answer B addr k =
     metrics_server (node_env B) (node_cfg B) (node_build B) (status_request addr) (node_at B k)"

definition role_in :: "body \<Rightarrow> string option" where
  "role_in b = (case b of StatusBody s \<Rightarrow> Some (role s) | _ \<Rightarrow> None)"

text \<open>A request may get lost, or its answer; an answer that arrives is the peer's.\<close>

definition connected :: "env \<Rightarrow> config \<Rightarrow> string \<Rightarrow> node \<Rightarrow> bool" where
  "connected E cfg addr B \<longleftrightarrow>
     (\<forall>k code. post_reply E k = Some code \<longrightarrow>
        code = status_code (fst (fst (promote_answer B (promote_request cfg addr) k)))) \<and>
     (\<forall>k code body. status_reply E k = StatusReply code body \<longrightarrow>
        code = status_code (fst (fst (status_answer B addr k))) \<and>
        body = role_in (content (fst (fst (status_answer B addr k)))))"

section \<open>What an answer tells of the peer\<close>

lemma in_fresh_events: "trace w' = trace w @ es @ e # es' \<Longrightarrow> e \<in> set (fresh_events w w')"
  by (simp add: fresh_events_def)

lemma promotion_answered:
  assumes "promote_answer B (promote_request cfg addr) k = (a, v)" and "status_code (fst a) = 200"
  shows "EvLocalPromote (Some True) \<in> set (fresh_events (node_at B k) v) \<and>
    authorised (node_env B) (node_cfg B) (promote_request cfg addr) (node_at B k)"
proof -
  define r where "r = promote_request cfg addr"
  have fields: "reqMethod r = ''POST''" "reqPath r = ''/api/promote''" "forceParam r = ''true''"
    by (simp_all add: r_def promote_request_def)
  have eq: "requireHAAuth (node_env B) (node_cfg B) refusal (handlePromote (node_env B) (node_cfg B)) r (node_at B k) = (a, v)"
    using assms(1) fields unfolding promote_answer_def r_def [symmetric]
    by (simp add: api_server_def ServeHTTP_def read_routes_def control_routes_def guard_route_def takes_def)
  show ?thesis
  proof (cases rule: requireHAAuth_cases [of "node_cfg B" r "node_env B" refusal
        "handlePromote (node_env B) (node_cfg B)" "node_at B k"])
    case (no_token e)
    with eq assms(2) show ?thesis by (auto simp: refusal_def)
  next
    case (no_peer e)
    with eq assms(2) show ?thesis by (auto simp: refusal_def)
  next
    case authorised
    define u where "u = snd (checkPeerOrigin (node_env B) (node_cfg B) r (node_at B k))"
    obtain rep ex where a: "a = (rep, ex)" by (rule prod.exhaust)
    have "do_promote (node_env B) (node_cfg B) u = ((rep, ex), v)"
      using authorised(3) eq fields(3) a by (simp add: handlePromote_def u_def)
    from do_promote_effect [OF this] obtain pr sql where "trace v = trace u @ EvLocalPromote pr # sql"
      "status_code rep = (if pr = Some True then 200 else 500)" .
    moreover have "trace u = trace (node_at B k)" by (simp add: u_def checkPeerOrigin_trace)
    ultimately have "EvLocalPromote (Some True) \<in> set (fresh_events (node_at B k) v)"
      using assms(2) a by (auto simp: fresh_events_def split: if_splits)
    with authorised(1,2) show ?thesis by (simp add: authorised_def r_def)
  qed
qed

text \<open>A role is reported only when the server has just said it.\<close>

lemma add_role_tells:
  assumes "add_role E s w = (s', w')" and "role s = ''unknown''" and "role s' = (if b then ''standby'' else ''primary'')"
  shows "\<exists>es. trace w' = trace w @ EvRole (Some b) # es"
proof -
  obtain x w1 where i: "isInRecovery E w = (x, w1)" by (rule prod.exhaust)
  show ?thesis
  proof (cases x)
    case (Inl e)
    with assms i show ?thesis by (auto simp: add_role_def split: if_splits)
  next
    case (Inr c)
    obtain lag w2 where l: "replicationLagBytes E c w1 = (lag, w2)" by (rule prod.exhaust)
    from assms(1) i Inr l have "role s' = (if c then ''standby'' else ''primary'')" "w' = w2"
      by (auto simp: add_role_def Let_def split: sum.splits)
    with assms(3) have c: "c = b" "w' = w2" by (simp_all split: if_splits)
    have "later w1 w2" using only_observedD(1) [OF observed_replication(2) [of w1 E c]] l by simp
    moreover have "trace w1 = trace w @ [EvRole (Some b)]"
      using isInRecovery_trace [of E w] isInRecovery_fst [of E w c] i Inr c(1) by simp
    ultimately show ?thesis using c(2) by (auto simp: later_def prefix_def)
  qed
qed

lemma status_tells_role:
  assumes "status_answer B addr k = (a, v)"
    and "role_in (content (fst a)) = Some (if b then ''standby'' else ''primary'')"
  shows "EvRole (Some b) \<in> set (fresh_events (node_at B k) v)"
proof -
  define E where "E = node_env B"
  define w where "w = node_at B k"
  obtain s w' where s: "status_report E (node_cfg B) (node_build B) w = (s, w')" by (rule prod.exhaust)
  have a: "a = (Reply 200 (StatusBody s), None)" "v = w'"
    using assms(1) s by (simp_all add: status_answer_def metrics_server_def ServeHTTP_def read_routes_def
        takes_def status_request_def handleStatus_def E_def w_def)
  have role: "role s = (if b then ''standby'' else ''primary'')"
    using assms(2) by (simp add: a role_in_def)
  obtain p w1 where p: "checkPeerReachable E (node_cfg B) w = (p, w1)" by (rule prod.exhaust)
  obtain up w2 where u: "Ping E w1 = (up, w2)" by (rule prod.exhaust)
  obtain s1 w3 where r: "add_role E ((process_status (node_cfg B) (node_build B) p w1)\<lparr>postgres_reachable := True\<rparr>) w2 = (s1, w3)"
    by (rule prod.exhaust)
  have fields: "role ((process_status (node_cfg B) (node_build B) p w1)\<lparr>postgres_reachable := True\<rparr>) = ''unknown''"
    "role (process_status (node_cfg B) (node_build B) p w1) = ''unknown''"
    by (simp_all add: process_status_def)
  have up: up "add_version E s1 w3 = (s, w')"
    using s role fields(2) by (auto simp: status_report_def p u r Let_def split: if_splits)
  have v: "role s1 = role s" "later w3 w'"
    using up(2) by (auto simp: add_version_def serverVersion_def Let_def split: option.splits intro: later_trans)
  from add_role_tells [OF r fields(1), of b] role v(1) obtain es where "trace w3 = trace w2 @ EvRole (Some b) # es" by auto
  moreover have "later w w1" using only_observedD(1) [OF only_observed_peer(1) [of w E "node_cfg B"]] p by simp
  then obtain es1 where "trace w1 = trace w @ es1" by (auto simp: later_def prefix_def)
  moreover have "trace w2 = trace w1" using u by (auto simp: Ping_def)
  ultimately show ?thesis
    using v(2) by (auto simp: a(2) w_def [symmetric] fresh_events_def later_def prefix_def)
qed

section \<open>The calls of a handover\<close>

lemma calls_stopLocal: "calls w \<le> calls (snd (stopLocal E cfg p sig w))"
proof -
  have stop: "calls u \<le> calls (snd (stopGracefully E cfg sig u))" for u
    by (auto simp: stop_defs signalChild_def Let_def split: option.split)
  have wait: "calls u \<le> calls (snd (wait_child E p d u))" for d u
    by (simp add: wait_child_def Let_def)
  have kill: "calls u \<le> calls (snd (killChild E u))" for u
    by (auto simp: killChild_def Let_def split: option.split)
  define w2 where "w2 = snd (stopGracefully E cfg sig (emit EvPoolReset w))"
  obtain fin w3 where 3: "wait_child E p (ShutdownWait cfg) w2 = (fin, w3)" by (rule prod.exhaust)
  obtain k w4 where 4: "killChild E w3 = (k, w4)" by (rule prod.exhaust)
  have "calls w \<le> calls w2" using stop [of "emit EvPoolReset w"] by (simp add: w2_def)
  also have "\<dots> \<le> calls w3" using wait [of w2 "ShutdownWait cfg"] 3 by simp
  finally have "calls w \<le> calls w3" .
  moreover have "calls w3 \<le> calls w4" using kill [of w3] 4 by simp
  moreover have "calls w4 \<le> calls (snd (wait_child E p handoverKillConfirmTimeout w4))" by (rule wait)
  ultimately show ?thesis
    by (auto simp: stopLocal_def w2_def [symmetric] 3 4 Let_def clear_child_def split: sum.split)
qed

lemma calls_fetchPeerStatus:
  "PeerHost cfg \<noteq> [] \<Longrightarrow> calls (snd (fetchPeerStatus E cfg w)) = Suc (calls w)"
  by (auto simp: fetchPeerStatus_def Let_def)

lemma await_hears_primary:
  assumes "awaitPeerPrimary E cfg deadline w = (True, w')"
  shows "\<exists>k. calls w \<le> k \<and> status_reply E k = StatusReply 200 (Some ''primary'')"
  using assms
proof (induction E cfg deadline w arbitrary: w' rule: awaitPeerPrimary.induct)
  case (1 E cfg deadline w)
  obtain st w1 where f: "fetchPeerStatus E cfg w = (st, w1)" by (rule prod.exhaust)
  have left: "now w < deadline" using 1(2) by (auto simp: awaitPeerPrimary.simps split: if_splits)
  show ?case
  proof (cases "st = Inr ''primary''")
    case True
    with fetchPeerStatus_Inr [of E cfg w "''primary''"] f show ?thesis by auto
  next
    case False
    have "awaitPeerPrimary E cfg deadline (sleep E (500 * millisecond) w1) = (True, w')"
      using 1(2) left False f by (simp add: awaitPeerPrimary.simps [of E cfg deadline w])
    from 1(1) [OF left f [symmetric] refl False this] obtain k
      where k: "calls (sleep E (500 * millisecond) w1) \<le> k" "status_reply E k = StatusReply 200 (Some ''primary'')"
      by blast
    moreover have "calls w \<le> calls w1" using f by (auto simp: fetchPeerStatus_def Let_def split: if_splits)
    ultimately have "calls w \<le> k" by (simp add: world_evals)
    with k(2) show ?thesis by blast
  qed
qed

section \<open>Properties\<close>

text \<open>
  C1. A coordinated handover passes the role from one node to the other, and never lets both have it:
  when a primary reports success under require-switchover, its peer's server said it was a standby
  before anything was stopped, the request to promote reached the peer's handler when the local server
  was gone, the peer let the request in and its server was promoted by it, and after that it said it was
  primary. What the peer does otherwise, and which requests get lost, is open.
\<close>

theorem handover_passes_the_role:
  assumes "connected E cfg addr B"
    and "coordinateHandover E cfg p sig ''require-switchover'' w = (Inr (), w')"
    and "fst (isInRecovery E w) \<noteq> Inr True" and "sup_proc w = Some p"
  shows "\<exists>ks v kc. calls w < ks \<and> ks < calls v \<and> calls v < kc \<and>
    later w v \<and> later v w' \<and> cleared v \<and> gone v p \<and>
    EvRole (Some True) \<in> set (fresh_events (node_at B ks) (snd (status_answer B addr ks))) \<and>
    authorised (node_env B) (node_cfg B) (promote_request cfg addr) (node_at B (calls v)) \<and>
    EvLocalPromote (Some True) \<in> set (fresh_events (node_at B (calls v))
      (snd (promote_answer B (promote_request cfg addr) (calls v)))) \<and>
    EvRole (Some False) \<in> set (fresh_events (node_at B kc) (snd (status_answer B addr kc)))"
  using assms(2)
proof (cases rule: coordinateHandover_cases)
  case (stopped w1 w2 w3 st)
  then obtain w4 where q: "requestPeerPromote E cfg w3 = (Inr (), w4)"
    and c: "awaitPeerPrimary E cfg (now w4 + peerPromoteConfirmDeadline) w4 = (True, w')" by (auto split: if_splits)
  have host: "PeerHost cfg \<noteq> []" and seen: "status_reply E (calls w1) = StatusReply 200 (Some ''standby'')"
    using stopped(4,6) fetchPeerStatus_Inr [of E cfg w1 "''standby''"] by auto
  have "calls w1 = Suc (calls w)" using stopped(2) by (simp add: isInRecovery_def Let_def)
  moreover have "calls w2 = Suc (calls w1)" using calls_fetchPeerStatus [OF host, of E w1] stopped(4) by simp
  moreover have "calls w2 \<le> calls w3" using calls_stopLocal [of w2 E cfg p sig] stopped(5) by simp
  ultimately have order: "calls w < calls w1" "calls w1 < calls w3" by simp_all
  have posted: "post_reply E (calls w3) = Some 200" "calls w4 = Suc (calls w3)"
    using q host by (auto simp: requestPeerPromote_def Let_def split: option.splits if_splits)
  obtain kc where kc: "calls w4 \<le> kc" "status_reply E kc = StatusReply 200 (Some ''primary'')"
    using await_hears_primary [OF c] by blast
  have link: "body = role_in (content (fst (fst (status_answer B addr k))))"
    if "status_reply E k = StatusReply 200 body" for k body
    using assms(1) that unfolding connected_def by blast
  have "status_code (fst (fst (promote_answer B (promote_request cfg addr) (calls w3)))) = 200"
    using assms(1) posted(1) unfolding connected_def by metis
  note answered = promotion_answered [OF prod.collapse [symmetric] this]
  have standby: "EvRole (Some True) \<in> set (fresh_events (node_at B (calls w1)) (snd (status_answer B addr (calls w1))))"
    using status_tells_role [OF prod.collapse [symmetric], of B addr "calls w1" True] link [OF seen] by simp
  have primary: "EvRole (Some False) \<in> set (fresh_events (node_at B kc) (snd (status_answer B addr kc)))"
    using status_tells_role [OF prod.collapse [symmetric], of B addr kc False] link [OF kc(2)] by simp
  have o: "only_observed w w2" using adds_observed(2) [OF stopped(2,4)] .
  have "later w2 w3" using child_onlyD(1) [OF child_only_stopLocal [of w2 E cfg p sig]] stopped(5) by simp
  then have before: "later w w3" using later_trans [OF only_observedD(1) [OF o]] by blast
  have "later w3 w4" using later_peer(3) [of w3 E cfg] q by simp
  then have after: "later w3 w'" using awaitPeerPrimary_spec [OF c] only_observedD(1) later_trans by blast
  have "cleared w3" using stopLocal_ok(1,2) [OF stopped(5)] by (simp add: cleared_def)
  moreover have "gone w3 p" using stopLocal_gone [OF stopped(5)] only_observedD [OF o] assms(4) by simp
  ultimately show ?thesis
    using order posted(2) kc(1) before after standby answered primary
    by (intro exI [of _ "calls w1"] exI [of _ w3] exI [of _ kc]) simp
qed (use assms(3) in auto)

section \<open>Witness\<close>

text \<open>
  A peer whose server is a standby up to the fourth call and a primary afterwards, and answers every
  request to promote.
\<close>

definition heir :: node where
  "heir = \<lparr>node_env = calm\<lparr>recovery_reply := (\<lambda>n. Some (n < 400))\<rparr>, node_cfg = demo_config,
     node_build = build_unknown, node_serve = serve_now calm demo_config,
     node_at = (\<lambda>k. (running_world 0 Map.empty)\<lparr>calls := 100 * k\<rparr>)\<rparr>"

lemma heir_status:
  "status_code (fst (fst (status_answer heir addr k))) = 200"
  "role_in (content (fst (fst (status_answer heir addr k)))) = Some (if k < 4 then ''standby'' else ''primary'')"
  by (simp_all add: status_answer_def heir_def metrics_server_def ServeHTTP_def read_routes_def takes_def
      status_request_def handleStatus_def status_report_def add_role_def add_version_def role_in_def
      process_status_def Ping_def replicationLagBytes_def query_number_def serverVersion_def evals)

lemma heir_promotes:
  "status_code (fst (fst (promote_answer heir (promote_request demo_config addr) k))) = 200"
proof -
  have "status_code (fst (fst (do_promote (node_env heir) demo_config v))) = 200" for v
    by (simp add: do_promote_def promote_def heir_def calm_def ok_reply_def Let_def)
  then show ?thesis
    by (simp add: promote_answer_def heir_def api_server_def ServeHTTP_def read_routes_def control_routes_def
        guard_route_def takes_def promote_request_def requireHAAuth_def checkAPIToken_def checkPeerOrigin_def
        handlePromote_def demo_config_def zero_config_def Let_def)
qed

lemma heir_connected: "connected handover_env demo_config addr heir"
  by (auto simp: connected_def heir_status heir_promotes handover_env_def calm_exit_def calm_def)

theorem handover_passes_the_role_witness:
  "\<exists>v. gone v 0 \<and> EvLocalPromote (Some True) \<in> set (fresh_events (node_at heir (calls v))
     (snd (promote_answer heir (promote_request demo_config ''10.0.0.2:40000'') (calls v))))"
proof -
  have "fst (isInRecovery handover_env (running_world 0 (\<lambda>_. None))) \<noteq> Inr True"
    "sup_proc (running_world 0 (\<lambda>_. None)) = Some 0"
    by (simp_all add: evals)
  from handover_passes_the_role [OF heir_connected handover_run_eq this] show ?thesis by blast
qed

end
