(* ===== verification/Waiting.thy ===== *)
theory Waiting
  imports Startup
begin

text \<open>
  How long the waiting loops of bootstrap and startup go on. A turn that goes on began before the
  deadline and slept for the loop's interval, so the number of turns is bounded by the waiting time
  over the interval, however fast or slow the peer and the tools are.
\<close>

locale paced_loop = poll_loop turn run bound
  for turn :: "world \<Rightarrow> ('r \<times> world) + world" and run and bound +
  fixes interval :: duration and deadline :: gotime
  assumes interval_pos: "0 < interval"
    and paced: "turn w = Inr w' \<Longrightarrow> now w \<le> deadline \<and> now w + interval \<le> now w'"
begin

lemma turns_paced:
  "((\<lambda>v v'. turn v = Inr v') ^^ n) w u \<Longrightarrow>
     now w + int n * interval \<le> now u \<and> (n \<noteq> 0 \<longrightarrow> now w + (int n - 1) * interval \<le> deadline)"
proof (induction n arbitrary: u)
  case 0
  then show ?case by simp
next
  case (Suc n)
  then obtain v where v: "((\<lambda>v v'. turn v = Inr v') ^^ n) w v" "turn v = Inr u" by auto
  with Suc.IH [OF v(1)] paced [OF v(2)] show ?case by (simp add: algebra_simps)
qed

lemma turns_at_most:
  assumes "((\<lambda>v v'. turn v = Inr v') ^^ n) w u" and "now w \<le> deadline"
  shows "int n \<le> (deadline - now w) div interval + 1"
proof (cases n)
  case 0
  with assms(2) interval_pos show ?thesis by (simp add: pos_imp_zdiv_nonneg_iff)
next
  case (Suc m)
  with turns_paced [OF assms(1)] have "int m * interval \<le> deadline - now w" by simp
  then have "int m \<le> (deadline - now w) div interval"
    using interval_pos by (metis nonzero_mult_div_cancel_right less_irrefl zdiv_mono1)
  with Suc show ?thesis by simp
qed

text \<open>The loop's result is that of a turn it reaches in so many turns.\<close>

lemma ends_within:
  assumes "now w \<le> deadline"
  shows "\<exists>n u. int n \<le> (deadline - now w) div interval + 1 \<and>
    ((\<lambda>v v'. turn v = Inr v') ^^ n) w u \<and> turn u = Inl (run w)"
proof -
  from run_last_turn [of w] obtain u where u: "rtranclp (\<lambda>v v'. turn v = Inr v') w u" "turn u = Inl (run w)"
    by blast
  from rtranclp_imp_relpowp [OF u(1)] obtain n where "((\<lambda>v v'. turn v = Inr v') ^^ n) w u" by blast
  with u(2) turns_at_most [OF this assms] show ?thesis by blast
qed

end

section \<open>The loops\<close>

lemma sleep_paced: "now w \<le> now v \<Longrightarrow> now w + d \<le> now (sleep E d v)"
  using sleep_advances [of v d E] by simp

lemma standby_turn_paced:
  assumes "standby_turn E cfg deadline w = Inr w'"
  shows "now w \<le> deadline \<and> now w + bootstrapRetryInterval \<le> now w'"
proof -
  obtain st w1 where f: "fetchPeerStatus E cfg w = (st, w1)" by (rule prod.exhaust)
  obtain r w2 where b: "runBasebackup E cfg w1 = (r, w2)" by (rule prod.exhaust)
  have n1: "now w \<le> now w1" using now_observed [of w E cfg] f by simp
  have n2: "now w \<le> now w2"
    using n1 now_off_child [OF off_child_runBasebackup [of w1 E cfg]] b by simp
  from assms n1 n2 show ?thesis
    by (auto simp: standby_turn_def f b sleep_paced split: if_splits sum.splits)
qed

lemma tiebreak_turn_paced:
  assumes "tiebreak_turn E cfg deadline w = Inr w'"
  shows "now w \<le> deadline \<and> now w + bootstrapPollInterval \<le> now w'"
proof -
  obtain st w1 where f: "fetchPeerStatus E cfg w = (st, w1)" by (rule prod.exhaust)
  have "now w \<le> now w1" using now_observed [of w E cfg] f by simp
  with assms show ?thesis by (auto simp: tiebreak_turn_def f sleep_paced split: if_splits)
qed

lemma rejoin_turn_paced:
  assumes "rejoin_turn E cfg deadline w = Inr w'"
  shows "now w \<le> deadline \<and> now w + startupRejoinPollInterval \<le> now w'"
proof -
  obtain st w1 where f: "fetchPeerStatus E cfg w = (st, w1)" by (rule prod.exhaust)
  obtain b w2 where b: "rejoinAsStandby E cfg w1 = (b, w2)" by (rule prod.exhaust)
  have n1: "now w \<le> now w1" using now_observed [of w E cfg] f by simp
  have n2: "now w \<le> now w2"
    using n1 now_off_child [OF off_child_rejoinAsStandby [of w1 E cfg]] b by simp
  have "startupRejoinPollInterval \<le> startupRejoinRetryInterval" by (simp add: poll_intervals time_units)
  with sleep_paced [OF n2, of startupRejoinRetryInterval E]
  have n3: "now w + startupRejoinPollInterval \<le> now (sleep E startupRejoinRetryInterval w2)" by linarith
  from assms n1 n2 n3 show ?thesis
    by (auto simp: rejoin_turn_def f b sleep_paced split: if_splits sum.splits)
qed

lemma ensure_turn_paced:
  assumes "ensure_turn E cfg deadline w = Inr w'"
  shows "now w \<le> deadline \<and> now w + bootstrapRetryInterval \<le> now w'"
proof -
  obtain r w1 where r: "ensureRoleAndDatabase E cfg w = (r, w1)" by (rule prod.exhaust)
  have "now w \<le> now w1"
    using now_off_child [OF child_upkeep.ensureRoleAndDatabase [of w E cfg]] r by simp
  with assms show ?thesis by (auto simp: ensure_turn_def r sleep_paced split: if_splits sum.splits)
qed

interpretation standby_wait: paced_loop "standby_turn E cfg deadline" "standby_retry E cfg deadline"
    "time_left deadline" bootstrapRetryInterval deadline
  by unfold_locales (simp, rule standby_turn_paced)

interpretation tiebreak_wait: paced_loop "tiebreak_turn E cfg deadline" "tiebreak E cfg deadline"
    "time_left deadline" bootstrapPollInterval deadline
  by unfold_locales (simp, rule tiebreak_turn_paced)

interpretation startup_wait: paced_loop "rejoin_turn E cfg deadline" "rejoin_loop E cfg deadline"
    "time_left deadline" startupRejoinPollInterval deadline
  by unfold_locales (simp, rule rejoin_turn_paced)

interpretation ready_wait: paced_loop "ensure_turn E cfg deadline" "ensure_loop E cfg deadline"
    "time_left deadline" bootstrapRetryInterval deadline
  by unfold_locales (simp, rule ensure_turn_paced)

section \<open>Properties\<close>

text \<open>\<open>ends_after turn res w k\<close>: at most \<open>k\<close> turns go on, and the next one ends with \<open>res\<close>.\<close>

definition ends_after :: "(world \<Rightarrow> 'r + world) \<Rightarrow> 'r \<Rightarrow> world \<Rightarrow> nat \<Rightarrow> bool" where
  "ends_after turn res w k \<longleftrightarrow>
     (\<exists>n u. n \<le> k \<and> ((\<lambda>v v'. turn v = Inr v') ^^ n) w u \<and> turn u = Inl res)"

text \<open>
  C30. Every wait of bootstrap and startup ends, after a number of turns that does not depend on how
  the peer, the server or the tools behave or how long they take: the tiebreak after at most 16
  turns that go on, the standby's retry after 61, the startup decision after 31 and the wait for
  role and database after 31.
\<close>

theorem waiting_ends:
  "ends_after (tiebreak_turn E cfg (now w + bootstrapPrimaryTiebreakTimeout))
     (tiebreak E cfg (now w + bootstrapPrimaryTiebreakTimeout) w) w 16 \<and>
   ends_after (standby_turn E cfg (now w + bootstrapStandbyTiebreakTimeout))
     (bootstrapAsStandbyWithRetry E cfg w) w 61 \<and>
   ends_after (rejoin_turn E cfg (now w + startupRejoinDecisionTimeout))
     (rejoin_loop E cfg (now w + startupRejoinDecisionTimeout) w) w 31 \<and>
   ends_after (ensure_turn E cfg (now w + ensureRoleAndDatabaseTimeout))
     (ensure_loop E cfg (now w + ensureRoleAndDatabaseTimeout) w) w 31"
  using tiebreak_wait.ends_within [of w "now w + bootstrapPrimaryTiebreakTimeout" E cfg]
    standby_wait.ends_within [of w "now w + bootstrapStandbyTiebreakTimeout" E cfg]
    startup_wait.ends_within [of w "now w + startupRejoinDecisionTimeout" E cfg]
    ready_wait.ends_within [of w "now w + ensureRoleAndDatabaseTimeout" E cfg]
  unfolding ends_after_def bootstrapAsStandbyWithRetry_def
  by (intro conjI) (force simp: bootstrapPrimaryTiebreakTimeout_def bootstrapStandbyTiebreakTimeout_def
      startupRejoinDecisionTimeout_def ensureRoleAndDatabaseTimeout_def poll_intervals time_units)+

end
