(* ===== verification/Boot.thy ===== *)
theory Boot
  imports LoopProps ConfigProps
begin

text \<open>
  The start of \<open>runInteractive\<close> in \<open>src/src/main.go\<close>, up to the loop: configuration, counters, TLS
  settings for calls to the peer, the pool, the listeners, the first start of the server. Any failure
  before the server is started ends the process with status 1 (\<open>logFatal\<close>). The listeners answer from
  then on; what their handlers do belongs to the loop (\<open>Api\<close>), and an address that cannot be bound is
  only logged. Whether the driver of the database accepts a connection string is a parameter.
\<close>

section \<open>Listeners\<close>

text \<open>
  An \<open>http.Server\<close>: its address, and its TLS settings unless it serves plain HTTP. The certificates
  are read once more when the API listener starts; that they no longer load is the one error.
\<close>

record listener =
  listenAddr :: string
  listenTLS :: "tls_config option"

definition startAPIServer :: "os \<Rightarrow> config \<Rightarrow> world \<Rightarrow> config_error + listener" where
  "startAPIServer sys cfg w =
     (let srv = \<lparr>listenAddr = JoinHostPort (APIBind cfg) (Itoa (APIPort cfg)), listenTLS = None\<rparr>
      in if TLSEnabled cfg
         then bindE (buildServerTLSConfig sys (disk w) cfg) (\<lambda>tls. Inr (srv\<lparr>listenTLS := Some tls\<rparr>))
         else Inr srv)"

definition startMetricsServer :: "config \<Rightarrow> listener" where
  "startMetricsServer cfg =
     \<lparr>listenAddr = JoinHostPort (APIBind cfg) (Itoa (MetricsPort cfg)), listenTLS = None\<rparr>"

section \<open>The start of the process\<close>

definition initPeerHTTPClients :: "os \<Rightarrow> config \<Rightarrow> world \<Rightarrow> config_error + tls_config option" where
  "initPeerHTTPClients sys cfg w = buildClientTLSConfig sys (disk w) cfg"

definition runInteractive :: "env \<Rightarrow> os \<Rightarrow> (string \<Rightarrow> bool) \<Rightarrow> world \<Rightarrow>
    (config \<times> listener \<times> listener) option \<times> world" where
  "runInteractive E sys accepts w =
     (case loadConfig sys (disk w) of
        Inl _ \<Rightarrow> (None, exit_process 1 w)
      | Inr (cfg, f) \<Rightarrow>
          (let w1 = initPersistentState E cfg (w\<lparr>disk := f\<rparr>)
           in case initPeerHTTPClients sys cfg w1 of
                Inl _ \<Rightarrow> (None, exit_process 1 w1)
              | Inr _ \<Rightarrow>
                  if \<not> accepts (maintenanceConnString cfg) then (None, exit_process 1 w1)
                  else
                    (case startAPIServer sys cfg w1 of
                       Inl _ \<Rightarrow> (None, exit_process 1 w1)
                     | Inr apiSrv \<Rightarrow>
                         (let w2 = first_start E cfg w1
                          in (if proc_exit w2 = None then Some (cfg, apiSrv, startMetricsServer cfg) else None,
                              w2)))))"

text \<open>What the API listener asks of its clients is what the configuration says.\<close>

lemma startAPIServer_serves:
  assumes "startAPIServer sys cfg w = Inr srv"
  shows "listenAddr srv = JoinHostPort (APIBind cfg) (Itoa (APIPort cfg))"
    and "listenTLS srv = None \<longleftrightarrow> \<not> TLSEnabled cfg"
    and "listenTLS srv = Some tls \<Longrightarrow> RequireClientCert tls = MTLSRequire cfg"
  using assms
  by (auto simp: startAPIServer_def buildServerTLSConfig_def Let_def bindE_Inr_iff split: if_splits)

text \<open>The counters are read and written beside the data directory, without a trace.\<close>

lemma persistState_leaves:
  "trace (persistState E cfg w) = trace w" "pgdata (persistState E cfg w) = pgdata w"
  "next_pid (persistState E cfg w) = next_pid w" "proc_exit (persistState E cfg w) = proc_exit w"
  by (auto simp: persistState_def savePersistedState_def replace_file_def Let_def split: option.split)

lemma initPersistentState_leaves:
  "trace (initPersistentState E cfg w) = trace w" "pgdata (initPersistentState E cfg w) = pgdata w"
  "next_pid (initPersistentState E cfg w) = next_pid w" "proc_exit (initPersistentState E cfg w) = proc_exit w"
  by (auto simp: initPersistentState_def loadPersistedState_def persistState_leaves Let_def
      split: option.split prod.split)

lemma boot_world_fields:
  "disk (boot_world t d f bs) = f" "(boot_world t d f bs)\<lparr>disk := g\<rparr> = boot_world t d g bs"
  "trace (boot_world t d f bs) = []" "pgdata (boot_world t d f bs) = d" "next_pid (boot_world t d f bs) = 0"
  "proc_exit (boot_world t d f bs) = None" "currentChild (boot_world t d f bs) = None"
  by (simp_all add: boot_world_def init_world_def)

text \<open>A first start that ends the process: the server could not be spawned, and none was.\<close>

lemma first_start_ended:
  assumes "proc_exit w = None" and "currentChild w = None" and "proc_exit (first_start E cfg w) \<noteq> None"
  shows "proc_exit (first_start E cfg w) = Some 1 \<and> next_pid (first_start E cfg w) = next_pid w \<and>
    currentChild (first_start E cfg w) = None \<and> (\<exists>k. \<not> spawn_ok E k)"
proof -
  have off: "proc_exit (ensureRoleAndDatabaseBlocking E cfg u) = proc_exit u" for u
    using off_childD(6) [of u "ensureRoleAndDatabaseBlocking E cfg u"] by simp
  then have ended: "proc_exit (startPostgres E cfg w) \<noteq> None"
    and eq: "first_start E cfg w = startPostgres E cfg w"
    using assms(3) by (auto simp: first_start_def Let_def split: if_splits)
  show ?thesis
  proof (cases rule: startPostgres_cases [of w E cfg])
    case left_stopped
    with ended assms(1) off_childD(6) [OF left_stopped] show ?thesis by simp
  next
    case (spawn_failed w2 w3 e)
    have "\<not> spawn_ok E (calls w2)" "proc_exit w3 = proc_exit w2"
      using spawn_failed(2) by (auto simp: start_def Let_def split: if_splits)
    with off_childD(6,14,17) [OF spawn_failed(1)] start_Inl [OF spawn_failed(2)] assms(1,2)
    show ?thesis unfolding eq spawn_failed(3) by (auto simp: exit_process_def)
  next
    case (started w1 w2 w3 p)
    have "proc_exit w3 = proc_exit w2"
      using started(4) by (auto simp: start_def Let_def split: if_splits)
    with ended assms(1) off_childD(6) [OF started(3)] started(5) show ?thesis by (simp add: watch_child_def)
  qed
qed

text \<open>What is looked at before the server is started, with the disk as it then is.\<close>

definition settings_accepted :: "os \<Rightarrow> (string \<Rightarrow> bool) \<Rightarrow> config \<Rightarrow> world \<Rightarrow> bool" where
  "settings_accepted sys accepts cfg w \<longleftrightarrow>
     is_ok (initPeerHTTPClients sys cfg w) \<and> accepts (maintenanceConnString cfg) \<and> is_ok (startAPIServer sys cfg w)"

section \<open>Properties\<close>



end
