(* ===== verification/Service.thy ===== *)
theory Service
  imports Boot
begin

text \<open>
  \<open>src/src/service_windows.go\<close>: pg-guard as a Windows service. \<open>Execute\<close> is the main loop once more,
  driven by requests of the Service Control Manager instead of signals, and it tells the manager what
  it is doing. A service is the state of the process, the statuses sent so far with their times, and
  what \<open>Execute\<close> has returned. The loop shares the handlers of \<open>main.go\<close>; its server is stopped by
  \<open>pg_ctl\<close> where the environment is a Windows one.
\<close>

section \<open>Requests and statuses\<close>

datatype scm_cmd = Interrogate | Stop | Shutdown | PreShutdown | OtherCmd nat

datatype svc_state = Stopped | StartPending | StopPending | Running

record svc_status =
  State :: svc_state
  Accepts :: "scm_cmd list"
  CheckPoint :: "32 word"
  WaitHint :: "32 word"

definition svc_Status :: "svc_state \<Rightarrow> svc_status" where
  "svc_Status st = \<lparr>State = st, Accepts = [], CheckPoint = 0, WaitHint = 0\<rparr>"

text \<open>The numbers of the commands are the package's.\<close>

definition scmCmdName :: "(scm_cmd \<Rightarrow> nat) \<Rightarrow> scm_cmd \<Rightarrow> string" where
  "scmCmdName number cmd =
     (case cmd of
        Stop \<Rightarrow> ''Stop''
      | Shutdown \<Rightarrow> ''Shutdown''
      | PreShutdown \<Rightarrow> ''PreShutdown''
      | _ \<Rightarrow> ''cmd '' @ Itoa (int (number cmd)))"

record service =
  process :: world
  sent :: "(gotime \<times> svc_status) list"
  returned :: "(bool \<times> 32 word) option"

definition send :: "svc_status \<Rightarrow> service \<Rightarrow> service" where
  "send st s = s\<lparr>sent := sent s @ [(now (process s), st)]\<rparr>"

text \<open>How \<open>Execute\<close> returns once the loop is over: the manager hears \<open>Stopped\<close> first.\<close>

definition leave :: "world \<Rightarrow> service \<Rightarrow> service" where
  "leave w s =
     (case proc_exit w of
        None \<Rightarrow> s\<lparr>process := w\<rparr>
      | Some code \<Rightarrow>
          (send (svc_Status Stopped) (s\<lparr>process := w\<rparr>))\<lparr>returned := Some (False, word_of_int code)\<rparr>)"

section \<open>Starting\<close>

definition Execute_refused :: "service \<Rightarrow> service" where
  "Execute_refused s = (send (svc_Status Stopped) s)\<lparr>returned := Some (False, 1)\<rparr>"

definition Execute_start :: "env \<Rightarrow> os \<Rightarrow> (string \<Rightarrow> bool) \<Rightarrow> config \<Rightarrow> world \<Rightarrow> service" where
  "Execute_start E sys accepts cfg w =
     (let s = send (svc_Status StartPending) \<lparr>process = w, sent = [], returned = None\<rparr>
      in case initPeerHTTPClients sys cfg w of
           Inl _ \<Rightarrow> Execute_refused s
         | Inr _ \<Rightarrow>
             if \<not> accepts (maintenanceConnString cfg) then Execute_refused s
             else
               (let w0 = initPersistentState E cfg w
                in case startAPIServer sys cfg w0 of
                     Inl _ \<Rightarrow> s\<lparr>process := exit_process 1 w0\<rparr>
                   | Inr _ \<Rightarrow>
                       (let w1 = first_start E cfg w0; s1 = s\<lparr>process := w1\<rparr>
                        in if proc_exit w1 \<noteq> None then s1
                           else send ((svc_Status Running)\<lparr>Accepts := [Stop, Shutdown, PreShutdown]\<rparr>) s1)))"

text \<open>\<open>runServiceEntrypoint\<close> of \<open>main.go\<close>: \<open>svc.Run\<close> calls \<open>Execute\<close>; \<open>Inl\<close> is a process ended by \<open>logFatal\<close>.\<close>

definition runServiceEntrypoint :: "env \<Rightarrow> os \<Rightarrow> (string \<Rightarrow> bool) \<Rightarrow> world \<Rightarrow> world + config \<times> service" where
  "runServiceEntrypoint E sys accepts w =
     (case loadConfig sys (disk w) of
        Inl _ \<Rightarrow> Inl (exit_process 1 w)
      | Inr (cfg, f) \<Rightarrow> Inr (cfg, Execute_start E sys accepts cfg (w\<lparr>disk := f\<rparr>)))"

section \<open>Stopping\<close>

definition stop_pending :: "32 word \<Rightarrow> 32 word \<Rightarrow> svc_status" where
  "stop_pending checkpoint hint =
     (svc_Status StopPending)\<lparr>CheckPoint := checkpoint, WaitHint := hint\<rparr>"

text \<open>
  \<open>time.Ticker\<close>: its timer never fires early; when it fires late it drops the ticks that are overdue
  and keeps to its grid. The channel holds one tick, and a tick that finds it full is lost. A run of it
  is the list of what happens, in order of time: the timer fires, or the receiver takes the tick.
  \<open>ticker_run d due full latest until\<close>: the next tick is due at \<open>due\<close>, the channel is full or not, the
  last thing happened at \<open>latest\<close>, and nothing is taken after \<open>until\<close>, when the handler has returned.
\<close>

datatype ticker_event = Fires gotime | Takes gotime

fun ticker_run :: "duration \<Rightarrow> gotime \<Rightarrow> bool \<Rightarrow> gotime \<Rightarrow> gotime \<Rightarrow> ticker_event list \<Rightarrow> bool" where
  "ticker_run d due full latest until [] \<longleftrightarrow> True"
| "ticker_run d due full latest until (Fires t # es) \<longleftrightarrow>
     latest \<le> t \<and> due \<le> t \<and> ticker_run d (due + d * (1 + (t - due) div d)) True t until es"
| "ticker_run d due full latest until (Takes t # es) \<longleftrightarrow>
     full \<and> latest \<le> t \<and> t \<le> until \<and> ticker_run d due False t until es"

definition NewTicker_run :: "duration \<Rightarrow> gotime \<Rightarrow> gotime \<Rightarrow> ticker_event list \<Rightarrow> bool" where
  "NewTicker_run d began until es \<longleftrightarrow> ticker_run d (began + d) False began until es"

fun taken :: "ticker_event list \<Rightarrow> gotime list" where
  "taken [] = []"
| "taken (Fires t # es) = taken es"
| "taken (Takes t # es) = t # taken es"

text \<open>The checkpoints \<open>waitForShutdown\<close> sends, one for each tick it takes. It ends with the handler.\<close>

fun checkpoints :: "32 word \<Rightarrow> gotime list \<Rightarrow> (gotime \<times> svc_status) list" where
  "checkpoints checkpoint [] = []"
| "checkpoints checkpoint (t # ts) =
     (t, stop_pending (checkpoint + 1) 2000) # checkpoints (checkpoint + 1) ts"

definition waitForShutdown :: "env \<Rightarrow> config \<Rightarrow> ticker_event list \<Rightarrow> service \<Rightarrow> service" where
  "waitForShutdown E cfg ticker s =
     s\<lparr>process := snd (handleTerminationSignal E cfg shutdownSignal (process s)),
       sent := sent s @ checkpoints 0 (taken ticker)\<rparr>"

section \<open>The loop of Execute\<close>

text \<open>\<open>case c := <-req\<close>. The status an interrogation carries is the last one sent.\<close>

definition handle_control :: "env \<Rightarrow> config \<Rightarrow> scm_cmd \<Rightarrow> ticker_event list \<Rightarrow> service \<Rightarrow> service" where
  "handle_control E cfg cmd ticks s =
     (if cmd = Interrogate then send (snd (last (sent s))) s
      else if cmd \<in> {Stop, Shutdown, PreShutdown} then
        (let s1 = waitForShutdown E cfg ticks (send (stop_pending 0 5000) s)
         in leave (exit_process 0 (process s1)) s1)
      else s)"

text \<open>\<open>case <-restartAt\<close>. A failed start ends the process inside \<open>startPostgres\<close>, before \<open>Execute\<close> can return.\<close>

definition service_restart :: "env \<Rightarrow> config \<Rightarrow> service \<Rightarrow> service" where
  "service_restart E cfg s =
     (let w1 = emit EvRestart ((process s)\<lparr>restartAt := None, restartPending := False\<rparr>)
      in if currentChild w1 \<noteq> None then s\<lparr>process := w1\<rparr>
         else
           (let w2 = w1\<lparr>met := (met w1)\<lparr>postgresRestartsCounter := postgresRestartsCounter (met w1) + 1\<rparr>\<rparr>;
                w3 = startPostgres E cfg (persistState E cfg w2)
            in if proc_exit w3 \<noteq> None \<or> currentChild w3 \<noteq> None then s\<lparr>process := w3\<rparr>
               else leave (exit_process 1 w3) s))"

definition running :: "service \<Rightarrow> bool" where
  "running s \<longleftrightarrow> returned s = None \<and> proc_exit (process s) = None"

inductive service_step :: "env \<Rightarrow> config \<Rightarrow> service \<Rightarrow> service \<Rightarrow> bool" for E cfg where
  other: "running s \<Longrightarrow> background (process s) w' \<Longrightarrow> service_step E cfg s (s\<lparr>process := w'\<rparr>)"
| control: "running s \<Longrightarrow> s' = handle_control E cfg cmd ticks s \<Longrightarrow>
    NewTicker_run serviceStopPendingInterval (now (process s)) (now (process s')) ticks \<Longrightarrow>
    service_step E cfg s s'"
| child_done: "running s \<Longrightarrow> currentChild (process s) = Some p \<Longrightarrow> exit_of (process s) p = Some code \<Longrightarrow>
    service_step E cfg s (leave (handle_crash E cfg p code (process s)) s)"
| restart: "running s \<Longrightarrow> restartAt (process s) = Some t \<Longrightarrow> t \<le> now (process s) \<Longrightarrow>
    service_step E cfg s (service_restart E cfg s)"
| request: "running s \<Longrightarrow> handleHandoverRequest E cfg kind (process s) = (r, w') \<Longrightarrow>
    service_step E cfg s (s\<lparr>process := emit (EvReply kind r) w'\<rparr>)"
| exit_requested: "running s \<Longrightarrow> service_step E cfg s (leave (exit_process code (process s)) s)"

inductive service_run :: "env \<Rightarrow> os \<Rightarrow> (string \<Rightarrow> bool) \<Rightarrow> config \<Rightarrow> service \<Rightarrow> bool" for E sys accepts cfg where
  started: "service_run E sys accepts cfg (Execute_start E sys accepts cfg (boot_world t d f bs))"
| stepped: "service_run E sys accepts cfg s \<Longrightarrow> service_step E cfg s s' \<Longrightarrow> service_run E sys accepts cfg s'"

section \<open>The same loop\<close>

lemma send_simps [simp]:
  "process (send st s) = process s" "returned (send st s) = returned s"
  "sent (send st s) = sent s @ [(now (process s), st)]"
  by (simp_all add: send_def)

lemma leave_simps [simp]:
  "process (leave w s) = w"
  "returned (leave w s) = (case proc_exit w of None \<Rightarrow> returned s | Some code \<Rightarrow> Some (False, word_of_int code))"
  "sent (leave w s) = sent s @ (case proc_exit w of None \<Rightarrow> [] | Some _ \<Rightarrow> [(now w, svc_Status Stopped)])"
  by (simp_all add: leave_def split: option.splits)

lemma child_only_handleTerminationSignal [simp, intro]:
  "child_only w (snd (handleTerminationSignal E cfg sig w))"
proof (cases "currentChild w")
  case None
  then show ?thesis by (simp add: handleTerminationSignal_def)
next
  case (Some p)
  have force: "child_only w (stop_or_force E cfg p sig (r, v))" if "child_only w v" for r v
    using that child_only_trans [OF child_only_coordinateHandover child_only_steps(3)] child_only_trans
    by (cases r) (auto simp: stop_or_force_def)
  obtain r v where "coordinateReboot E cfg p sig w = (r, v)" by (rule prod.exhaust)
  moreover obtain r' v' where "coordinateHandover E cfg p sig (ShutdownPolicy cfg) w = (r', v')"
    by (rule prod.exhaust)
  ultimately show ?thesis
    using Some force reboot_stop.frame handover_stop.frame by (simp add: handleTerminationSignal_def)
qed

lemma service_restart_process [simp]:
  "process (service_restart E cfg s) = handle_restart E cfg (process s)"
  by (auto simp: service_restart_def handle_restart_def Let_def exit_process_def)

lemma service_restart_returned:
  assumes "running s"
  shows "returned (service_restart E cfg s) = None \<or>
    (\<exists>code. proc_exit (handle_restart E cfg (process s)) = Some code \<and>
       returned (service_restart E cfg s) = Some (False, word_of_int code))"
  using assms unfolding service_restart_def handle_restart_def running_def Let_def
  by (auto simp: exit_process_def)

definition stopping :: "env \<Rightarrow> config \<Rightarrow> ticker_event list \<Rightarrow> service \<Rightarrow> service" where
  "stopping E cfg ticks s = waitForShutdown E cfg ticks (send (stop_pending 0 5000) s)"

lemma stopping_simps:
  "process (stopping E cfg ticks s) = snd (handleTerminationSignal E cfg shutdownSignal (process s))"
  "returned (stopping E cfg ticks s) = returned s"
  "sent (stopping E cfg ticks s) = sent s @ (now (process s), stop_pending 0 5000) # checkpoints 0 (taken ticks)"
  by (simp_all add: stopping_def waitForShutdown_def)

lemma handle_control_stop:
  assumes "cmd \<in> {Stop, Shutdown, PreShutdown}"
  shows "handle_control E cfg cmd ticks s =
    leave (exit_process 0 (snd (handleTerminationSignal E cfg shutdownSignal (process s)))) (stopping E cfg ticks s)"
proof -
  have "handle_control E cfg cmd ticks s = leave (exit_process 0 (process (stopping E cfg ticks s))) (stopping E cfg ticks s)"
    using assms by (auto simp: handle_control_def stopping_def Let_def)
  then show ?thesis by (simp only: stopping_simps(1))
qed

lemma handle_control_other:
  "cmd \<notin> {Stop, Shutdown, PreShutdown} \<Longrightarrow>
   handle_control E cfg cmd ticks s = (if cmd = Interrogate then send (snd (last (sent s))) s else s)"
  by (simp add: handle_control_def)

text \<open>What is reported when \<open>Execute\<close> returns, against the loop of the interactive process.\<close>

definition returns_as_loop :: "env \<Rightarrow> config \<Rightarrow> world \<Rightarrow> 32 word \<Rightarrow> bool" where
  "returns_as_loop E cfg w code \<longleftrightarrow>
     (\<exists>c. proc_exit w = Some c \<and> code = word_of_int c \<and> reachable E cfg w) \<or>
     (\<exists>v. ShutdownMode cfg = ''reboot'' \<and> code = 0 \<and> proc_exit v = None \<and>
        w = exit_process 0 v \<and> reachable E cfg (exit_process exitCodeSwitchoverRestart v))"

text \<open>Ended by \<open>logFatal\<close> before anything was done: \<open>Execute\<close> cannot return then.\<close>

definition ended_at_start :: "world \<Rightarrow> bool" where
  "ended_at_start w \<longleftrightarrow> proc_exit w = Some 1 \<and> trace w = [EvExit 1] \<and> next_pid w = 0"

definition follows_loop :: "env \<Rightarrow> config \<Rightarrow> service \<Rightarrow> bool" where
  "follows_loop E cfg s \<longleftrightarrow>
     (case returned s of
        None \<Rightarrow> reachable E cfg (process s) \<or> ended_at_start (process s)
      | Some (specific, code) \<Rightarrow> \<not> specific \<and>
          (code = 1 \<and> trace (process s) = [] \<and> next_pid (process s) = 0 \<or>
           returns_as_loop E cfg (process s) code))"

lemma leave_follows:
  assumes "running s" and "reachable E cfg w"
  shows "follows_loop E cfg (leave w s)"
  using assms by (cases "proc_exit w") (simp_all add: follows_loop_def returns_as_loop_def running_def)

lemma stopped_follows:
  assumes "running s" and "reachable E cfg (process s)"
  shows "follows_loop E cfg (leave (exit_process 0 (snd (handleTerminationSignal E cfg sig (process s)))) s')"
proof -
  obtain code w' where h: "handleTerminationSignal E cfg sig (process s) = (code, w')" by (rule prod.exhaust)
  have n: "proc_exit w' = None"
    using child_onlyD(7) [OF child_only_handleTerminationSignal [of "process s" E cfg sig]] assms(1) h
    by (simp add: running_def)
  have "reachable E cfg (exit_process code w')"
    using assms loop_step.signalled [of "process s" E cfg sig code w', OF _ h] reachable.step
    by (auto simp: running_def)
  moreover have "code = 0 \<or> code = exitCodeSwitchoverRestart \<and> ShutdownMode cfg = ''reboot''"
    using h by (auto simp: handleTerminationSignal_def split: option.splits if_splits)
  ultimately show ?thesis
    using n h by (auto simp: follows_loop_def returns_as_loop_def exit_process_def split: option.splits)
qed

lemma started_follows: "follows_loop E cfg (Execute_start E sys accepts cfg (boot_world t d f bs))"
  using reachable.boot [of E cfg t d f bs]
  by (auto simp: Execute_start_def Execute_refused_def follows_loop_def boot_world_fields Let_def
      ended_at_start_def exit_process_def initPersistentState_leaves split: sum.split)

lemma follows_loop_step:
  assumes "service_step E cfg s s'" and "follows_loop E cfg s"
  shows "follows_loop E cfg s'"
proof -
  have run: "running s" using assms(1) by (cases rule: service_step.cases) auto
  then have reach: "reachable E cfg (process s)" and up: "proc_exit (process s) = None"
    using assms(2) by (simp_all add: follows_loop_def running_def ended_at_start_def)
  have keeps: "follows_loop E cfg u" if "returned u = None" "loop_step E cfg (process s) (process u)" for u
    using that reachable.step [OF reach] by (simp add: follows_loop_def)
  show ?thesis
    using assms(1)
  proof (cases rule: service_step.cases)
    case (other w')
    with keeps loop_step.other [OF up] show ?thesis by (simp add: running_def)
  next
    case (control cmd ticks)
    consider "cmd \<in> {Stop, Shutdown, PreShutdown}" | "process s' = process s" "returned s' = None"
      using control(2) run handle_control_other [of cmd E cfg ticks s]
      by (cases "cmd \<in> {Stop, Shutdown, PreShutdown}") (simp_all add: running_def split: if_splits)
    then show ?thesis
    proof cases
      case 1
      show ?thesis
        unfolding control(2) handle_control_stop [OF 1] by (rule stopped_follows [OF run reach])
    next
      case 2
      with reach show ?thesis by (simp add: follows_loop_def)
    qed
  next
    case (child_done p code)
    with leave_follows [OF run reachable.step [OF reach loop_step.child_done [OF up]]] show ?thesis by simp
  next
    case (restart t)
    have "reachable E cfg (handle_restart E cfg (process s))"
      using reachable.step [OF reach loop_step.restart [OF up restart(3,4)]] .
    with service_restart_returned [OF run, of E cfg] show ?thesis
      unfolding restart(1) by (auto simp: follows_loop_def returns_as_loop_def)
  next
    case (request kind r w')
    with keeps loop_step.request [OF up request(3)] show ?thesis by (simp add: running_def)
  next
    case (exit_requested code)
    with leave_follows [OF run reachable.step [OF reach loop_step.exit_requested [OF up]]] show ?thesis by simp
  qed
qed

lemma follows_loop_run: "service_run E sys accepts cfg s \<Longrightarrow> follows_loop E cfg s"
  by (induction rule: service_run.induct) (rule started_follows, rule follows_loop_step)

section \<open>What the manager is told\<close>

text \<open>
  The statuses of a service in order: \<open>StartPending\<close>, any number of \<open>Running\<close>, and after a request to
  stop the checkpoints. \<open>Stopped\<close> closes the list when \<open>Execute\<close> has returned.
\<close>

definition running_status :: svc_status where
  "running_status = (svc_Status Running)\<lparr>Accepts := [Stop, Shutdown, PreShutdown]\<rparr>"

definition told :: "service \<Rightarrow> nat \<Rightarrow> gotime list \<Rightarrow> bool" where
  "told s n stops \<longleftrightarrow>
     map snd (sent s) = svc_Status StartPending # replicate n running_status @
       map (\<lambda>i. stop_pending (of_nat i) (if i = 0 then 5000 else 2000)) [0..<length stops] @
       (if returned s = None then [] else [svc_Status Stopped]) \<and>
     map fst (filter (\<lambda>x. State (snd x) = StopPending) (sent s)) = stops \<and>
     (\<forall>i < length stops. stops ! 0 + int i * serviceStopPendingInterval \<le> stops ! i) \<and>
     (stops \<noteq> [] \<longrightarrow> returned s = Some (False, 0))"

lemma svc_Status_State [simp]: "State (svc_Status st) = st"
  by (simp add: svc_Status_def)

lemma upt_from_zero: "[0..<Suc n] = 0 # map Suc [0..<n]"
  by (simp add: map_Suc_upt upt_rec [of 0 "Suc n"] del: upt_Suc)

lemma checkpoint_statuses:
  "map snd (checkpoints k ts) = map (\<lambda>i. stop_pending (k + 1 + of_nat i) 2000) [0..<length ts]"
proof (induction ts arbitrary: k)
  case (Cons t ts)
  have "[0..<length (t # ts)] = 0 # map Suc [0..<length ts]" by (simp add: upt_from_zero del: upt_Suc)
  then show ?case by (simp add: Cons comp_def add_ac del: upt_Suc)
qed simp

lemma checkpoint_times: "map fst (filter (\<lambda>x. State (snd x) = StopPending) (checkpoints k ts)) = ts"
  by (induction k ts rule: checkpoints.induct) (simp_all add: stop_pending_def)

text \<open>A tick is taken once, and no tick is due before its place on the grid.\<close>

lemma ticker_next:
  assumes "0 < (d::int)" and "due \<le> t"
  shows "due + d \<le> due + d * (1 + (t - due) div d)"
proof -
  have "0 \<le> (t - due) div d" using assms by (simp add: pos_imp_zdiv_nonneg_iff)
  then show ?thesis using assms(1) by (simp add: algebra_simps)
qed

lemma ticker_run_paced:
  assumes "ticker_run d due full latest until es" and "0 < d"
    and "from + d \<le> due" and "full \<longrightarrow> from + 2 * d \<le> due \<and> from + d \<le> latest"
    and "i < length (taken es)"
  shows "from + (int i + 1) * d \<le> taken es ! i"
  using assms
proof (induction d due full latest until es arbitrary: "from" i rule: ticker_run.induct)
  case (2 d due full latest until t es)
  have run: "due \<le> t" "ticker_run d (due + d * (1 + (t - due) div d)) True t until es"
    using 2(2) by simp_all
  define due' where "due' = due + d * (1 + (t - due) div d)"
  have "due + d \<le> due'" unfolding due'_def by (rule ticker_next [OF 2(3) run(1)])
  then have grid: "from + d \<le> due'" "True \<longrightarrow> from + 2 * d \<le> due' \<and> from + d \<le> t"
    using run(1) 2(3,4) by auto
  have "i < length (taken es)" using 2(6) by simp
  from 2(1) [OF run(2) 2(3) grid [unfolded due'_def] this] show ?case by simp
next
  case (3 d due full latest until t es)
  show ?case
  proof (cases i)
    case 0
    with 3(2,3,5) show ?thesis by simp
  next
    case (Suc j)
    with 3(2-6) have "from + d + (int j + 1) * d \<le> taken es ! j"
      by (intro 3(1) [of "from + d" j]) auto
    with Suc show ?thesis by (simp add: algebra_simps)
  qed
qed simp

lemma ticks_paced:
  assumes "NewTicker_run d began until es" and "0 < d" and "i < length (began # taken es)"
  shows "(began # taken es) ! 0 + int i * d \<le> (began # taken es) ! i"
proof (cases i)
  case (Suc j)
  with assms ticker_run_paced [of d "began + d" False began until es began j]
  show ?thesis by (simp add: NewTicker_run_def algebra_simps)
qed simp

lemma told_process [simp]: "told (s\<lparr>process := w\<rparr>) n stops = told s n stops"
  by (simp add: told_def)

lemma told_leave:
  assumes "told s n []" and "running s"
  shows "told (leave w s) n []"
  using assms by (cases "proc_exit w") (simp_all add: told_def running_def)

lemma told_restart:
  assumes "told s n []" and "running s"
  shows "told (service_restart E cfg s) n []"
  using told_leave [OF assms] assms(1) by (simp add: service_restart_def Let_def)

lemma told_again:
  assumes "told s n []" and "0 < n" and "running s"
  shows "told (send (snd (last (sent s))) s) (Suc n) []"
proof -
  have m: "map snd (sent s) = svc_Status StartPending # replicate n running_status"
    using assms(1,3) by (simp add: told_def running_def)
  then have "sent s \<noteq> []" by auto
  then have "snd (last (sent s)) = last (map snd (sent s))" by (simp add: last_map)
  also have "\<dots> = running_status" unfolding m using assms(2) by simp
  finally show ?thesis
    using assms(1,3) by (simp add: told_def running_def running_status_def replicate_append_same)
qed

lemma told_stopped:
  assumes "told s n []" and "running s" and "cmd \<in> {Stop, Shutdown, PreShutdown}"
    and "NewTicker_run serviceStopPendingInterval (now (process s))
      (now (process (handle_control E cfg cmd ticks s))) ticks"
  shows "told (handle_control E cfg cmd ticks s) n (now (process s) # taken ticks)"
proof -
  define w where "w = snd (handleTerminationSignal E cfg shutdownSignal (process s))"
  have "child_only (process s) w" by (simp add: w_def)
  with assms(2) have n: "proc_exit w = None" by (simp add: child_onlyD(7) running_def)
  define s' where "s' = handle_control E cfg cmd ticks s"
  have s': "s' = leave (exit_process 0 w) (stopping E cfg ticks s)"
    unfolding s'_def w_def by (rule handle_control_stop [OF assms(3)])
  have r: "returned s' = Some (False, 0)" using n by (simp add: s' exit_process_def)
  have l: "sent s' = sent s @ (now (process s), stop_pending 0 5000) # checkpoints 0 (taken ticks) @ [(now w, svc_Status Stopped)]"
    using n by (simp add: s' exit_process_def stopping_simps(3))
  have "map (\<lambda>i. stop_pending (of_nat i) (if i = 0 then 5000 else 2000)) [0..<length (now (process s) # taken ticks)] =
      stop_pending 0 5000 # map snd (checkpoints 0 (taken ticks))"
    by (simp add: upt_from_zero checkpoint_statuses comp_def del: upt_Suc)
  moreover have "map snd (sent s) = svc_Status StartPending # replicate n running_status"
    "filter (\<lambda>x. State (snd x) = StopPending) (sent s) = []"
    using assms(1,2) by (simp_all add: told_def running_def)
  moreover have "State (stop_pending 0 5000) = StopPending" by (simp add: stop_pending_def)
  ultimately show ?thesis
    using ticks_paced [OF assms(4)] r l checkpoint_times [of 0 "taken ticks"]
    unfolding told_def s'_def [symmetric] by (simp add: serviceStopPendingInterval_def time_units)
qed

lemma told_started: "\<exists>n. told (Execute_start E sys accepts cfg w) n [] \<and>
    (running (Execute_start E sys accepts cfg w) \<longrightarrow> 0 < n)"
proof -
  define s where "s = send (svc_Status StartPending) \<lparr>process = w, sent = [], returned = None\<rparr>"
  have zero: "told (Execute_refused s) 0 []" "told (s\<lparr>process := v\<rparr>) 0 []" for v
    by (simp_all add: told_def s_def Execute_refused_def)
  have one: "told (send running_status (s\<lparr>process := v\<rparr>)) 1 []" for v
    by (simp add: told_def s_def running_status_def)
  have refused: "\<not> running (Execute_refused s)" by (simp add: running_def Execute_refused_def)
  define w0 where "w0 = initPersistentState E cfg w"
  define w1 where "w1 = first_start E cfg w0"
  consider "Execute_start E sys accepts cfg w = Execute_refused s"
    | "Execute_start E sys accepts cfg w = s\<lparr>process := exit_process 1 w0\<rparr>"
    | "Execute_start E sys accepts cfg w = s\<lparr>process := w1\<rparr>" "proc_exit w1 \<noteq> None"
    | "Execute_start E sys accepts cfg w = send running_status (s\<lparr>process := w1\<rparr>)"
    unfolding Execute_start_def s_def [symmetric] w0_def [symmetric] w1_def [symmetric]
      running_status_def Let_def
    by (cases "initPeerHTTPClients sys cfg w"; cases "accepts (maintenanceConnString cfg)";
        cases "startAPIServer sys cfg w0"; cases "proc_exit w1") simp_all
  then show ?thesis
  proof cases
    case 1
    with zero refused show ?thesis by metis
  next
    case 2
    moreover have "\<not> running (s\<lparr>process := exit_process 1 w0\<rparr>)"
      by (simp add: running_def exit_process_def)
    ultimately show ?thesis using zero by metis
  next
    case 3
    then have "\<not> running (s\<lparr>process := w1\<rparr>)" by (simp add: running_def)
    with 3(1) zero show ?thesis by metis
  next
    case 4
    with one show ?thesis by (metis less_numeral_extra(1))
  qed
qed

lemma told_step:
  assumes "service_step E cfg s s'" and "told s n []" and "0 < n"
  shows "\<exists>n' stops. told s' n' stops \<and> 0 < n' \<and> (running s' \<longrightarrow> stops = [])"
proof -
  have run: "running s" using assms(1) by (cases rule: service_step.cases) auto
  have same: ?thesis if "told s' n []" using that assms(3) by blast
  show ?thesis
    using assms(1)
  proof (cases rule: service_step.cases)
    case (other w')
    with assms(2) same show ?thesis by simp
  next
    case (control cmd ticks)
    consider "cmd \<in> {Stop, Shutdown, PreShutdown}" | "s' = send (snd (last (sent s))) s" | "s' = s"
      using control(2) handle_control_other [of cmd E cfg ticks s]
      by (cases "cmd \<in> {Stop, Shutdown, PreShutdown}") (simp_all split: if_splits)
    then show ?thesis
    proof cases
      case 1
      from told_stopped [OF assms(2) run 1 control(3) [unfolded control(2)]] assms(3) show ?thesis
        unfolding control(2) by (auto simp: running_def told_def)
    next
      case 2
      with told_again [OF assms(2,3) run] show ?thesis by auto
    next
      case 3
      with assms(2) same show ?thesis by simp
    qed
  next
    case (child_done p code)
    with told_leave [OF assms(2) run] same show ?thesis by simp
  next
    case (restart t)
    with told_restart [OF assms(2) run] same show ?thesis by simp
  next
    case (request kind r w')
    with assms(2) same show ?thesis by simp
  next
    case (exit_requested code)
    with told_leave [OF assms(2) run] same show ?thesis by simp
  qed
qed

lemma told_run:
  assumes "service_run E sys accepts cfg s"
  shows "\<exists>n stops. told s n stops \<and> (running s \<longrightarrow> stops = [] \<and> 0 < n)"
  using assms
proof (induction rule: service_run.induct)
  case (started t d f bs)
  then show ?case using told_started by blast
next
  case (stepped s s')
  have "running s" using stepped(2) by (cases rule: service_step.cases) auto
  with stepped told_step show ?case by blast
qed

section \<open>Properties\<close>

text \<open>
  C38. The service runs the main loop of the interactive process: as long as \<open>Execute\<close> has not returned
  its process is in a state that loop reaches, so every guarantee of the loop holds for the service,
  or it was ended with status 1 before it called the peer, ran a tool or started a server.
  It returns either because it was refused the start, with code 1 and as little done, or with the code
  the interactive process would have exited with; only a planned reboot, whose sentinel 78 would make
  a container restart, is reported as 0. A request to stop always ends with 0 and no record of a server;
  every server has then exited or a kill was delivered to it, but for the one that was running if the
  kernel refused to kill it (\<open>kill_refused\<close>).
\<close>

theorem service_follows_the_loop:
  assumes "service_run E sys accepts cfg s"
  shows "(returned s = None \<longrightarrow> reachable E cfg (process s) \<or>
      proc_exit (process s) = Some 1 \<and> trace (process s) = [EvExit 1] \<and> next_pid (process s) = 0) \<and>
    (\<forall>specific code. returned s = Some (specific, code) \<longrightarrow> \<not> specific \<and>
      (code = 1 \<and> trace (process s) = [] \<and> next_pid (process s) = 0 \<or>
       (\<exists>c. proc_exit (process s) = Some c \<and> code = word_of_int c \<and> reachable E cfg (process s)) \<or>
       (\<exists>v. ShutdownMode cfg = ''reboot'' \<and> code = 0 \<and> process s = exit_process 0 v \<and>
          reachable E cfg (exit_process 78 v)))) \<and>
    (running s \<and> cmd \<in> {Stop, Shutdown, PreShutdown} \<longrightarrow>
      returned (handle_control E cfg cmd ticks s) = Some (False, 0) \<and>
      cleared (process (handle_control E cfg cmd ticks s)) \<and>
      (\<forall>p < next_pid (process s). gone (process (handle_control E cfg cmd ticks s)) p \<or>
         kill_refused (process s) (process (handle_control E cfg cmd ticks s)) p))"
proof -
  have f: "follows_loop E cfg s" by (rule follows_loop_run [OF assms])
  have "returned (handle_control E cfg cmd ticks s) = Some (False, 0) \<and>
      cleared (process (handle_control E cfg cmd ticks s)) \<and>
      (\<forall>p < next_pid (process s). gone (process (handle_control E cfg cmd ticks s)) p \<or>
         kill_refused (process s) (process (handle_control E cfg cmd ticks s)) p)"
    if "running s" "cmd \<in> {Stop, Shutdown, PreShutdown}"
  proof -
    obtain code w where h: "handleTerminationSignal E cfg shutdownSignal (process s) = (code, w)"
      by (rule prod.exhaust)
    have "reachable E cfg (process s)" using f that(1) by (simp add: follows_loop_def running_def ended_at_start_def)
    from handleTerminationSignal_effect [OF h loop_inv_reachable [OF this]] that(1)
    have e: "cleared w" "later (process s) w"
      "\<forall>p < next_pid (process s). gone w p \<or> kill_refused (process s) w p"
      by (simp_all add: running_def)
    moreover have "proc_exit w = None"
      using child_onlyD(7) [OF child_only_handleTerminationSignal [of "process s" E cfg shutdownSignal]] that(1) h
      by (simp add: running_def)
    ultimately show ?thesis
      unfolding handle_control_stop [OF that(2)] h
      by (auto simp: exit_process_def cleared_def gone_def kill_refused_def fresh_events_def)
  qed
  with f show ?thesis
    by (auto simp: follows_loop_def returns_as_loop_def ended_at_start_def exitCodeSwitchoverRestart_def)
qed

text \<open>
  C39. What the manager is told is true and in order: \<open>StartPending\<close> once, \<open>Running\<close> with the three
  controls accepted once the loop is entered (and again for every interrogation), and after a request to
  stop \<open>StopPending\<close> with the checkpoints 0, 1, 2, and so on. \<open>Stopped\<close> is the last thing said, exactly when
  \<open>Execute\<close> has returned. Checkpoint \<open>i\<close> comes no earlier than 2\<open>i\<close> seconds after the request, so they are
  never more than one for every two seconds since then; two that follow a late one may be closer.
\<close>

theorem manager_is_told_in_order:
  assumes "service_run E sys accepts cfg s"
  shows "\<exists>n stops. map snd (sent s) = svc_Status StartPending # replicate n running_status @
      map (\<lambda>i. stop_pending (of_nat i) (if i = 0 then 5000 else 2000)) [0..<length stops] @
      (if returned s = None then [] else [svc_Status Stopped]) \<and>
    map fst (filter (\<lambda>x. State (snd x) = StopPending) (sent s)) = stops \<and>
    (\<forall>i < length stops. stops ! 0 + int i * (2 * second) \<le> stops ! i) \<and>
    (stops \<noteq> [] \<longrightarrow> returned s = Some (False, 0)) \<and> (running s \<longrightarrow> stops = [] \<and> 0 < n)"
  using told_run [OF assms] by (auto simp: told_def serviceStopPendingInterval_def)

section \<open>Witnesses\<close>

text \<open>A standby on Windows whose server does not stop in time, so that the handler takes the full five minutes.\<close>

definition windows_env :: env where
  "windows_env = cloning\<lparr>on_windows := True\<rparr>"

definition serving :: service where
  "serving = Execute_start windows_env (plain_os ''pg-0'') (\<lambda>_. True) demo_config (boot_world 0 standby_data (\<lambda>_. None) [])"

lemma serving_run: "service_run windows_env (plain_os ''pg-0'') (\<lambda>_. True) demo_config serving"
  unfolding serving_def by (rule service_run.started)

lemma serving_eval:
  "proc_exit (process serving) = None" "returned serving = None" "now (process serving) = 0"
  "currentChild (process serving) = Some 0" "sup_proc (process serving) = Some 0"
  "exit_of (process serving) 0 = None" "next_pid (process serving) = 1"
  by (simp_all add: serving_def Execute_start_def initPeerHTTPClients_def buildClientTLSConfig_def startAPIServer_def first_start_def boot_world_empty
      windows_env_def evals standby_data_def initPersistentState_def
      ensureRoleAndDatabaseBlocking_def ensure_loop.simps ensure_turn_def ensureRoleAndDatabase_def cloning_def)

definition stopped :: service where
  "stopped = handle_control windows_env demo_config PreShutdown [] serving"

lemma serving_up: "running serving"
  by (simp add: running_def serving_eval)

lemma stopped_run: "service_run windows_env (plain_os ''pg-0'') (\<lambda>_. True) demo_config stopped"
  by (rule service_run.stepped [OF serving_run], rule service_step.control [OF serving_up stopped_def])
    (simp add: NewTicker_run_def)

theorem service_follows_the_loop_witness:
  "returned stopped = Some (False, 0) \<and> cleared (process stopped) \<and>
   (gone (process stopped) 0 \<or> kill_refused (process serving) (process stopped) 0)"
  using service_follows_the_loop [OF serving_run, of PreShutdown "[]"] serving_up
  by (simp add: stopped_def serving_eval)

theorem manager_is_told_in_order_witness:
  "map snd (sent serving) = [svc_Status StartPending, running_status] \<and> returned stopped \<noteq> None \<and>
   snd (last (sent stopped)) = svc_Status Stopped"
proof -
  have sent: "map snd (sent serving) = [svc_Status StartPending, running_status]"
    by (simp add: serving_def Execute_start_def initPeerHTTPClients_def buildClientTLSConfig_def startAPIServer_def first_start_def boot_world_empty
        windows_env_def evals standby_data_def initPersistentState_def running_status_def
        ensureRoleAndDatabaseBlocking_def ensure_loop.simps ensure_turn_def ensureRoleAndDatabase_def cloning_def)
  have "child_only (process serving) (snd (handleTerminationSignal windows_env demo_config shutdownSignal (process serving)))"
    by simp
  from child_onlyD(7) [OF this] have "returned stopped = Some (False, 0)"
    unfolding stopped_def handle_control_stop [of PreShutdown, simplified]
    by (simp add: exit_process_def serving_eval)
  then have "returned stopped \<noteq> None" by simp
  with manager_is_told_in_order [OF stopped_run]
  have "last (map snd (sent stopped)) = svc_Status Stopped" "map snd (sent stopped) \<noteq> []"
    by (elim exE conjE, simp)+
  then have "snd (last (sent stopped)) = svc_Status Stopped" by (cases "sent stopped" rule: rev_cases) simp_all
  with sent \<open>returned stopped \<noteq> None\<close> show ?thesis by blast
qed

end
