(* ===== verification/Reaper.thy ===== *)
theory Reaper
  imports Prelude
begin

text \<open>
  \<open>src/src/reaper_linux.go\<close>: the one place that waits for child processes. The goroutines that use it
  (the reaper itself, any number of \<open>trackChild\<close> calls, the receivers of exit codes) and the kernel
  are the actors of a step relation; the mutex has one holder at a time, and what the source does
  while it holds it may be interleaved with any step of the kernel.

  Process numbers may be used again once a process was collected, so each process also has a serial
  number of its own; serial numbers, how each process ended and the list of received codes are ghosts
  that no operation of the source reads.
\<close>

section \<open>State\<close>

datatype wait_status = Exited int | Signaled int

datatype process = Running | Zombie wait_status

datatype holder = Free | Tracking | Started nat | Reaping

record reaper =
  waiters :: "nat \<Rightarrow> nat option"
  chan :: "nat \<Rightarrow> int option"
  chans :: nat
  mu :: holder
  sigchld :: bool
  procs :: "nat \<Rightarrow> (nat \<times> process) option"
  born :: nat
  serial_of :: "nat \<Rightarrow> nat"
  ended :: "nat \<Rightarrow> wait_status option"
  taken :: "(nat \<times> int) list"

text \<open>\<open>startReaper\<close>: the first pass of the reaper needs no signal.\<close>

definition startReaper :: reaper where
  "startReaper = \<lparr>waiters = Map.empty, chan = Map.empty, chans = 0, mu = Free, sigchld = True,
     procs = Map.empty, born = 0, serial_of = (\<lambda>_. 0), ended = Map.empty, taken = []\<rparr>"

text \<open>The code that is delivered: the exit status, or 128 and the number of the signal.\<close>

fun exit_code :: "wait_status \<Rightarrow> int" where
  "exit_code (Exited c) = c"
| "exit_code (Signaled s) = 128 + s"

section \<open>Operations\<close>

text \<open>
  The channels have room for one code; a code that finds no room is dropped. \<open>collect p\<close> is one turn
  of the loop of \<open>reap\<close>, for the process \<open>Wait4\<close> returned.
\<close>

definition offer :: "nat \<Rightarrow> int \<Rightarrow> reaper \<Rightarrow> reaper" where
  "offer ch c s = (if chan s ch = None then s\<lparr>chan := (chan s)(ch \<mapsto> c)\<rparr> else s)"

definition collect :: "nat \<Rightarrow> wait_status \<Rightarrow> reaper \<Rightarrow> reaper" where
  "collect p st s =
     (let s1 = s\<lparr>procs := (procs s)(p := None)\<rparr>
      in case waiters s1 p of
           Some ch \<Rightarrow> offer ch (exit_code st) (s1\<lparr>waiters := (waiters s1)(p := None)\<rparr>)
         | None \<Rightarrow> s1)"

text \<open>The start of a command, under the lock, and the registration of its channel.\<close>

definition spawn :: "nat \<Rightarrow> reaper \<Rightarrow> reaper" where
  "spawn p s = s\<lparr>procs := (procs s)(p \<mapsto> (born s, Running)), born := Suc (born s)\<rparr>"

definition register :: "nat \<Rightarrow> nat \<Rightarrow> reaper \<Rightarrow> reaper" where
  "register p i s = s\<lparr>waiters := (waiters s)(p \<mapsto> chans s), chan := (chan s)(chans s := None),
     serial_of := (serial_of s)(chans s := i), chans := Suc (chans s)\<rparr>"

definition zombie :: "reaper \<Rightarrow> nat \<Rightarrow> wait_status \<Rightarrow> bool" where
  "zombie s p st \<longleftrightarrow> (\<exists>i. procs s p = Some (i, Zombie st))"

inductive reaper_step :: "reaper \<Rightarrow> reaper \<Rightarrow> bool" where
  track_lock: "mu s = Free \<Longrightarrow> reaper_step s (s\<lparr>mu := Tracking\<rparr>)"
| start_failed: "mu s = Tracking \<Longrightarrow> reaper_step s (s\<lparr>mu := Free\<rparr>)"
| started: "mu s = Tracking \<Longrightarrow> procs s p = None \<Longrightarrow> reaper_step s ((spawn p s)\<lparr>mu := Started p\<rparr>)"
| registered: "mu s = Started p \<Longrightarrow> procs s p = Some (i, x) \<Longrightarrow>
    reaper_step s ((register p i s)\<lparr>mu := Free\<rparr>)"
| reap_lock: "mu s = Free \<Longrightarrow> sigchld s \<Longrightarrow> reaper_step s (s\<lparr>mu := Reaping, sigchld := False\<rparr>)"
| reap_one: "mu s = Reaping \<Longrightarrow> zombie s p st \<Longrightarrow> reaper_step s (collect p st s)"
| reap_unlock: "mu s = Reaping \<Longrightarrow> \<forall>p st. \<not> zombie s p st \<Longrightarrow> reaper_step s (s\<lparr>mu := Free\<rparr>)"
| received: "chan s ch = Some c \<Longrightarrow>
    reaper_step s (s\<lparr>chan := (chan s)(ch := None), taken := taken s @ [(ch, c)]\<rparr>)"
| process_ends: "procs s p = Some (i, Running) \<Longrightarrow>
    reaper_step s (s\<lparr>procs := (procs s)(p \<mapsto> (i, Zombie st)), ended := (ended s)(i \<mapsto> st), sigchld := True\<rparr>)"
| adopted: "procs s p = None \<Longrightarrow> reaper_step s (spawn p s)"

inductive running_reaper :: "reaper \<Rightarrow> bool" where
  init: "running_reaper startReaper"
| step: "running_reaper s \<Longrightarrow> reaper_step s s' \<Longrightarrow> running_reaper s'"

inductive_cases reaper_stepE: "reaper_step s s'"

text \<open>A whole pass over the processes that have ended, in the order the kernel yields them.\<close>

definition reap :: "(nat \<times> wait_status) list \<Rightarrow> reaper \<Rightarrow> reaper" where
  "reap ps s = (fold (\<lambda>(p, st). collect p st) ps (s\<lparr>mu := Reaping, sigchld := False\<rparr>))\<lparr>mu := Free\<rparr>"

section \<open>Invariant\<close>

definition processes_ok :: "reaper \<Rightarrow> bool" where
  "processes_ok s \<longleftrightarrow>
     (\<forall>p i x. procs s p = Some (i, x) \<longrightarrow> i < born s \<and>
        ended s i = (case x of Running \<Rightarrow> None | Zombie st \<Rightarrow> Some st)) \<and>
     (\<forall>i. born s \<le> i \<longrightarrow> ended s i = None) \<and>
     (\<forall>p q i x y. procs s p = Some (i, x) \<longrightarrow> procs s q = Some (i, y) \<longrightarrow> p = q)"

definition deliveries :: "reaper \<Rightarrow> nat \<Rightarrow> int list" where
  "deliveries s ch = (case chan s ch of None \<Rightarrow> [] | Some c \<Rightarrow> [c]) @
     map snd (filter (\<lambda>d. fst d = ch) (taken s))"

text \<open>A channel either still waits for its process or has had the code of its process, once.\<close>

definition waiting :: "reaper \<Rightarrow> nat \<Rightarrow> bool" where
  "waiting s ch \<longleftrightarrow> (\<exists>p x. waiters s p = Some ch \<and> procs s p = Some (serial_of s ch, x)) \<and> deliveries s ch = []"

definition settled :: "reaper \<Rightarrow> nat \<Rightarrow> bool" where
  "settled s ch \<longleftrightarrow> (\<forall>p x. procs s p \<noteq> Some (serial_of s ch, x)) \<and>
     (\<exists>st. ended s (serial_of s ch) = Some st \<and> deliveries s ch = [exit_code st])"

definition channels_ok :: "reaper \<Rightarrow> bool" where
  "channels_ok s \<longleftrightarrow>
     (\<forall>ch < chans s. serial_of s ch < born s \<and> (waiting s ch \<or> settled s ch)) \<and>
     (\<forall>p ch. waiters s p = Some ch \<longrightarrow> ch < chans s \<and> (\<exists>x. procs s p = Some (serial_of s ch, x))) \<and>
     (\<forall>ch. chans s \<le> ch \<longrightarrow> deliveries s ch = []) \<and>
     inj_on (serial_of s) {..< chans s}"

definition lock_ok :: "reaper \<Rightarrow> bool" where
  "lock_ok s \<longleftrightarrow>
     (\<forall>p. mu s = Started p \<longrightarrow> waiters s p = None \<and>
        (\<exists>i x. procs s p = Some (i, x) \<and> (\<forall>ch < chans s. serial_of s ch \<noteq> i))) \<and>
     (mu s \<noteq> Reaping \<longrightarrow> (\<exists>p st. zombie s p st) \<longrightarrow> sigchld s)"

definition reaper_inv :: "reaper \<Rightarrow> bool" where
  "reaper_inv s \<longleftrightarrow> processes_ok s \<and> channels_ok s \<and> lock_ok s"

lemma deliveries_simps [simp]:
  "deliveries (s\<lparr>mu := m\<rparr>) ch = deliveries s ch"
  "deliveries (s\<lparr>sigchld := b\<rparr>) ch = deliveries s ch"
  "deliveries (s\<lparr>procs := P\<rparr>) ch = deliveries s ch"
  "deliveries (s\<lparr>born := n\<rparr>) ch = deliveries s ch"
  "deliveries (s\<lparr>ended := e\<rparr>) ch = deliveries s ch"
  "deliveries (s\<lparr>waiters := v\<rparr>) ch = deliveries s ch"
  "deliveries (s\<lparr>serial_of := f\<rparr>) ch = deliveries s ch"
  "deliveries (s\<lparr>chans := n\<rparr>) ch = deliveries s ch"
  by (simp_all add: deliveries_def)

lemma waitingI:
  "waiters s q = Some ch \<Longrightarrow> procs s q = Some (serial_of s ch, x) \<Longrightarrow> deliveries s ch = [] \<Longrightarrow> waiting s ch"
  by (auto simp: waiting_def)

lemma deliveries_None: "deliveries s ch = [] \<Longrightarrow> chan s ch = None"
  by (simp add: deliveries_def split: option.splits)

lemma reaper_inv_init: "reaper_inv startReaper"
  by (simp add: reaper_inv_def startReaper_def processes_ok_def channels_ok_def lock_ok_def zombie_def
      deliveries_def)

lemma waiter_process:
  "reaper_inv s \<Longrightarrow> waiters s p = Some ch \<Longrightarrow> ch < chans s \<and> (\<exists>x. procs s p = Some (serial_of s ch, x))"
  by (simp add: reaper_inv_def channels_ok_def)

lemma free_no_waiter: "reaper_inv s \<Longrightarrow> procs s p = None \<Longrightarrow> waiters s p = None"
  using waiter_process [of s p] by (cases "waiters s p") auto

lemma channel_state:
  "reaper_inv s \<Longrightarrow> ch < chans s \<Longrightarrow> serial_of s ch < born s \<and> (waiting s ch \<or> settled s ch)"
  by (simp add: reaper_inv_def channels_ok_def)

lemma same_process:
  "reaper_inv s \<Longrightarrow> procs s p = Some (i, x) \<Longrightarrow> procs s q = Some (i, y) \<Longrightarrow> p = q"
  unfolding reaper_inv_def processes_ok_def by blast

lemma same_channel:
  "reaper_inv s \<Longrightarrow> ch < chans s \<Longrightarrow> ch' < chans s \<Longrightarrow> serial_of s ch = serial_of s ch' \<Longrightarrow> ch = ch'"
  by (auto simp: reaper_inv_def channels_ok_def inj_on_def)

lemma process_fate:
  "reaper_inv s \<Longrightarrow> procs s p = Some (i, x) \<Longrightarrow>
     i < born s \<and> ended s i = (case x of Running \<Rightarrow> None | Zombie st \<Rightarrow> Some st)"
  by (simp add: reaper_inv_def processes_ok_def)

text \<open>Steps that only move the lock.\<close>

lemma reaper_inv_lock:
  assumes "reaper_inv s" and "m = Free \<or> m = Tracking \<or> m = Reaping"
    and "m \<noteq> Reaping \<Longrightarrow> (\<exists>p st. zombie s p st) \<Longrightarrow> b"
  shows "reaper_inv (s\<lparr>mu := m, sigchld := b\<rparr>)"
  using assms
  by (auto simp: reaper_inv_def processes_ok_def channels_ok_def lock_ok_def zombie_def waiting_def
      settled_def)

lemma reaper_inv_spawn:
  assumes inv: "reaper_inv s" and free: "procs s p = None"
  shows "processes_ok (spawn p s) \<and> channels_ok (spawn p s)"
proof -
  have w: "waiters s p = None"
    using free_no_waiter [OF inv free] .
  have "processes_ok (spawn p s)"
    using inv by (auto simp: reaper_inv_def processes_ok_def spawn_def less_Suc_eq split: if_splits)
  moreover have "waiting (spawn p s) ch \<or> settled (spawn p s) ch" if "ch < chans s" for ch
  proof -
    from channel_state [OF inv that] have born: "serial_of s ch < born s" ..
    from channel_state [OF inv that] show ?thesis
    proof (elim conjE disjE)
      assume "waiting s ch"
      then have "waiting (spawn p s) ch" using free by (auto simp: waiting_def spawn_def)
      then show ?thesis ..
    next
      assume "settled s ch"
      with born have "settled (spawn p s) ch" by (auto simp: settled_def spawn_def)
      then show ?thesis ..
    qed
  qed
  moreover have "\<exists>x. procs (spawn p s) q = Some (serial_of s ch, x)" if "waiters s q = Some ch" for q ch
    using inv that w by (auto simp: reaper_inv_def channels_ok_def spawn_def)
  ultimately show ?thesis
    using inv by (auto simp: reaper_inv_def channels_ok_def spawn_def less_Suc_eq)
qed

lemma reaper_inv_adopted:
  assumes "reaper_inv s" and "procs s p = None"
  shows "reaper_inv (spawn p s)"
proof -
  have "lock_ok (spawn p s)"
    using assms by (auto simp: reaper_inv_def lock_ok_def spawn_def zombie_def split: if_splits)
  with reaper_inv_spawn [OF assms] show ?thesis by (simp add: reaper_inv_def)
qed

lemma reaper_inv_started:
  assumes inv: "reaper_inv s" and "mu s = Tracking" and free: "procs s p = None"
  shows "reaper_inv ((spawn p s)\<lparr>mu := Started p\<rparr>)"
proof -
  have w: "waiters s p = None"
    using free_no_waiter [OF inv free] .
  have "lock_ok ((spawn p s)\<lparr>mu := Started p\<rparr>)"
    using inv w assms(2)
    by (auto simp: reaper_inv_def lock_ok_def channels_ok_def spawn_def zombie_def split: if_splits)
  moreover have "processes_ok ((spawn p s)\<lparr>mu := Started p\<rparr>) = processes_ok (spawn p s)"
    "channels_ok ((spawn p s)\<lparr>mu := Started p\<rparr>) = channels_ok (spawn p s)"
    by (simp_all add: processes_ok_def channels_ok_def waiting_def settled_def)
  ultimately show ?thesis using reaper_inv_spawn [OF inv free] by (simp add: reaper_inv_def)
qed

lemma reaper_inv_registered:
  assumes inv: "reaper_inv s" and mu: "mu s = Started p" and pr: "procs s p = Some (i, x)"
  shows "reaper_inv ((register p i s)\<lparr>mu := Free\<rparr>)"
proof -
  let ?t = "(register p i s)\<lparr>mu := Free\<rparr>"
  have w: "waiters s p = None" and new: "\<forall>ch < chans s. serial_of s ch \<noteq> i"
    using inv mu pr by (auto simp: reaper_inv_def lock_ok_def)
  have old: "deliveries ?t ch = deliveries s ch" "serial_of ?t ch = serial_of s ch" if "ch \<noteq> chans s" for ch
    using that by (simp_all add: deliveries_def register_def)
  have fresh: "deliveries s (chans s) = []" using inv by (auto simp: reaper_inv_def channels_ok_def)
  then have fresh': "deliveries ?t (chans s) = []"
    by (simp add: deliveries_def register_def split: option.splits)
  have "waiting ?t ch \<or> settled ?t ch" if "ch < Suc (chans s)" for ch
  proof (cases "ch = chans s")
    case True
    with pr fresh' have "waiting ?t ch" by (auto simp: waiting_def register_def)
    then show ?thesis ..
  next
    case False
    with that channel_state [OF inv, of ch] have "waiting s ch \<or> settled s ch" by simp
    then show ?thesis
    proof
      assume "waiting s ch"
      then obtain q y where q: "waiters s q = Some ch" "procs s q = Some (serial_of s ch, y)"
          "deliveries s ch = []"
        by (auto simp: waiting_def)
      with w have "waiters ?t q = Some ch" "procs ?t q = procs s q" by (auto simp: register_def)
      with q have "waiting ?t ch" unfolding waiting_def old [OF False] by auto
      then show ?thesis ..
    next
      assume "settled s ch"
      with False have "settled ?t ch"
        unfolding settled_def old [OF False] by (auto simp: register_def)
      then show ?thesis ..
    qed
  qed
  moreover have "inj_on (serial_of ?t) {..< Suc (chans s)}"
    using inv new by (auto simp: reaper_inv_def channels_ok_def register_def lessThan_Suc inj_on_def)
  moreover have "serial_of ?t ch < born s" if "ch < Suc (chans s)" for ch
    using that channel_state [OF inv, of ch] process_fate [OF inv pr]
    by (auto simp: register_def less_Suc_eq)
  moreover have "ch < Suc (chans s) \<and> (\<exists>x. procs s q = Some (serial_of ?t ch, x))"
    if "waiters ?t q = Some ch" for q ch
    using that waiter_process [OF inv, of q ch] pr by (auto simp: register_def split: if_splits)
  moreover have "deliveries ?t ch = []" if "Suc (chans s) \<le> ch" for ch
    using that old [of ch] inv by (simp add: reaper_inv_def channels_ok_def)
  ultimately have "channels_ok ?t" unfolding channels_ok_def by (simp add: register_def)
  moreover have "processes_ok ?t" "lock_ok ?t"
    using inv mu by (auto simp: reaper_inv_def processes_ok_def lock_ok_def register_def zombie_def)
  ultimately show ?thesis by (simp add: reaper_inv_def)
qed

lemma reaper_inv_process_ends:
  assumes inv: "reaper_inv s" and pr: "procs s p = Some (i, Running)"
  shows "reaper_inv (s\<lparr>procs := (procs s)(p \<mapsto> (i, Zombie st)), ended := (ended s)(i \<mapsto> st), sigchld := True\<rparr>)"
    (is "reaper_inv ?t")
proof -
  have other: "j \<noteq> i" if "procs s q = Some (j, x)" "q \<noteq> p" for q j x
    using same_process [OF inv that(1), of p] pr that(2) by auto
  have "processes_ok ?t"
    unfolding processes_ok_def
  proof (intro conjI allI impI)
    fix q j x
    assume "procs ?t q = Some (j, x)"
    with inv pr other show "j < born ?t" "ended ?t j = (case x of Running \<Rightarrow> None | Zombie st' \<Rightarrow> Some st')"
      by (auto dest: process_fate split: if_splits)
  next
    fix j
    assume "born ?t \<le> j"
    with inv process_fate [OF inv pr] show "ended ?t j = None" by (auto simp: reaper_inv_def processes_ok_def)
  next
    fix q q' j x y
    assume "procs ?t q = Some (j, x)" "procs ?t q' = Some (j, y)"
    with pr show "q = q'" by (auto dest: same_process [OF inv] split: if_splits)
  qed
  moreover have "waiting ?t ch \<or> settled ?t ch" if "ch < chans s" for ch
    using channel_state [OF inv that]
  proof (elim conjE disjE)
    assume "waiting s ch"
    then have "waiting ?t ch" using pr by (auto simp: waiting_def)
    then show ?thesis ..
  next
    assume "settled s ch"
    then have "settled ?t ch" using pr by (auto simp: settled_def)
    then show ?thesis ..
  qed
  moreover have "\<exists>x. procs ?t q = Some (serial_of s ch, x)" if "waiters s q = Some ch" for q ch
    using waiter_process [OF inv that] pr by auto
  ultimately have "processes_ok ?t" "channels_ok ?t"
    using inv by (auto simp: reaper_inv_def channels_ok_def)
  moreover have "lock_ok ?t"
    using inv pr by (auto simp: reaper_inv_def lock_ok_def)
  ultimately show ?thesis by (simp add: reaper_inv_def)
qed

lemma reaper_inv_received:
  assumes inv: "reaper_inv s" and c: "chan s ch = Some c"
  shows "reaper_inv (s\<lparr>chan := (chan s)(ch := None), taken := taken s @ [(ch, c)]\<rparr>)" (is "reaper_inv ?t")
proof -
  have "deliveries s ch \<noteq> []" using c by (simp add: deliveries_def)
  then have "ch < chans s" "\<not> waiting s ch"
    using inv by (auto simp: reaper_inv_def channels_ok_def waiting_def not_le [symmetric])
  with channel_state [OF inv] have "settled s ch" by blast
  with c have "deliveries s ch = [c]"
    by (auto simp: settled_def deliveries_def)
  then have del: "deliveries ?t ch' = deliveries s ch'" for ch'
    using c by (auto simp: deliveries_def)
  from inv show ?thesis
    by (auto simp: reaper_inv_def processes_ok_def channels_ok_def lock_ok_def waiting_def settled_def
        zombie_def del)
qed

lemma reaper_inv_collect:
  assumes inv: "reaper_inv s" and mu: "mu s = Reaping" and z: "zombie s p st"
  shows "reaper_inv (collect p st s)"
proof -
  from z obtain i where pr: "procs s p = Some (i, Zombie st)" by (auto simp: zombie_def)
  have dead: "ended s i = Some st" using process_fate [OF inv pr] by simp
  have gone: "procs (collect p st s) = (procs s)(p := None)"
    by (simp add: collect_def offer_def Let_def split: option.split)
  have rest: "born (collect p st s) = born s" "ended (collect p st s) = ended s"
    "serial_of (collect p st s) = serial_of s" "chans (collect p st s) = chans s"
    "mu (collect p st s) = Reaping"
    using mu by (simp_all add: collect_def offer_def Let_def split: option.split)
  have proc: "processes_ok (collect p st s)"
    using inv by (auto simp: reaper_inv_def processes_ok_def gone rest)
  have lock: "lock_ok (collect p st s)" by (simp add: lock_ok_def rest)
  show ?thesis
  proof (cases "waiters s p")
    case None
    then have t: "collect p st s = s\<lparr>procs := (procs s)(p := None)\<rparr>" by (simp add: collect_def)
    have "waiting (collect p st s) ch \<or> settled (collect p st s) ch" if "ch < chans s" for ch
      using channel_state [OF inv that]
    proof (elim conjE disjE)
      assume "waiting s ch"
      then obtain q x where q: "waiters s q = Some ch" "procs s q = Some (serial_of s ch, x)"
          "deliveries s ch = []"
        by (auto simp: waiting_def)
      with None have "waiters (collect p st s) q = Some ch" "procs (collect p st s) q = procs s q"
        by (auto simp: t)
      with q have "waiting (collect p st s) ch" by (intro waitingI [of _ q]) (simp_all add: t)
      then show ?thesis ..
    next
      assume "settled s ch"
      then have "settled (collect p st s) ch" by (auto simp: settled_def t)
      then show ?thesis ..
    qed
    moreover have "\<exists>x. procs (collect p st s) q = Some (serial_of s ch, x)" if "waiters s q = Some ch" for q ch
      using waiter_process [OF inv that] None that by (auto simp: t)
    ultimately have "channels_ok (collect p st s)"
      using inv by (auto simp: reaper_inv_def channels_ok_def t)
    with proc lock show ?thesis by (simp add: reaper_inv_def)
  next
    case (Some ch0)
    have ch0: "ch0 < chans s" "serial_of s ch0 = i" using waiter_process [OF inv Some] pr by auto
    with channel_state [OF inv ch0(1)] pr have "waiting s ch0" by (auto simp: settled_def)
    then have empty: "deliveries s ch0 = []" by (simp add: waiting_def)
    then have t: "collect p st s = s\<lparr>procs := (procs s)(p := None), waiters := (waiters s)(p := None),
        chan := (chan s)(ch0 \<mapsto> exit_code st)\<rparr>"
      by (simp add: collect_def offer_def Some deliveries_None)
    have del: "deliveries (collect p st s) ch = (if ch = ch0 then [exit_code st] else deliveries s ch)" for ch
      using empty deliveries_None [OF empty] by (auto simp: t deliveries_def)
    have "waiting (collect p st s) ch \<or> settled (collect p st s) ch" if "ch < chans s" for ch
    proof (cases "ch = ch0")
      case True
      have "procs s q \<noteq> Some (i, x)" if "q \<noteq> p" for q x
        using same_process [OF inv _ pr, of q x] that by auto
      then have "settled (collect p st s) ch"
        using True ch0(2) dead by (auto simp: settled_def gone rest del)
      then show ?thesis ..
    next
      case False
      then have ne: "serial_of s ch \<noteq> i" using same_channel [OF inv that ch0(1)] ch0(2) by auto
      from channel_state [OF inv that] show ?thesis
      proof (elim conjE disjE)
        assume "waiting s ch"
        then obtain q x where q: "waiters s q = Some ch" "procs s q = Some (serial_of s ch, x)"
            "deliveries s ch = []"
          by (auto simp: waiting_def)
        with Some False have "waiters (collect p st s) q = Some ch" "procs (collect p st s) q = procs s q"
          by (auto simp: t)
        with q False have "waiting (collect p st s) ch"
          by (intro waitingI [of _ q]) (simp_all add: del rest)
        then show ?thesis ..
      next
        assume "settled s ch"
        with False have "settled (collect p st s) ch" by (auto simp: settled_def del gone rest)
        then show ?thesis ..
      qed
    qed
    moreover have "ch < chans s \<and> (\<exists>x. procs (collect p st s) q = Some (serial_of s ch, x))"
      if "waiters (collect p st s) q = Some ch" for q ch
      using that waiter_process [OF inv, of q ch] by (auto simp: t split: if_splits)
    ultimately have "channels_ok (collect p st s)"
      using inv ch0 by (auto simp: reaper_inv_def channels_ok_def rest del)
    with proc lock show ?thesis by (simp add: reaper_inv_def)
  qed
qed

lemma reaper_inv_step: "reaper_inv s \<Longrightarrow> reaper_step s s' \<Longrightarrow> reaper_inv s'"
proof (erule reaper_stepE)
  assume inv: "reaper_inv s"
  have b: "(\<exists>p st. zombie s p st) \<Longrightarrow> sigchld s" if "mu s \<noteq> Reaping"
    using inv that by (simp add: reaper_inv_def lock_ok_def)
  show "s' = s\<lparr>mu := Tracking\<rparr> \<Longrightarrow> mu s = Free \<Longrightarrow> reaper_inv s'"
    using reaper_inv_lock [OF inv, of Tracking "sigchld s"] b by simp
  show "s' = s\<lparr>mu := Free\<rparr> \<Longrightarrow> mu s = Tracking \<Longrightarrow> reaper_inv s'"
    using reaper_inv_lock [OF inv, of Free "sigchld s"] b by simp
  show "s' = s\<lparr>mu := Reaping, sigchld := False\<rparr> \<Longrightarrow> mu s = Free \<Longrightarrow> sigchld s \<Longrightarrow> reaper_inv s'"
    using reaper_inv_lock [OF inv, of Reaping False] by simp
  show "s' = s\<lparr>mu := Free\<rparr> \<Longrightarrow> mu s = Reaping \<Longrightarrow> \<forall>p st. \<not> zombie s p st \<Longrightarrow> reaper_inv s'"
    using reaper_inv_lock [OF inv, of Free "sigchld s"] by simp
qed (auto intro: reaper_inv_started reaper_inv_registered reaper_inv_collect reaper_inv_received
    reaper_inv_process_ends reaper_inv_adopted)

lemma reaper_inv_running: "running_reaper s \<Longrightarrow> reaper_inv s"
  by (induction rule: running_reaper.induct) (auto intro: reaper_inv_init reaper_inv_step)

section \<open>Watchers\<close>

text \<open>
  \<open>watchChild\<close> of \<open>src/src/child.go\<close>: a goroutine receives the code, stores it and closes \<open>done\<close>, so
  every observer sees the one code once it was received; \<open>None\<close> is a \<open>done\<close> that is still open.
\<close>

definition watchChild :: "reaper \<Rightarrow> nat \<Rightarrow> int option" where
  "watchChild s ch = map_of (taken s) ch"

lemma taken_grows: "reaper_step s s' \<Longrightarrow> \<exists>new. taken s' = taken s @ new"
  by (erule reaper_stepE)
     (auto simp: spawn_def register_def collect_def offer_def Let_def split: option.splits)

lemma watched_code_stays:
  assumes "reaper_step\<^sup>*\<^sup>* s t" and "watchChild s ch = Some c"
  shows "watchChild t ch = Some c"
  using assms
proof (induction rule: rtranclp_induct)
  case (step u v)
  from taken_grows [OF step.hyps(2)] step show ?case by (auto simp: watchChild_def map_add_Some_iff)
qed

lemma watched_code_delivered:
  assumes "watchChild s ch = Some c"
  shows "c \<in> set (deliveries s ch)"
proof -
  from map_of_SomeD [OF assms [unfolded watchChild_def]] show ?thesis
    by (force simp: deliveries_def)
qed

section \<open>A pass of the reaper\<close>

definition zombies :: "reaper \<Rightarrow> (nat \<times> wait_status) set" where
  "zombies s = {(p, st). zombie s p st}"

lemma collect_fields [simp]:
  "procs (collect p st s) = (procs s)(p := None)" "born (collect p st s) = born s"
  "ended (collect p st s) = ended s" "serial_of (collect p st s) = serial_of s"
  "chans (collect p st s) = chans s" "mu (collect p st s) = mu s"
  by (simp_all add: collect_def offer_def Let_def split: option.split)

lemma zombies_collect: "zombies (collect p st s) = {z \<in> zombies s. fst z \<noteq> p}"
  by (auto simp: zombies_def zombie_def split: if_splits)

lemma pass_collects:
  assumes "mu s = Reaping" and "set ps = zombies s" and "distinct (map fst ps)"
  shows "reaper_step\<^sup>*\<^sup>* s (fold (\<lambda>(p, st). collect p st) ps s) \<and>
    zombies (fold (\<lambda>(p, st). collect p st) ps s) = {} \<and>
    mu (fold (\<lambda>(p, st). collect p st) ps s) = Reaping"
  using assms
proof (induction ps arbitrary: s)
  case Nil
  then show ?case by simp
next
  case (Cons a ps)
  obtain p st where a: "a = (p, st)" by (rule prod.exhaust)
  have "zombie s p st" using Cons.prems(2) by (auto simp: a zombies_def)
  with Cons.prems(1) have "reaper_step s (collect p st s)" by (rule reap_one)
  moreover have "set ps = zombies (collect p st s)"
    using Cons.prems(2,3) by (auto simp: a zombies_collect)
  moreover have "mu (collect p st s) = Reaping" "distinct (map fst ps)" using Cons.prems by simp_all
  ultimately show ?case
    using Cons.IH [of "collect p st s"] by (auto simp: a intro: converse_rtranclp_into_rtranclp)
qed

lemma pass_fields:
  "ended (fold (\<lambda>(p, st). collect p st) ps s) = ended s"
  "serial_of (fold (\<lambda>(p, st). collect p st) ps s) = serial_of s"
  "chans (fold (\<lambda>(p, st). collect p st) ps s) = chans s"
  "procs (fold (\<lambda>(p, st). collect p st) ps s) q = (if q \<in> fst ` set ps then None else procs s q)"
  by (induction ps arbitrary: s) auto

lemma running_steps: "reaper_step\<^sup>*\<^sup>* s t \<Longrightarrow> running_reaper s \<Longrightarrow> running_reaper t"
  by (induction rule: rtranclp_induct) (auto intro: running_reaper.step)

lemma delivered:
  assumes "running_reaper s" and "ch < chans s"
  shows "waiting s ch \<or> settled s ch"
  using reaper_inv_running [OF assms(1)] channel_state assms(2) by blast

section \<open>Properties\<close>

text \<open>
  C33. In every state of the reaper, whatever processes start, end, are adopted or share a number over
  time: as long as the process of a channel was not collected, the channel is registered under its
  number and nothing was delivered; once it was collected, exactly one code was delivered, and it is
  the process's own (128 and the number of the signal that killed it).
\<close>

theorem exit_code_delivered_once:
  assumes "running_reaper s" and "ch < chans s"
  shows "if \<exists>p x. procs s p = Some (serial_of s ch, x)
    then deliveries s ch = [] \<and> (\<exists>p x. waiters s p = Some ch \<and> procs s p = Some (serial_of s ch, x))
    else \<exists>st. ended s (serial_of s ch) = Some st \<and> deliveries s ch = [exit_code st]"
  using delivered [OF assms] by (auto simp: waiting_def settled_def)

text \<open>
  C34. No signal is lost: whenever a process has ended and nobody holds the lock, a pass of the reaper is
  due, and the pass collects every process that has ended and delivers its code to the channel
  registered for it.
\<close>

theorem reap_delivers_all:
  assumes "running_reaper s" and "mu s = Free" and "ps \<noteq> []" and "set ps = zombies s"
    and "distinct (map fst ps)"
  shows "sigchld s \<and> reaper_step\<^sup>*\<^sup>* s (reap ps s) \<and> zombies (reap ps s) = {} \<and> mu (reap ps s) = Free \<and>
    (\<forall>(p, st) \<in> set ps. \<forall>ch. waiters s p = Some ch \<longrightarrow> deliveries (reap ps s) ch = [exit_code st])"
proof -
  note inv = reaper_inv_running [OF assms(1)]
  define s0 where "s0 = s\<lparr>mu := Reaping, sigchld := False\<rparr>"
  define t where "t = fold (\<lambda>(p, st). collect p st) ps s0"
  have reap: "reap ps s = t\<lparr>mu := Free\<rparr>" by (simp add: reap_def t_def s0_def)
  obtain p0 st0 where "zombie s p0 st0"
    using assms(3,4) by (cases ps) (auto simp: zombies_def)
  with inv assms(2) have sig: "sigchld s" by (auto simp: reaper_inv_def lock_ok_def)
  have "zombies s0 = zombies s" by (simp add: s0_def zombies_def zombie_def)
  with assms(4) have "set ps = zombies s0" by simp
  note pass = pass_collects [OF _ this assms(5), folded t_def]
  have s0: "reaper_step s s0" using reap_lock [OF assms(2) sig] by (simp add: s0_def)
  have mu0: "mu s0 = Reaping" by (simp add: s0_def)
  with pass have "reaper_step t (t\<lparr>mu := Free\<rparr>)"
    by (intro reap_unlock) (auto simp: zombies_def)
  with s0 pass [OF mu0] have steps: "reaper_step\<^sup>*\<^sup>* s (reap ps s)"
    unfolding reap by (meson converse_rtranclp_into_rtranclp rtranclp.rtrancl_into_rtrancl)
  have "zombies (reap ps s) = {}" using pass [OF mu0] by (simp add: reap zombies_def zombie_def)
  moreover have "deliveries (reap ps s) ch = [exit_code st]"
    if "(p, st) \<in> set ps" "waiters s p = Some ch" for p st ch
  proof -
    from that(1) assms(4) obtain i where pr: "procs s p = Some (i, Zombie st)"
      by (auto simp: zombies_def zombie_def)
    with waiter_process [OF inv that(2)] have ch: "ch < chans s" "serial_of s ch = i" by auto
    have gone: "procs (reap ps s) q \<noteq> Some (i, x)" for q x
      using that(1) same_process [OF inv _ pr, of q x]
      by (force simp: reap t_def pass_fields s0_def split: if_splits)
    have "chans (reap ps s) = chans s" "serial_of (reap ps s) ch = i" "ended (reap ps s) i = Some st"
      using ch process_fate [OF inv pr] by (simp_all add: reap t_def pass_fields s0_def)
    with delivered [OF running_steps [OF steps assms(1)], of ch] gone ch show ?thesis
      by (auto simp: waiting_def settled_def)
  qed
  ultimately show ?thesis using sig steps by (auto simp: reap)
qed

text \<open>A tracked child that is killed at once, and another process adopted in between.\<close>

definition demo_reaper :: reaper where
  "demo_reaper =
     (let s1 = (spawn 7 (startReaper\<lparr>mu := Tracking\<rparr>))\<lparr>mu := Started 7\<rparr>;
          s2 = s1\<lparr>procs := (procs s1)(7 \<mapsto> (0, Zombie (Signaled 9))), ended := (ended s1)(0 \<mapsto> Signaled 9),
                 sigchld := True\<rparr>;
          s3 = (register 7 0 s2)\<lparr>mu := Free\<rparr>
      in spawn 8 s3)"

lemma demo_reaper_running: "running_reaper demo_reaper"
proof -
  let ?s0 = "startReaper\<lparr>mu := Tracking\<rparr>"
  let ?s1 = "(spawn 7 ?s0)\<lparr>mu := Started 7\<rparr>"
  let ?s2 = "?s1\<lparr>procs := (procs ?s1)(7 \<mapsto> (0, Zombie (Signaled 9))),
      ended := (ended ?s1)(0 \<mapsto> Signaled 9), sigchld := True\<rparr>"
  let ?s3 = "(register 7 0 ?s2)\<lparr>mu := Free\<rparr>"
  have s0: "reaper_step startReaper ?s0" by (rule track_lock) (simp add: startReaper_def)
  have s1: "reaper_step ?s0 ?s1" by (rule started) (simp_all add: startReaper_def)
  have s2: "reaper_step ?s1 ?s2" by (rule process_ends) (simp add: spawn_def startReaper_def)
  have s3: "reaper_step ?s2 ?s3" by (rule registered) (simp_all add: spawn_def startReaper_def)
  have s4: "reaper_step ?s3 (spawn 8 ?s3)"
    by (rule adopted) (simp add: spawn_def register_def startReaper_def)
  show ?thesis
    unfolding demo_reaper_def Let_def
    by (rule running_reaper.step [OF running_reaper.step [OF running_reaper.step [OF running_reaper.step
      [OF running_reaper.step [OF running_reaper.init s0] s1] s2] s3] s4])
qed

lemmas demo_reaper_evals =
  demo_reaper_def Let_def spawn_def register_def startReaper_def

lemma demo_zombies: "zombies demo_reaper = {(7, Signaled 9)}"
  by (auto simp: zombies_def zombie_def demo_reaper_evals split: if_splits)

theorem exit_code_delivered_once_witness:
  "deliveries demo_reaper 0 = [] \<and> (\<exists>p. waiters demo_reaper p = Some 0)"
proof -
  have "0 < chans demo_reaper" "procs demo_reaper 7 = Some (serial_of demo_reaper 0, Zombie (Signaled 9))"
    by (simp_all add: demo_reaper_evals)
  with exit_code_delivered_once [OF demo_reaper_running, of 0] show ?thesis by (auto split: if_splits)
qed

theorem reap_delivers_all_witness:
  "deliveries (reap [(7, Signaled 9)] demo_reaper) 0 = [137]"
  using reap_delivers_all [OF demo_reaper_running, of "[(7, Signaled 9)]"]
  by (simp add: demo_zombies) (simp add: demo_reaper_evals)

section \<open>Other platforms\<close>

text \<open>
  \<open>src/src/reaper_stub.go\<close>: each child has a goroutine of its own that waits for it. The codes are the
  same except for a child killed by a signal, which is reported as -1.
\<close>

datatype wait_result = WaitOK | WaitExitError wait_status | WaitError

fun stub_code :: "wait_result \<Rightarrow> int" where
  "stub_code WaitOK = 0"
| "stub_code (WaitExitError (Exited c)) = c"
| "stub_code (WaitExitError (Signaled _)) = -1"
| "stub_code WaitError = 1"

definition wait_result_of :: "wait_status \<Rightarrow> wait_result" where
  "wait_result_of st = (if st = Exited 0 then WaitOK else WaitExitError st)"

lemma stub_code_agrees: "(\<forall>n. st \<noteq> Signaled n) \<Longrightarrow> stub_code (wait_result_of st) = exit_code st"
  by (cases st) (auto simp: wait_result_of_def)

end
