(* ===== verification/Logging.thy ===== *)
theory Logging
  imports Timestamp World
begin

text \<open>
  \<open>src/src/log.go\<close> and the part of \<open>src/src/supervisor.go\<close> that classifies and relays the output of the
  supervised server. The other theories leave logging out, as it changes nothing they speak of; here
  an event is logged by a function that returns the line written, if any. \<open>lower\<close>, \<open>upper\<close> and \<open>quote\<close>
  stand for what \<open>strings.ToLower\<close>, \<open>strings.ToUpper\<close> and \<open>%q\<close> do on strings that are not ASCII.
\<close>

section \<open>Levels\<close>

datatype LogLevel = LOG_ERROR | LOG_WARN | LOG_INFO | LOG_DEBUG

fun level_number :: "LogLevel \<Rightarrow> nat" where
  "level_number LOG_ERROR = 0"
| "level_number LOG_WARN = 1"
| "level_number LOG_INFO = 2"
| "level_number LOG_DEBUG = 3"

lemma level_number_inj: "level_number a = level_number b \<longleftrightarrow> a = b"
  by (cases a; cases b) simp_all

instantiation LogLevel :: linorder
begin

definition less_eq_LogLevel :: "LogLevel \<Rightarrow> LogLevel \<Rightarrow> bool" where
  "less_eq_LogLevel a b \<longleftrightarrow> level_number a \<le> level_number b"

definition less_LogLevel :: "LogLevel \<Rightarrow> LogLevel \<Rightarrow> bool" where
  "less_LogLevel a b \<longleftrightarrow> level_number a < level_number b"

instance
  by standard (auto simp: less_eq_LogLevel_def less_LogLevel_def level_number_inj)

end

lemma LOG_ERROR_least [simp]: "LOG_ERROR \<le> l"
  by (simp add: less_eq_LogLevel_def)

fun level_string :: "LogLevel \<Rightarrow> string" where
  "level_string LOG_ERROR = ''ERROR''"
| "level_string LOG_WARN = ''WARN''"
| "level_string LOG_INFO = ''INFO''"
| "level_string LOG_DEBUG = ''DEBUG''"

definition ParseLogLevel :: "(string \<Rightarrow> string) \<Rightarrow> string \<Rightarrow> LogLevel option" where
  "ParseLogLevel lower s =
     (let v = ToLower lower (TrimSpace s)
      in if v = ''error'' then Some LOG_ERROR
         else if v = ''warn'' then Some LOG_WARN
         else if v = ''info'' then Some LOG_INFO
         else if v = ''debug'' then Some LOG_DEBUG
         else None)"

definition ParseLogFormat :: "(string \<Rightarrow> string) \<Rightarrow> string \<Rightarrow> bool option" where
  "ParseLogFormat lower s =
     (let v = ToLower lower (TrimSpace s)
      in if v = ''json'' then Some True else if v = ''text'' then Some False else None)"

text \<open>The package's variables; \<open>log_file\<close> is \<open>None\<close> for the standard error.\<close>

record logger =
  gLogLevel :: LogLevel
  gLogJSON :: bool
  log_file :: "string option"

definition initLogging :: "(string \<Rightarrow> string) \<Rightarrow> os \<Rightarrow> (string \<Rightarrow> bool) \<Rightarrow> logger" where
  "initLogging lower sys can_append =
     (let v = Getenv sys ''PG_GUARD_LOG_LEVEL''; f = Getenv sys ''PG_GUARD_LOG_FORMAT'';
          path = Getenv sys ''PG_GUARD_LOG_FILE''
      in \<lparr>gLogLevel = (if v = [] then LOG_INFO
            else case ParseLogLevel lower v of None \<Rightarrow> LOG_INFO | Some l \<Rightarrow> l),
          gLogJSON = (if f = [] then True
            else case ParseLogFormat lower f of None \<Rightarrow> True | Some j \<Rightarrow> j),
          log_file = (if path \<noteq> [] \<and> can_append path then Some path else None)\<rparr>)"

section \<open>Quoting\<close>

text \<open>\<open>strconv.Quote\<close>, which \<open>%q\<close> uses, byte by byte on ASCII.\<close>

abbreviation dquote :: char where "dquote \<equiv> CHR 0x22"

abbreviation backslash :: char where "backslash \<equiv> CHR 0x5C"

definition hex_digit :: "nat \<Rightarrow> char" where
  "hex_digit n = (if n < 10 then digit n else char_of (87 + n))"

definition short_escape :: "nat \<Rightarrow> char option" where
  "short_escape n =
     (if n = 7 then Some (CHR ''a'') else if n = 8 then Some (CHR ''b'')
      else if n = 9 then Some (CHR ''t'') else if n = 10 then Some (CHR ''n'')
      else if n = 11 then Some (CHR ''v'') else if n = 12 then Some (CHR ''f'')
      else if n = 13 then Some (CHR ''r'') else None)"

definition quote_byte :: "char \<Rightarrow> string" where
  "quote_byte c =
     (let n = (of_char c :: nat)
      in if c = dquote \<or> c = backslash then [backslash, c]
         else if 0x20 \<le> n \<and> n < 0x7F then [c]
         else (case short_escape n of
                 Some e \<Rightarrow> [backslash, e]
               | None \<Rightarrow> [backslash, CHR ''x'', hex_digit (n div 16), hex_digit (n mod 16)]))"

definition Quote :: "(string \<Rightarrow> string) \<Rightarrow> string \<Rightarrow> string" where
  "Quote quote s =
     (if is_ascii s then [dquote] @ concat (map quote_byte s) @ [dquote] else quote s)"

section \<open>One event\<close>

definition FormatRFC3339 :: "gotime \<Rightarrow> string" where
  "FormatRFC3339 t =
     (let s = abs_seconds t
      in Join (map2 pad [4, 2, 2] (date_fields (s div 86400))) ''-'' @ ''T'' @
         Join (map2 pad [2, 2, 2] (clock_fields (s mod 86400))) '':'' @ ''Z'')"

definition json_key :: "string \<Rightarrow> string" where
  "json_key k = [dquote] @ k @ [dquote] @ '':''"

definition json_line :: "(string \<Rightarrow> string) \<Rightarrow> gotime \<Rightarrow> LogLevel \<Rightarrow> string \<Rightarrow> string \<Rightarrow> string" where
  "json_line quote t level source msg =
     ''{'' @ json_key ''ts'' @ Quote quote (FormatRFC3339 t) @
     '','' @ json_key ''level'' @ Quote quote (ToLower (\<lambda>s. s) (level_string level)) @
     '','' @ json_key ''msg'' @ Quote quote msg @
     '','' @ json_key ''source'' @ Quote quote source @ ''}''"

definition logLine :: "(string \<Rightarrow> string) \<Rightarrow> logger \<Rightarrow> gotime \<Rightarrow> LogLevel \<Rightarrow> string \<Rightarrow> string option" where
  "logLine quote lg t level msg =
     (if gLogLevel lg < level then None
      else if gLogJSON lg then Some (json_line quote t level ''pg-guard'' msg)
      else Some (FormatRFC3339 t @ ''   '' @ level_string level @ '': '' @ msg))"

definition logSourced ::
  "(string \<Rightarrow> string) \<Rightarrow> logger \<Rightarrow> gotime \<Rightarrow> LogLevel \<Rightarrow> string \<Rightarrow> string \<Rightarrow> string option" where
  "logSourced quote lg t level source line =
     (if gLogLevel lg < level then None
      else if gLogJSON lg then Some (json_line quote t level source line)
      else Some (FormatRFC3339 t @ ''   '' @ level_string level @ '' ['' @ source @ '']: '' @ line))"

definition logCmdOutput :: "(string \<Rightarrow> string) \<Rightarrow> logger \<Rightarrow> gotime \<Rightarrow> string \<Rightarrow> string \<Rightarrow> string option" where
  "logCmdOutput quote lg t source line = logSourced quote lg t LOG_DEBUG source line"

text \<open>\<open>logMsg\<close>, with its text formatted already; \<open>logFatal\<close> also ends the process with status 1.\<close>

definition logMsg :: "(string \<Rightarrow> string) \<Rightarrow> logger \<Rightarrow> gotime \<Rightarrow> LogLevel \<Rightarrow> string \<Rightarrow> string option" where
  "logMsg quote lg t level msg = (if gLogLevel lg < level then None else logLine quote lg t level msg)"

definition logFatal :: "(string \<Rightarrow> string) \<Rightarrow> logger \<Rightarrow> gotime \<Rightarrow> string \<Rightarrow> string option \<times> int" where
  "logFatal quote lg t msg = (logMsg quote lg t LOG_ERROR msg, 1)"

section \<open>Output of the server\<close>

text \<open>
  The lines a \<open>bufio.Scanner\<close> yields until the end of the stream: without the line end, and only up
  to the first line of 64 KiB or more, at which it stops for good.
\<close>

definition max_line :: nat where
  "max_line = 65536"

definition drop_cr :: "string \<Rightarrow> string" where
  "drop_cr l = (if l \<noteq> [] \<and> last l = CHR 0x0D then butlast l else l)"

definition scan_lines :: "string \<Rightarrow> string list" where
  "scan_lines s =
     (let ls = Split s (CHR 0x0A); complete = (if last ls = [] then butlast ls else ls)
      in map drop_cr (takeWhile (\<lambda>l. length l < max_line) complete))"

definition postgresLogLevel :: "(string \<Rightarrow> string) \<Rightarrow> string \<Rightarrow> string" where
  "postgresLogLevel upper line =
     (case Index line ''] '' of
        None \<Rightarrow> []
      | Some i \<Rightarrow>
          (let rest = drop (i + 2) line
           in case Index rest '':'' of
                None \<Rightarrow> []
              | Some c \<Rightarrow>
                  (if c = 0 then []
                   else (let token = take c rest
                         in if token \<noteq> [] \<and> token = ToUpper upper token \<and>
                              \<not> ContainsAny token [CHR 0x20, CHR 0x09] then token else []))))"

definition expectedShutdownNoise :: "string list" where
  "expectedShutdownNoise =
     [''terminating connection due to administrator command'', ''the database system is shutting down'']"

definition classifyPostgresLine :: "(string \<Rightarrow> string) \<Rightarrow> world \<Rightarrow> string \<Rightarrow> LogLevel" where
  "classifyPostgresLine upper w line =
     (let sev = postgresLogLevel upper line
      in if sev \<in> {''FATAL'', ''PANIC'', ''ERROR''} then
           (if (shutdownInProgress w \<or> switchoverInProgress w) \<and>
               list_ex (\<lambda>noise. Contains line noise) expectedShutdownNoise
            then LOG_INFO else LOG_ERROR)
         else if sev = ''WARNING'' then LOG_WARN
         else LOG_INFO)"

definition streamPostgresOutput ::
  "(string \<Rightarrow> string) \<Rightarrow> (string \<Rightarrow> string) \<Rightarrow> logger \<Rightarrow> gotime \<Rightarrow> world \<Rightarrow> string \<Rightarrow> string list" where
  "streamPostgresOutput quote upper lg t w s =
     List.map_filter (\<lambda>line. logSourced quote lg t (classifyPostgresLine upper w line) ''postgres'' line)
       (scan_lines s)"

section \<open>Reading a line as JSON\<close>

text \<open>
  A reader of JSON (RFC 8259) for what a line can consist of: an object of strings. Within a string a
  control character must not occur as it is, and after a backslash only the escapes of JSON may follow
  (\<open>\\u\<close>, which \<open>%q\<close> does not write for ASCII, is left out).
\<close>

definition json_escape :: "char \<Rightarrow> char option" where
  "json_escape e =
     (if e = dquote \<or> e = backslash \<or> e = CHR ''/'' then Some e
      else if e = CHR ''b'' then Some (CHR 0x08) else if e = CHR ''f'' then Some (CHR 0x0C)
      else if e = CHR ''n'' then Some (CHR 0x0A) else if e = CHR ''r'' then Some (CHR 0x0D)
      else if e = CHR ''t'' then Some (CHR 0x09) else None)"

fun json_chars :: "string \<Rightarrow> (string \<times> string) option" where
  "json_chars [] = None"
| "json_chars (c # s) =
     (if c = dquote then Some ([], s)
      else if c = backslash then
        (case s of
           [] \<Rightarrow> None
         | e # r \<Rightarrow>
             (case json_escape e of
                None \<Rightarrow> None
              | Some x \<Rightarrow> map_option (\<lambda>(v, u). (x # v, u)) (json_chars r)))
      else if (of_char c :: nat) < 0x20 then None
      else map_option (\<lambda>(v, u). (c # v, u)) (json_chars s))"

definition json_value :: "string \<Rightarrow> (string \<times> string) option" where
  "json_value s = (case s of [] \<Rightarrow> None | c # r \<Rightarrow> if c = dquote then json_chars r else None)"

fun json_members :: "nat \<Rightarrow> string \<Rightarrow> (string \<times> string) list option" where
  "json_members 0 s = None"
| "json_members (Suc n) s =
     (case json_value s of
        Some (k, c # r) \<Rightarrow>
          (if c \<noteq> CHR '':'' then None
           else (case json_value r of
                   Some (v, d # u) \<Rightarrow>
                     (if d = CHR '','' then map_option (Cons (k, v)) (json_members n u)
                      else if d = CHR ''}'' \<and> u = [] then Some [(k, v)]
                      else None)
                 | _ \<Rightarrow> None))
      | _ \<Rightarrow> None)"

definition read_json :: "string \<Rightarrow> (string \<times> string) list option" where
  "read_json s = (case s of [] \<Rightarrow> None | c # r \<Rightarrow> if c = CHR ''{'' then json_members (length r) r else None)"

text \<open>The bytes for which Go and JSON agree on the escape.\<close>

definition json_safe :: "char \<Rightarrow> bool" where
  "json_safe c \<longleftrightarrow>
     (let n = (of_char c :: nat) in 0x20 \<le> n \<and> n < 0x7F \<or> n \<in> {0x08, 0x09, 0x0A, 0x0C, 0x0D})"

lemma json_chars_quoted:
  assumes "(of_char c :: nat) < 128"
  shows "json_chars (quote_byte c @ r) =
    (if json_safe c then map_option (\<lambda>(v, u). (c # v, u)) (json_chars r) else None)"
proof (cases c)
  case (Char b0 b1 b2 b3 b4 b5 b6 b7)
  with assms have "\<not> b7" by (auto split: if_splits)
  with Char show ?thesis
    by (cases b0; cases b1; cases b2; cases b3; cases b4; cases b5; cases b6)
       (simp_all add: quote_byte_def json_safe_def short_escape_def json_escape_def hex_digit_def digit_def)
qed

lemma json_chars_Quote:
  "is_ascii s \<Longrightarrow> json_chars (concat (map quote_byte s) @ dquote # r) =
     (if list_all json_safe s then Some (s, r) else None)"
  by (induction s) (simp_all add: is_ascii_def json_chars_quoted)

lemma json_value_Quote:
  "is_ascii s \<Longrightarrow> json_value (Quote q s @ r) = (if list_all json_safe s then Some (s, r) else None)"
  by (simp add: json_value_def Quote_def json_chars_Quote)

definition plain_key :: "string \<Rightarrow> bool" where
  "plain_key k \<longleftrightarrow> list_all (\<lambda>c. 0x20 \<le> (of_char c :: nat) \<and> (of_char c :: nat) < 0x7F \<and>
     c \<noteq> dquote \<and> c \<noteq> backslash) k"

lemma json_chars_plain: "plain_key k \<Longrightarrow> json_chars (k @ dquote # r) = Some (k, r)"
  by (induction k) (simp_all add: plain_key_def)

lemma json_value_key: "plain_key k \<Longrightarrow> json_value (json_key k @ r) = Some (k, CHR '':'' # r)"
  by (simp add: json_value_def json_key_def json_chars_plain)

lemma keys_plain: "plain_key ''ts''" "plain_key ''level''" "plain_key ''msg''" "plain_key ''source''"
  by (simp_all add: plain_key_def)

lemma json_members_more:
  "plain_key k \<Longrightarrow> is_ascii v \<Longrightarrow> json_members (Suc n) (json_key k @ Quote q v @ '','' @ u) =
     (if list_all json_safe v then map_option (Cons (k, v)) (json_members n u) else None)"
  by (simp add: json_value_key json_value_Quote)

lemma json_members_last:
  "plain_key k \<Longrightarrow> is_ascii v \<Longrightarrow> json_members (Suc n) (json_key k @ Quote q v @ ''}'') =
     (if list_all json_safe v then Some [(k, v)] else None)"
  using json_value_Quote [of v q "''}''"] by (simp add: json_value_key)

text \<open>A time stamp consists of digits and separators.\<close>

lemma set_Join: "set (Join ls sep) \<subseteq> \<Union> (set ` set ls) \<union> set sep"
  by (induction ls sep rule: Join.induct) auto

lemma map2_pad_digits: "l \<in> set (map2 pad ws xs) \<Longrightarrow> c \<in> set l \<Longrightarrow> digit_val c \<noteq> None"
  by (induction ws xs rule: list_induct2') (auto dest: pad_digits)

lemma digit_val_safe: "digit_val c \<noteq> None \<Longrightarrow> json_safe c \<and> (of_char c :: nat) < 128"
  by (auto simp: digit_val_def json_safe_def Let_def split: if_splits)

lemma RFC3339_safe: "list_all json_safe (FormatRFC3339 t)" "is_ascii (FormatRFC3339 t)"
proof -
  have j: "json_safe c \<and> (of_char c :: nat) < 128"
    if "c \<in> set (Join (map2 pad ws xs) [d])" "json_safe d \<and> (of_char d :: nat) < 128" for c d ws xs
    using that set_Join [of "map2 pad ws xs" "[d]"] map2_pad_digits [of _ ws xs c] digit_val_safe [of c]
    by auto
  have "json_safe c \<and> (of_char c :: nat) < 128" if "c \<in> set (FormatRFC3339 t)" for c
    using that unfolding FormatRFC3339_def Let_def set_append Un_iff
    by (elim disjE) (auto intro: j simp: json_safe_def simp del: Join.simps dest: j)
  then show "list_all json_safe (FormatRFC3339 t)" "is_ascii (FormatRFC3339 t)"
    by (auto simp: list_all_iff is_ascii_def)
qed

lemma level_safe: "list_all json_safe (ToLower f (level_string l))" "is_ascii (ToLower f (level_string l))"
  by (cases l; simp add: ToLower_def is_ascii_def ascii_lower_def json_safe_def)+

lemma read_json_line:
  assumes "is_ascii msg" and "is_ascii source" and "list_all json_safe source"
  shows "read_json (json_line q t level source msg) =
    (if list_all json_safe msg
     then Some [(''ts'', FormatRFC3339 t), (''level'', ToLower (\<lambda>s. s) (level_string level)),
                (''msg'', msg), (''source'', source)]
     else None)"
proof -
  define r where "r = json_key ''ts'' @ Quote q (FormatRFC3339 t) @ '','' @
     json_key ''level'' @ Quote q (ToLower (\<lambda>s. s) (level_string level)) @ '','' @
     json_key ''msg'' @ Quote q msg @ '','' @ json_key ''source'' @ Quote q source @ ''}''"
  have "json_line q t level source msg = CHR ''{'' # r" by (simp add: json_line_def r_def)
  moreover obtain m where "length r = Suc (Suc (Suc (Suc m)))"
    by (rule that [of "length r - 4"]) (simp add: r_def json_key_def)
  ultimately have "read_json (json_line q t level source msg) = json_members (Suc (Suc (Suc (Suc m)))) r"
    by (simp add: read_json_def)
  also have "\<dots> = (if list_all json_safe msg
     then Some [(''ts'', FormatRFC3339 t), (''level'', ToLower (\<lambda>s. s) (level_string level)),
                (''msg'', msg), (''source'', source)]
     else None)"
    unfolding r_def
    by (simp only: json_members_more json_members_last keys_plain assms RFC3339_safe level_safe
        if_True option.map if_cancel split: if_split) simp
  finally show ?thesis .
qed

lemma quote_byte_one_line: "(of_char c :: nat) < 128 \<Longrightarrow> CHR 0x0A \<notin> set (quote_byte c)"
proof (cases c)
  case (Char b0 b1 b2 b3 b4 b5 b6 b7)
  assume "(of_char c :: nat) < 128"
  with Char have "\<not> b7" by (auto split: if_splits)
  with Char show ?thesis
    by (cases b0; cases b1; cases b2; cases b3; cases b4; cases b5; cases b6)
       (simp_all add: quote_byte_def short_escape_def hex_digit_def digit_def char_of_def)
qed

lemma Quote_one_line: "is_ascii s \<Longrightarrow> CHR 0x0A \<notin> set (Quote q s)"
  by (auto simp: Quote_def is_ascii_def dest: quote_byte_one_line)

lemma json_line_one_line:
  "is_ascii msg \<Longrightarrow> is_ascii source \<Longrightarrow> CHR 0x0A \<notin> set (json_line q t level source msg)"
  by (simp add: json_line_def json_key_def Quote_one_line RFC3339_safe level_safe)

section \<open>Properties\<close>

text \<open>
  C35. In JSON mode every event of ASCII text is one line, whatever characters it has, and a reader of
  JSON finds in it the time, the level, the text and the source exactly as they were, if the text has
  no control character but tab, line feed, carriage return, form feed and backspace. With any other
  control character (an escape sequence of a terminal, say) the line is not JSON at all: \<open>%q\<close> escapes
  those in Go's syntax. Nothing is said of text outside ASCII, for which \<open>%q\<close> is a parameter.
\<close>

theorem json_log_reads_back:
  assumes "logSourced q lg t level source text = Some out" and "gLogJSON lg"
    and "is_ascii text" and "is_ascii source" and "list_all json_safe source"
  shows "CHR 0x0A \<notin> set out \<and>
    read_json out = (if list_all json_safe text
      then Some [(''ts'', FormatRFC3339 t), (''level'', ToLower (\<lambda>s. s) (level_string level)),
                 (''msg'', text), (''source'', source)]
      else None)"
proof -
  from assms(1,2) have "out = json_line q t level source text"
    by (simp add: logSourced_def split: if_splits)
  with read_json_line [OF assms(3-5), of q t level] json_line_one_line [OF assms(3,4), of q t level]
  show ?thesis by simp
qed

definition demo_logger :: logger where
  "demo_logger = \<lparr>gLogLevel = LOG_INFO, gLogJSON = True, log_file = None\<rparr>"

lemma demo_logs: "logSourced q demo_logger 0 LOG_ERROR source text = Some (json_line q 0 LOG_ERROR source text)"
  by (simp add: logSourced_def demo_logger_def not_less)

theorem json_log_reads_back_witness:
  "read_json (json_line (\<lambda>s. s) 0 LOG_ERROR ''postgres'' [dquote, CHR 0x09, CHR ''x'']) =
     Some [(''ts'', FormatRFC3339 0), (''level'', ''error''), (''msg'', [dquote, CHR 0x09, CHR ''x'']),
           (''source'', ''postgres'')] \<and>
   read_json (json_line (\<lambda>s. s) 0 LOG_ERROR ''postgres'' [CHR 0x1B, CHR ''x'']) = None"
  using json_log_reads_back [OF demo_logs, of "[dquote, CHR 0x09, CHR ''x'']" "''postgres''" "\<lambda>s. s"]
    json_log_reads_back [OF demo_logs, of "[CHR 0x1B, CHR ''x'']" "''postgres''" "\<lambda>s. s"]
  by (simp add: demo_logger_def is_ascii_def json_safe_def ToLower_def ascii_lower_def char_of_def bit_0)

text \<open>
  No error of the server is lost: a line of its output with severity \<open>FATAL\<close>, \<open>PANIC\<close> or \<open>ERROR\<close>
  is logged at every configured level, except for the two messages expected of a shutdown, while a
  coordinated one is in progress, and these are still logged from level \<open>info\<close> on.
\<close>

theorem server_errors_are_logged:
  assumes "postgresLogLevel upper line \<in> {''FATAL'', ''PANIC'', ''ERROR''}"
  shows "logSourced q lg t (classifyPostgresLine upper w line) ''postgres'' line \<noteq> None \<or>
    (shutdownInProgress w \<or> switchoverInProgress w) \<and>
      (\<exists>noise \<in> set expectedShutdownNoise. Contains line noise) \<and> gLogLevel lg < LOG_INFO"
proof -
  have "classifyPostgresLine upper w line =
    (if (shutdownInProgress w \<or> switchoverInProgress w) \<and> list_ex (\<lambda>n. Contains line n) expectedShutdownNoise
     then LOG_INFO else LOG_ERROR)"
    using assms by (simp only: classifyPostgresLine_def Let_def if_True)
  then show ?thesis by (simp add: logSourced_def list_ex_iff not_less)
qed

lemma demo_severity: "postgresLogLevel upper ''UTC [50] FATAL:  no'' = ''FATAL''"
  by (simp add: postgresLogLevel_def ToUpper_def is_ascii_def ascii_upper_def ContainsAny_def)

theorem server_errors_are_logged_witness:
  "logSourced q demo_logger 0 (classifyPostgresLine upper (init_world 0 Map.empty) ''UTC [50] FATAL:  no'')
     ''postgres'' ''UTC [50] FATAL:  no'' \<noteq> None"
  using server_errors_are_logged [of upper "''UTC [50] FATAL:  no''" q demo_logger 0 "init_world 0 Map.empty"]
  by (simp add: demo_severity init_world_def)

text \<open>The first line of 64 KiB ends the relaying of the server's output.\<close>

lemma scan_stops:
  assumes "CHR 0x0A \<notin> set l" and "max_line \<le> length l"
  shows "scan_lines (l @ CHR 0x0A # rest) = []"
  using assms by (simp add: scan_lines_def Split_append_sep Let_def)

end
