(* ===== verification/Textfile.thy ===== *)
theory Textfile
  imports Metrics Replace
begin

text \<open>
  \<open>src/src/textfile.go\<close>: the report of \<open>GET /metrics\<close> written to a file for another process to read,
  once at the start and then at every tick. The reader may look at any time, also while a write is
  under way or after the process was killed in one.
\<close>

definition textfile_temp :: "config \<Rightarrow> string" where
  "textfile_temp cfg = JoinPath [TextfileDir cfg, ''pg-guard.temp'']"

definition textfile_final :: "config \<Rightarrow> string" where
  "textfile_final cfg = JoinPath [TextfileDir cfg, ''pg-guard.prom'']"

text \<open>\<open>htext\<close> and \<open>fmt\<close> print the help text of a metric and an amount, as in \<open>exposition\<close>.\<close>

definition writeTextfile ::
  "env \<Rightarrow> (string \<Rightarrow> string) \<Rightarrow> (amount \<Rightarrow> string) \<Rightarrow> config \<Rightarrow> world \<Rightarrow> world" where
  "writeTextfile E htext fmt cfg w =
     (let (ss, w1) = collectMetrics E cfg w
      in snd (replace_file E (textfile_temp cfg) (textfile_final cfg) (exposition htext fmt ss) w1))"

text \<open>
  The states of the goroutine of \<open>startTextfileWriter\<close> before a write: the first write comes at once,
  later ones at ticks, and between two of them anything may happen that leaves the two files alone.
\<close>

inductive textfile_writes ::
  "env \<Rightarrow> (string \<Rightarrow> string) \<Rightarrow> (amount \<Rightarrow> string) \<Rightarrow> config \<Rightarrow> world \<Rightarrow> world \<Rightarrow> bool"
  for E :: env and htext :: "string \<Rightarrow> string" and fmt :: "amount \<Rightarrow> string" and cfg :: config and w0 :: world where
  startTextfileWriter: "TextfileEnabled cfg \<Longrightarrow> textfile_writes E htext fmt cfg w0 w0"
| ticker: "textfile_writes E htext fmt cfg w0 w \<Longrightarrow> w' = writeTextfile E htext fmt cfg w \<Longrightarrow>
    disk v (textfile_temp cfg) = disk w' (textfile_temp cfg) \<Longrightarrow>
    disk v (textfile_final cfg) = disk w' (textfile_final cfg) \<Longrightarrow>
    textfile_writes E htext fmt cfg w0 v"

text \<open>What a reader can see once the writer has begun: the disk before, during or after a write.\<close>

inductive readable ::
  "env \<Rightarrow> (string \<Rightarrow> string) \<Rightarrow> (amount \<Rightarrow> string) \<Rightarrow> config \<Rightarrow> world \<Rightarrow> fs \<Rightarrow> bool"
  for E :: env and htext :: "string \<Rightarrow> string" and fmt :: "amount \<Rightarrow> string" and cfg :: config and w0 :: world where
  during: "textfile_writes E htext fmt cfg w0 w \<Longrightarrow> collectMetrics E cfg w = (ss, w1) \<Longrightarrow>
    (replace_step (textfile_temp cfg) (textfile_final cfg) (exposition htext fmt ss))\<^sup>*\<^sup>* (disk w1) f \<Longrightarrow>
    readable E htext fmt cfg w0 f"

definition whole_report :: "env \<Rightarrow> (string \<Rightarrow> string) \<Rightarrow> (amount \<Rightarrow> string) \<Rightarrow> config \<Rightarrow> string \<Rightarrow> bool" where
  "whole_report E htext fmt cfg body \<longleftrightarrow>
     (\<exists>w ss w'. collectMetrics E cfg w = (ss, w') \<and> body = exposition htext fmt ss)"

lemma textfile_paths_differ: "textfile_temp cfg \<noteq> textfile_final cfg"
proof (cases "TextfileDir cfg = []")
  case True
  then show ?thesis
    by (simp add: textfile_temp_def textfile_final_def JoinPath_def Clean_def clean_step_def slash_def)
next
  case False
  have "simple_name ''pg-guard.temp''" "simple_name ''pg-guard.prom''"
    by (simp_all add: simple_name_def slash_def)
  from last_element_JoinPath [OF this(1) False] last_element_JoinPath [OF this(2) False]
  have "last_element (textfile_temp cfg) \<noteq> last_element (textfile_final cfg)"
    by (simp add: textfile_temp_def textfile_final_def)
  then show ?thesis by auto
qed

interpretation textfile: replaced_file "textfile_temp cfg" "textfile_final cfg" for cfg
  by unfold_locales (rule textfile_paths_differ)

lemma disk_collectMetrics: "collectMetrics E cfg w = (ss, w1) \<Longrightarrow> disk w1 = disk w"
  by (elim collectMetrics_split) (auto simp: only_observed_def)

lemma writeTextfile_content:
  assumes "collectMetrics E cfg w = (ss, w1)"
  shows "map_option fst (disk (writeTextfile E htext fmt cfg w) (textfile_final cfg)) =
    (if is_ok (fst (replace_file E (textfile_temp cfg) (textfile_final cfg) (exposition htext fmt ss) w1))
     then Some (exposition htext fmt ss) else map_option fst (disk w (textfile_final cfg)))"
  using textfile.result_content [OF prod.collapse [symmetric], of E cfg "exposition htext fmt ss" w1]
    disk_collectMetrics [OF assms]
  by (simp add: writeTextfile_def assms split: if_splits)

definition holds_report ::
  "env \<Rightarrow> (string \<Rightarrow> string) \<Rightarrow> (amount \<Rightarrow> string) \<Rightarrow> config \<Rightarrow> fs \<Rightarrow> fs \<Rightarrow> bool" where
  "holds_report E htext fmt cfg f0 f \<longleftrightarrow>
     map_option fst (f (textfile_final cfg)) = map_option fst (f0 (textfile_final cfg)) \<or>
     (\<exists>body. map_option fst (f (textfile_final cfg)) = Some body \<and> whole_report E htext fmt cfg body)"

lemma textfile_writes_hold:
  "textfile_writes E htext fmt cfg w0 w \<Longrightarrow> holds_report E htext fmt cfg (disk w0) (disk w)"
proof (induction rule: textfile_writes.induct)
  case startTextfileWriter
  then show ?case by (simp add: holds_report_def)
next
  case (ticker w w' v)
  obtain ss w1 where c: "collectMetrics E cfg w = (ss, w1)" by (rule prod.exhaust)
  then have "whole_report E htext fmt cfg (exposition htext fmt ss)" by (auto simp: whole_report_def)
  with writeTextfile_content [OF c, of htext fmt] ticker show ?case
    by (auto simp: holds_report_def split: if_splits)
qed

section \<open>Properties\<close>

text \<open>
  C36. Whoever reads \<open>pg-guard.prom\<close> finds a whole report, or what was there before the writer began:
  whenever it is read, whatever fails, and wherever the process is killed, the file never holds a part
  of a report. A write that did not fail leaves the report it made.
\<close>

theorem reader_sees_whole_reports:
  assumes "readable E htext fmt cfg w0 f"
  shows "(map_option fst (f (textfile_final cfg)) = map_option fst (disk w0 (textfile_final cfg)) \<or>
      (\<exists>w ss w'. collectMetrics E cfg w = (ss, w') \<and>
        map_option fst (f (textfile_final cfg)) = Some (exposition htext fmt ss))) \<and>
    (\<forall>w ss w1. collectMetrics E cfg w = (ss, w1) \<longrightarrow>
      fst (replace_file E (textfile_temp cfg) (textfile_final cfg) (exposition htext fmt ss) w1) = Inr () \<longrightarrow>
      map_option fst (disk (writeTextfile E htext fmt cfg w) (textfile_final cfg)) = Some (exposition htext fmt ss))"
proof
  from assms show "map_option fst (f (textfile_final cfg)) = map_option fst (disk w0 (textfile_final cfg)) \<or>
      (\<exists>w ss w'. collectMetrics E cfg w = (ss, w') \<and>
        map_option fst (f (textfile_final cfg)) = Some (exposition htext fmt ss))"
  proof cases
    case (during w ss w1)
    from textfile.steps_content [OF during(3)] disk_collectMetrics [OF during(2)]
    have "map_option fst (f (textfile_final cfg)) = map_option fst (disk w (textfile_final cfg)) \<or>
      map_option fst (f (textfile_final cfg)) = Some (exposition htext fmt ss)" by auto
    with textfile_writes_hold [OF during(1)] during(2) show ?thesis
      unfolding holds_report_def whole_report_def by metis
  qed
qed (simp add: writeTextfile_content)

text \<open>A write that stops after four bytes: the reader still finds nothing.\<close>

definition textfile_config :: config where
  "textfile_config = demo_config\<lparr>TextfileEnabled := True, TextfileDir := ''/metrics''\<rparr>"

lemma torn_write_readable:
  "readable calm (\<lambda>n. n) (\<lambda>a. ''0'') textfile_config (running_world 0 Map.empty)
     (write_file (textfile_temp textfile_config) (take 4 (exposition (\<lambda>n. n) (\<lambda>a. ''0'')
       (fst (collectMetrics calm textfile_config (running_world 0 Map.empty))))) 420 Map.empty)"
proof (rule readable.during [OF _ prod.collapse [symmetric]])
  let ?w = "running_world 0 Map.empty"
  show "textfile_writes calm (\<lambda>n. n) (\<lambda>a. ''0'') textfile_config ?w ?w"
    by (rule startTextfileWriter) (simp add: textfile_config_def)
  have "disk (snd (collectMetrics calm textfile_config ?w)) = disk ?w"
    by (rule disk_collectMetrics [OF prod.collapse [symmetric]])
  also have "\<dots> = Map.empty" by (simp add: running_world_def init_world_def)
  finally show "(replace_step (textfile_temp textfile_config) (textfile_final textfile_config)
      (exposition (\<lambda>n. n) (\<lambda>a. ''0'') (fst (collectMetrics calm textfile_config ?w))))\<^sup>*\<^sup>*
    (disk (snd (collectMetrics calm textfile_config ?w)))
    (write_file (textfile_temp textfile_config) (take 4 (exposition (\<lambda>n. n) (\<lambda>a. ''0'')
       (fst (collectMetrics calm textfile_config ?w)))) 420 Map.empty)"
    using write_steps [of "textfile_temp textfile_config" "textfile_final textfile_config"] by simp
qed

theorem reader_sees_whole_reports_witness:
  "\<exists>f. (f (textfile_temp textfile_config) \<noteq> None \<and>
     readable calm (\<lambda>n. n) (\<lambda>a. ''0'') textfile_config (running_world 0 Map.empty) f) \<and>
   (map_option fst (f (textfile_final textfile_config)) =
      map_option fst (disk (running_world 0 Map.empty) (textfile_final textfile_config)) \<or>
    (\<exists>w ss w'. collectMetrics calm textfile_config w = (ss, w') \<and>
      map_option fst (f (textfile_final textfile_config)) = Some (exposition (\<lambda>n. n) (\<lambda>a. ''0'') ss)))"
  using reader_sees_whole_reports [OF torn_write_readable] torn_write_readable
  by (intro exI [of _ "write_file (textfile_temp textfile_config) (take 4 (exposition (\<lambda>n. n) (\<lambda>a. ''0'')
       (fst (collectMetrics calm textfile_config (running_world 0 Map.empty))))) 420 Map.empty"])
     (simp add: write_file_def)

end
