(* ===== verification/Cli.thy ===== *)
theory Cli
  imports Api ConfigProps
begin

text \<open>
  \<open>src/src/remotecli.go\<close> and the dispatch of \<open>main\<close> in \<open>src/src/main.go\<close>: a command of the running
  instance's API is one HTTP request to \<open>127.0.0.1\<close>, on the port and with the token and the TLS
  settings that the environment of the process gives. The network is a parameter, \<open>send\<close>; below it
  is instantiated with the listeners of the running instance. So is \<open>json.Unmarshal\<close> into a map with
  its values printed by \<open>%v\<close>: \<open>decode\<close> lists the members of an object, in the order the map yields.
\<close>

section \<open>Commands\<close>

record apiCLICommand =
  cmd_name :: string
  cmd_method :: string
  cmd_path :: string
  metricsPort :: bool
  unboundedTimeout :: bool

definition api_command :: "string \<Rightarrow> string \<Rightarrow> string \<Rightarrow> bool \<Rightarrow> bool \<Rightarrow> apiCLICommand" where
  "api_command n m p metrics unbounded =
     \<lparr>cmd_name = n, cmd_method = m, cmd_path = p, metricsPort = metrics, unboundedTimeout = unbounded\<rparr>"

definition apiCLICommands :: "apiCLICommand list" where
  "apiCLICommands =
     [api_command ''health'' ''GET'' ''/health'' True False,
      api_command ''ready'' ''GET'' ''/ready'' True False,
      api_command ''status'' ''GET'' ''/status'' True False,
      api_command ''metrics'' ''GET'' ''/metrics'' True False,
      api_command ''promote'' ''POST'' ''/api/promote'' False False,
      api_command ''shutdown'' ''POST'' ''/api/shutdown'' False False,
      api_command ''rejoin'' ''POST'' ''/api/rejoin'' False False,
      api_command ''switchover'' ''POST'' ''/api/switchover'' False False,
      api_command ''maintenance'' ''POST'' ''/api/maintenance'' False False,
      api_command ''start'' ''POST'' ''/api/start'' False False,
      api_command ''backup'' ''POST'' ''/api/backup'' False True]"

definition findAPICommand :: "string \<Rightarrow> apiCLICommand option" where
  "findAPICommand n = find (\<lambda>c. cmd_name c = n) apiCLICommands"

text \<open>Why a command ends with status 1.\<close>

datatype cli_error =
    UnknownOption string string
  | ForceWithoutPromote
  | CliConfigError config_error
  | BuildingRequest int
  | CallingFailed string string
  | ReadingFailed
  | Returned string string int
  | UnknownCommand string
  | TakesNoOptions string "string list"
  | SetPasswordFailed pg_error
  | StdoutBackupFailed pg_error
  | ServiceFailed

text \<open>What a command leaves: its failure, if any, and what it wrote to the standard output.\<close>

datatype cli_end = CliEnd (failure: "cli_error option") (stdout: string)

definition exit_status :: "cli_end \<Rightarrow> int" where
  "exit_status r = (if failure r = None then 0 else 1)"

section \<open>Printing a response\<close>

type_synonym json_object = "string \<Rightarrow> (string \<times> string) list option"

definition printRaw :: "string \<Rightarrow> string" where
  "printRaw b = (if b = [] \<or> last b \<noteq> newline then b @ [newline] else b)"

definition print_field :: "(string \<times> string) list \<Rightarrow> string \<Rightarrow> string" where
  "print_field obj k =
     (case map_of obj k of None \<Rightarrow> [] | Some v \<Rightarrow> k @ ''='' @ v @ [newline])"

definition printAPIResponse :: "json_object \<Rightarrow> string \<Rightarrow> string" where
  "printAPIResponse decode b =
     (case decode b of
        None \<Rightarrow> printRaw b
      | Some obj \<Rightarrow> concat (map (print_field obj) (sort (map fst obj))))"

section \<open>One request\<close>

record http_call =
  callTLS :: "tls_config option"
  callPort :: int
  callMethod :: string
  callTarget :: string
  callAuth :: string
  callTimeout :: duration

datatype http_result = CallFailed | BodyUnreadable | Response int string

type_synonym 's network = "http_call \<Rightarrow> 's \<Rightarrow> http_result \<times> 's"

text \<open>A timeout of zero is none. A negative port makes no URL.\<close>

definition callLocalAPI ::
  "'s network \<Rightarrow> json_object \<Rightarrow> int \<Rightarrow> string \<Rightarrow> string \<Rightarrow> string \<Rightarrow> bool \<Rightarrow> bool \<Rightarrow> tls_config option \<Rightarrow> 's \<Rightarrow>
     cli_end \<times> 's" where
  "callLocalAPI send decode port apiToken meth path jsonOutput unbounded tlsCfg w =
     (if port < 0 then (CliEnd (Some (BuildingRequest port)) [], w)
      else
        (case send \<lparr>callTLS = tlsCfg, callPort = port, callMethod = meth, callTarget = path,
                    callAuth = (if apiToken \<noteq> [] then ''Bearer '' @ apiToken else []),
                    callTimeout = (if unbounded then 0 else peerPromoteTimeout)\<rparr> w of
           (CallFailed, w1) \<Rightarrow> (CliEnd (Some (CallingFailed meth path)) [], w1)
         | (BodyUnreadable, w1) \<Rightarrow> (CliEnd (Some ReadingFailed) [], w1)
         | (Response code b, w1) \<Rightarrow>
             (CliEnd (if code < 200 \<or> 300 \<le> code then Some (Returned meth path code) else None)
                (if jsonOutput then printRaw b else printAPIResponse decode b), w1)))"

text \<open>\<open>None\<close> is a listener without TLS.\<close>

definition localAPITLSSettings :: "os \<Rightarrow> fs \<Rightarrow> config_error + tls_config option" where
  "localAPITLSSettings sys f =
     (let certFile = Getenv sys ''PG_GUARD_SSL_CERT_FILE''; keyFile = Getenv sys ''PG_GUARD_SSL_KEY_FILE''
      in if certFile = [] \<or> keyFile = [] then Inr None
         else bindE (envBool sys ''PG_GUARD_MTLS_REQUIRE'' False) (\<lambda>mtlsRequire.
              buildClientTLSConfig sys f (zero_config\<lparr>
                TLSEnabled := True, TLSCertFile := certFile, TLSKeyFile := keyFile,
                TLSRootCertFile := Getenv sys ''PG_GUARD_SSL_CA_FILE'', MTLSRequire := mtlsRequire\<rparr>)))"

fun cli_options :: "string \<Rightarrow> string list \<Rightarrow> bool \<times> bool \<Rightarrow> cli_error + bool \<times> bool" where
  "cli_options n [] flags = Inr flags"
| "cli_options n (o' # os) (force, json) =
     (if o' = ''-force'' then cli_options n os (True, json)
      else if o' = ''-json'' then cli_options n os (force, True)
      else Inl (UnknownOption n o'))"

definition cli_settings :: "os \<Rightarrow> fs \<Rightarrow> apiCLICommand \<Rightarrow> config_error + int \<times> string \<times> tls_config option" where
  "cli_settings sys f cmd =
     (if metricsPort cmd
      then bindE (envInt sys ''PG_GUARD_METRICS_PORT'' 9100) (\<lambda>port. Inr (port, [], None))
      else bindE (localAPITLSSettings sys f) (\<lambda>tlsCfg.
           bindE (envInt sys ''PG_GUARD_API_PORT'' (if tlsCfg \<noteq> None then 8443 else 8080)) (\<lambda>port.
           Inr (port, Getenv sys ''PG_GUARD_API_TOKEN'', tlsCfg))))"

definition runAPICommand ::
  "os \<Rightarrow> fs \<Rightarrow> 's network \<Rightarrow> json_object \<Rightarrow> apiCLICommand \<Rightarrow> string list \<Rightarrow> 's \<Rightarrow> cli_end \<times> 's" where
  "runAPICommand sys f send decode cmd opts w =
     (case cli_options (cmd_name cmd) opts (False, False) of
        Inl e \<Rightarrow> (CliEnd (Some e) [], w)
      | Inr (force, jsonOutput) \<Rightarrow>
          if force \<and> cmd_name cmd \<noteq> ''promote'' then (CliEnd (Some ForceWithoutPromote) [], w)
          else
            (case cli_settings sys f cmd of
               Inl e \<Rightarrow> (CliEnd (Some (CliConfigError e)) [], w)
             | Inr (port, apiToken, tlsCfg) \<Rightarrow>
                 callLocalAPI send decode port apiToken (cmd_method cmd)
                   (cmd_path cmd @ (if force then ''?force=true'' else []))
                   jsonOutput (unboundedTimeout cmd) tlsCfg w))"

section \<open>The commands of main\<close>

text \<open>\<open>src/src/service_stub.go\<close>: there is no service outside Windows.\<close>

definition isWindowsService :: bool where
  "isWindowsService = False"

definition installService :: "cli_error + unit" where
  "installService = Inl ServiceFailed"

definition uninstallService :: "cli_error + unit" where
  "uninstallService = Inl ServiceFailed"

datatype main_action =
    Interactive
  | AsService
  | Help
  | Version
  | Install
  | Uninstall
  | SetPassword
  | BackupStdout
  | CallAPI apiCLICommand "string list"
  | Refuse cli_error

definition requireNoOpts :: "string \<Rightarrow> string list \<Rightarrow> main_action \<Rightarrow> main_action" where
  "requireNoOpts cmd opts act = (if opts \<noteq> [] then Refuse (TakesNoOptions cmd opts) else act)"

text \<open>\<open>args\<close> is \<open>os.Args\<close> without the name of the program.\<close>

fun main_dispatch :: "string list \<Rightarrow> main_action" where
  "main_dispatch [] = (if isWindowsService then AsService else Interactive)"
| "main_dispatch (cmd # opts) =
     (if cmd \<in> {''help'', ''-h'', ''-help'', ''--help'', ''/help'', ''/?'', ''-?''} then Help
      else if cmd \<in> {''version'', ''-v'', ''-version'', ''--version''} then Version
      else if cmd = ''install-service'' then requireNoOpts cmd opts Install
      else if cmd = ''uninstall-service'' then requireNoOpts cmd opts Uninstall
      else if cmd = ''set-password'' then requireNoOpts cmd opts SetPassword
      else if cmd = ''backup'' \<and> opts = [''-stdout''] then BackupStdout
      else (case findAPICommand cmd of
              Some c \<Rightarrow> CallAPI c opts
            | None \<Rightarrow> Refuse (UnknownCommand cmd)))"

definition say :: "string \<Rightarrow> cli_end" where
  "say msg = CliEnd None (msg @ [newline])"

text \<open>
  What a command does, \<open>None\<close> where \<open>main\<close> goes on as supervisor. \<open>help\<close> stands for the help text,
  \<open>build\<close> for version, commit and date. What \<open>pg_basebackup\<close> writes to the standard output itself is
  not part of \<open>stdout\<close>.
\<close>

definition main_run ::
  "env \<Rightarrow> os \<Rightarrow> fs \<Rightarrow> world network \<Rightarrow> json_object \<Rightarrow> string \<Rightarrow> string \<times> string \<times> string \<Rightarrow> string option \<Rightarrow>
     string list \<Rightarrow> world \<Rightarrow> cli_end option \<times> world" where
  "main_run E sys f send decode help build stdin args w =
     (case main_dispatch args of
        Interactive \<Rightarrow> (None, w)
      | AsService \<Rightarrow> (None, w)
      | Help \<Rightarrow> (Some (say help), w)
      | Version \<Rightarrow>
          (Some (say (''pg-guard '' @ fst build @ '' (commit '' @ fst (snd build) @ '', built ''
             @ snd (snd build) @ '')'')), w)
      | Install \<Rightarrow>
          (Some (case installService of Inl e \<Rightarrow> CliEnd (Some e) []
                 | Inr _ \<Rightarrow> say ''pg-guard service installed.''), w)
      | Uninstall \<Rightarrow>
          (Some (case uninstallService of Inl e \<Rightarrow> CliEnd (Some e) []
                 | Inr _ \<Rightarrow> say ''pg-guard service uninstalled.''), w)
      | SetPassword \<Rightarrow>
          (case loadConfig sys f of
             Inl e \<Rightarrow> (Some (CliEnd (Some (CliConfigError e)) []), w)
           | Inr (cfg, _) \<Rightarrow>
               (case runSetPassword E cfg stdin w of
                  (Inl e, w1) \<Rightarrow> (Some (CliEnd (Some (SetPasswordFailed e)) []), w1)
                | (Inr _, w1) \<Rightarrow> (Some (say ''pg-guard: password updated.''), w1)))
      | BackupStdout \<Rightarrow>
          (case loadConfig sys f of
             Inl e \<Rightarrow> (Some (CliEnd (Some (CliConfigError e)) []), w)
           | Inr (cfg, _) \<Rightarrow>
               (case runBackupToStdout E cfg w of
                  (Inl e, w1) \<Rightarrow> (Some (CliEnd (Some (StdoutBackupFailed e)) []), w1)
                | (Inr _, w1) \<Rightarrow> (Some (CliEnd None []), w1)))
      | CallAPI c opts \<Rightarrow>
          (let (r, w1) = runAPICommand sys f send decode c opts w in (Some r, w1))
      | Refuse e \<Rightarrow> (Some (CliEnd (Some e) []), w))"

section \<open>The running instance on the other end\<close>

text \<open>
  What \<open>net/http\<close> reads of a call made on the same host: the path, the query parameter \<open>force\<close>, the
  bearer token, and the loopback address as the caller's.
\<close>

definition target_path :: "string \<Rightarrow> string" where
  "target_path t = takeWhile (\<lambda>c. c \<noteq> CHR ''?'') t"

definition target_force :: "string \<Rightarrow> string" where
  "target_force t = (let q = drop 1 (dropWhile (\<lambda>c. c \<noteq> CHR ''?'') t)
     in if HasPrefix q ''force='' then TrimPrefix q ''force='' else [])"

definition received :: "http_call \<Rightarrow> request" where
  "received call =
     \<lparr>reqMethod = callMethod call, reqPath = target_path (callTarget call),
      forceParam = target_force (callTarget call), authHeader = callAuth call,
      RemoteAddr = ''127.0.0.1:40000''\<rparr>"

text \<open>
  A handshake: each side checks the other's certificate as its configuration says; \<open>trusts\<close> is the
  verification of \<open>crypto/x509\<close>.
\<close>

definition handshake :: "(string \<Rightarrow> string \<times> string \<Rightarrow> bool) \<Rightarrow> tls_config \<Rightarrow> tls_config \<Rightarrow> bool" where
  "handshake trusts server client \<longleftrightarrow>
     (InsecureSkipVerify client \<or>
        (\<exists>c \<in> set (Certificates server). \<exists>p. RootCAs client = Some p \<and> trusts p c)) \<and>
     (RequireClientCert server \<longrightarrow>
        (\<exists>c \<in> set (Certificates client). \<exists>p. ClientCAs server = Some p \<and> trusts p c))"

definition connects ::
  "(string \<Rightarrow> string \<times> string \<Rightarrow> bool) \<Rightarrow> tls_config option \<Rightarrow> tls_config option \<Rightarrow> bool" where
  "connects trusts server client =
     (case (server, client) of
        (None, None) \<Rightarrow> True
      | (Some s, Some c) \<Rightarrow> handshake trusts s c
      | _ \<Rightarrow> False)"

text \<open>A reply that comes too late is none; the handler has run all the same.\<close>

definition deliver :: "(body \<Rightarrow> string) \<Rightarrow> handler \<Rightarrow> world network" where
  "deliver encode h call w =
     (let ((rep, ex), w1) = h (received call) w
      in (if callTimeout call \<noteq> 0 \<and> callTimeout call \<le> now w1 - now w then CallFailed
          else Response (status_code rep) (encode (content rep)), w1))"

text \<open>
  The two listeners, with the TLS settings \<open>server\<close> of the first. Both are bound to \<open>PG_GUARD_API_BIND\<close>,
  and the command line calls 127.0.0.1: \<open>hears\<close> says of an address whether a listener bound to it gets
  such connections (one bound to all addresses does, one bound to another address does not).
\<close>

definition loopback ::
  "(string \<Rightarrow> bool) \<Rightarrow> (string \<Rightarrow> string \<times> string \<Rightarrow> bool) \<Rightarrow> (body \<Rightarrow> string) \<Rightarrow> env \<Rightarrow> config \<Rightarrow> tls_config option \<Rightarrow>
     string \<times> string \<times> string \<Rightarrow> serve \<Rightarrow> world network" where
  "loopback hears trusts encode E cfg server build serve call w =
     (if \<not> hears (APIBind cfg) then (CallFailed, w)
      else if callPort call = APIPort cfg
      then if connects trusts server (callTLS call)
           then deliver encode (api_server E cfg build serve) call w else (CallFailed, w)
      else if callPort call = MetricsPort cfg \<and> callTLS call = None
      then deliver encode (metrics_server E cfg build) call w
      else (CallFailed, w))"

end
