(* ===== verification/CliProps.thy ===== *)
theory CliProps
  imports Cli Boot
begin

text \<open>
  The command line and the running instance agree: both read the same environment, so the request of
  a command reaches the handler of the endpoint it names, whatever ports, token and TLS files are
  configured, unless the instance asks for the origin of its callers.
\<close>

section \<open>What the instance reads of the environment\<close>

definition tls_part :: "config \<Rightarrow> bool \<times> bool \<times> string \<times> string \<times> string" where
  "tls_part c = (TLSEnabled c, MTLSRequire c, TLSCertFile c, TLSKeyFile c, TLSRootCertFile c)"

definition listen_part :: "config \<Rightarrow> int \<times> int \<times> string" where
  "listen_part c = (APIPort c, MetricsPort c, APIToken c)"

lemma parts_kept:
  "load_peer sys c = Inr c' \<Longrightarrow> tls_part c' = tls_part c \<and> listen_part c' = listen_part c"
  "load_ha sys c = Inr c' \<Longrightarrow> tls_part c' = tls_part c \<and> listen_part c' = listen_part c"
  "load_backup sys c = Inr c' \<Longrightarrow> tls_part c' = tls_part c \<and> listen_part c' = listen_part c"
  "load_restart sys c = Inr c' \<Longrightarrow> tls_part c' = tls_part c \<and> listen_part c' = listen_part c"
  unfolding load_peer_def load_ha_def load_backup_def load_restart_def Let_def tls_part_def listen_part_def
  by (elim accepted_E, simp)+

lemma listeners_read:
  assumes "load_listeners sys c = Inr c'"
  shows "tls_part c' = tls_part c \<and> APIToken c' = Getenv sys ''PG_GUARD_API_TOKEN'' \<and>
    envInt sys ''PG_GUARD_API_PORT'' (if TLSEnabled c then 8443 else 8080) = Inr (APIPort c') \<and>
    envInt sys ''PG_GUARD_METRICS_PORT'' 9100 = Inr (MetricsPort c')"
  using assms unfolding load_listeners_def Let_def tls_part_def
  by (elim accepted_E) simp

text \<open>The sources of the TLS files, and where they are staged.\<close>

definition tls_sources :: "os \<Rightarrow> string list" where
  "tls_sources sys =
     (let cert = Getenv sys ''PG_GUARD_SSL_CERT_FILE''; key = Getenv sys ''PG_GUARD_SSL_KEY_FILE'';
          ca = Getenv sys ''PG_GUARD_SSL_CA_FILE''
      in if cert = [] \<or> key = [] then [] else [cert, key] @ (if ca = [] then [] else [ca]))"

definition staged_path :: "os \<Rightarrow> string \<Rightarrow> string" where
  "staged_path sys src = JoinPath [JoinPath [TempDir sys, ''pg-guard'', ''tls''], Base src]"

lemma staged_path_nonempty: "staged_path sys src \<noteq> []"
  by (simp add: staged_path_def JoinPath_Base_nonempty)

text \<open>No two files are staged to one path, and none is staged over another's source.\<close>

definition staging_ok :: "os \<Rightarrow> bool" where
  "staging_ok sys \<longleftrightarrow> distinct (map (staged_path sys) (tls_sources sys)) \<and>
     (\<forall>s \<in> set (tls_sources sys). staged_path sys s \<notin> set (tls_sources sys))"

definition bytes_at :: "fs \<Rightarrow> string \<Rightarrow> string option" where
  "bytes_at f p = map_option fst (f p)"

lemma bytes_at_write: "bytes_at (write_file p c m f) q = (if q = p then Some c else bytes_at f q)"
  by (simp add: bytes_at_def)

lemma LoadX509KeyPair_bytes:
  "LoadX509KeyPair sys f c k =
     (case (bytes_at f c, bytes_at f k) of
        (Some x, Some y) \<Rightarrow> if X509KeyPair sys x y then Inr (x, y) else Inl TLSInvalid
      | _ \<Rightarrow> Inl TLSInvalid)"
  by (auto simp: LoadX509KeyPair_def bytes_at_def split: option.splits)

lemma loadCertPool_bytes:
  "loadCertPool sys f p =
     (case bytes_at f p of
        None \<Rightarrow> Inl TLSInvalid
      | Some pem \<Rightarrow> if CertsInPEM sys pem then Inr pem else Inl TLSInvalid)"
  by (auto simp: loadCertPool_def bytes_at_def split: option.splits)

text \<open>The TLS settings of a client depend on the contents of the files only.\<close>

lemma buildClientTLSConfig_cong:
  assumes "TLSEnabled c = TLSEnabled d" and "MTLSRequire c = MTLSRequire d"
    and "TLSRootCertFile c = [] \<longleftrightarrow> TLSRootCertFile d = []"
    and "bytes_at f (TLSCertFile c) = bytes_at g (TLSCertFile d)"
    and "bytes_at f (TLSKeyFile c) = bytes_at g (TLSKeyFile d)"
    and "TLSRootCertFile c \<noteq> [] \<Longrightarrow> bytes_at f (TLSRootCertFile c) = bytes_at g (TLSRootCertFile d)"
  shows "buildClientTLSConfig sys f c = buildClientTLSConfig sys g d"
proof -
  have "LoadX509KeyPair sys f (TLSCertFile c) (TLSKeyFile c) = LoadX509KeyPair sys g (TLSCertFile d) (TLSKeyFile d)"
    using assms(4,5) by (simp add: LoadX509KeyPair_bytes)
  moreover have "loadCertPool sys f (TLSRootCertFile c) = loadCertPool sys g (TLSRootCertFile d)"
    if "TLSRootCertFile c \<noteq> []"
    using assms(6) [OF that] by (simp add: loadCertPool_bytes)
  ultimately show ?thesis using assms(1-3) unfolding buildClientTLSConfig_def by (auto simp: Let_def)
qed

lemma buildServerTLSConfig_cong:
  assumes "tls_part c = tls_part d"
  shows "buildServerTLSConfig sys f c = buildServerTLSConfig sys f d"
proof -
  from assms have "TLSCertFile c = TLSCertFile d" "TLSKeyFile c = TLSKeyFile d"
    "TLSRootCertFile c = TLSRootCertFile d" "MTLSRequire c = MTLSRequire d"
    by (simp_all add: tls_part_def)
  then show ?thesis by (simp only: buildServerTLSConfig_def)
qed

lemma stageTLSFile_bytes:
  assumes "stageTLSFile sys src perm f = Inr (dst, f')"
  shows "dst = staged_path sys src \<and> bytes_at f' dst = bytes_at f src \<and> bytes_at f src \<noteq> None \<and>
    (\<forall>q. q \<noteq> dst \<longrightarrow> bytes_at f' q = bytes_at f q)"
  using assms by (rule stageTLSFile_ok) (simp add: staged_path_def bytes_at_write, simp add: bytes_at_def)

lemma staged_bytes:
  assumes st: "stage_tls_files sys c f = Inr (c', f')"
    and src: "tls_part c = (True, m, Getenv sys ''PG_GUARD_SSL_CERT_FILE'',
      Getenv sys ''PG_GUARD_SSL_KEY_FILE'', Getenv sys ''PG_GUARD_SSL_CA_FILE'')"
    and set: "Getenv sys ''PG_GUARD_SSL_CERT_FILE'' \<noteq> []" "Getenv sys ''PG_GUARD_SSL_KEY_FILE'' \<noteq> []"
    and ok: "staging_ok sys"
  shows "TLSEnabled c' \<and> MTLSRequire c' = m \<and>
    (TLSRootCertFile c' = [] \<longleftrightarrow> TLSRootCertFile c = []) \<and>
    bytes_at f' (TLSCertFile c') = bytes_at f (TLSCertFile c) \<and>
    bytes_at f' (TLSKeyFile c') = bytes_at f (TLSKeyFile c) \<and>
    (TLSRootCertFile c \<noteq> [] \<longrightarrow> bytes_at f' (TLSRootCertFile c') = bytes_at f (TLSRootCertFile c)) \<and>
    (\<exists>t. buildServerTLSConfig sys f' c' = Inr t)"
proof -
  note eq0 = st [unfolded stage_tls_files_def Let_def]
  then obtain cert f1 where s1: "stageTLSFile sys (TLSCertFile c) 420 f = Inr (cert, f1)"
    by (rule bindE_E) (metis prod.exhaust)
  note eq1 = eq0 [unfolded s1 bindE_simps prod.case]
  then obtain key f2 where s2: "stageTLSFile sys (TLSKeyFile c) 384 f1 = Inr (key, f2)"
    by (rule bindE_E) (metis prod.exhaust)
  note eq2 = eq1 [unfolded s2 bindE_simps prod.case]
  then obtain ca f3 where
    s3: "(if TLSRootCertFile c = [] then Inr ([], f2) else stageTLSFile sys (TLSRootCertFile c) 420 f2) = Inr (ca, f3)"
    by (rule bindE_E) (metis prod.exhaust)
  note eq3 = eq2 [unfolded s3 bindE_simps prod.case]
  then obtain t where
    b: "buildServerTLSConfig sys f3 (c\<lparr>TLSCertFile := cert, TLSKeyFile := key, TLSRootCertFile := ca\<rparr>) = Inr t"
    by (rule bindE_E) blast
  have c': "TLSCertFile c' = cert" "TLSKeyFile c' = key" "TLSRootCertFile c' = ca" "f' = f3"
    "TLSEnabled c' = TLSEnabled c" "MTLSRequire c' = MTLSRequire c"
    using eq3 [unfolded b bindE_simps] by auto
  have b': "buildServerTLSConfig sys f' c' = Inr t"
    using b c' buildServerTLSConfig_cong
      [of c' "c\<lparr>TLSCertFile := cert, TLSKeyFile := key, TLSRootCertFile := ca\<rparr>"]
    by (simp add: tls_part_def)
  note p1 = stageTLSFile_bytes [OF s1] and p2 = stageTLSFile_bytes [OF s2]
  have srcs: "TLSEnabled c" "MTLSRequire c = m" "TLSCertFile c = Getenv sys ''PG_GUARD_SSL_CERT_FILE''"
    "TLSKeyFile c = Getenv sys ''PG_GUARD_SSL_KEY_FILE''" "TLSRootCertFile c = Getenv sys ''PG_GUARD_SSL_CA_FILE''"
    using src by (simp_all add: tls_part_def)
  have ne: "cert \<noteq> key" "cert \<noteq> TLSKeyFile c"
    using ok p1 [THEN conjunct1] p2 [THEN conjunct1]
    by (simp_all add: srcs set staging_ok_def tls_sources_def Let_def split: if_splits)
  have f2: "bytes_at f2 cert = bytes_at f (TLSCertFile c)" "bytes_at f2 key = bytes_at f (TLSKeyFile c)"
    using p1 p2 ne by auto
  show ?thesis
  proof (cases "TLSRootCertFile c = []")
    case True
    with s3 have "ca = []" "f3 = f2" by simp_all
    with True f2 srcs c' b' show ?thesis by blast
  next
    case False
    with s3 have "stageTLSFile sys (TLSRootCertFile c) 420 f2 = Inr (ca, f3)" by simp
    note p3 = stageTLSFile_bytes [OF this]
    have "ca \<noteq> []" using p3 by (simp add: staged_path_nonempty)
    have ne3: "cert \<noteq> ca" "key \<noteq> ca" "cert \<noteq> TLSRootCertFile c" "key \<noteq> TLSRootCertFile c"
      using ok False p1 [THEN conjunct1] p2 [THEN conjunct1] p3 [THEN conjunct1]
      by (simp_all add: srcs set staging_ok_def tls_sources_def Let_def)
    have "bytes_at f3 cert = bytes_at f2 cert" "bytes_at f3 key = bytes_at f2 key"
      using p3 ne3(1,2) by auto
    moreover have "bytes_at f3 ca = bytes_at f (TLSRootCertFile c)"
      using p1 p2 p3 ne3(3,4) by auto
    ultimately show ?thesis using False \<open>ca \<noteq> []\<close> f2 srcs c' b' by simp
  qed
qed

section \<open>The command line reads the same\<close>

lemma load_tls_cases:
  assumes "load_tls sys c f = Inr (c', f')"
  obtains (off) "Getenv sys ''PG_GUARD_SSL_CERT_FILE'' = [] \<or> Getenv sys ''PG_GUARD_SSL_KEY_FILE'' = []"
      "\<not> TLSEnabled c'"
  | (on) m d where "Getenv sys ''PG_GUARD_SSL_CERT_FILE'' \<noteq> []" "Getenv sys ''PG_GUARD_SSL_KEY_FILE'' \<noteq> []"
      "envBool sys ''PG_GUARD_MTLS_REQUIRE'' False = Inr m"
      "tls_part d = (True, m, Getenv sys ''PG_GUARD_SSL_CERT_FILE'', Getenv sys ''PG_GUARD_SSL_KEY_FILE'',
        Getenv sys ''PG_GUARD_SSL_CA_FILE'')"
      "stage_tls_files sys d f = Inr (c', f')"
proof -
  define cert key ca where "cert = Getenv sys ''PG_GUARD_SSL_CERT_FILE''"
    and "key = Getenv sys ''PG_GUARD_SSL_KEY_FILE''" and "ca = Getenv sys ''PG_GUARD_SSL_CA_FILE''"
  define enabled where "enabled \<longleftrightarrow> cert \<noteq> [] \<and> key \<noteq> []"
  define d where "d m = c\<lparr>TLSCertFile := cert, TLSKeyFile := key, TLSRootCertFile := ca,
      TLSEnabled := enabled, MTLSRequire := m\<rparr>" for m
  have eq: "load_tls sys c f = bindE (envBool sys ''PG_GUARD_MTLS_REQUIRE'' False) (\<lambda>m.
      if m \<and> (\<not> enabled \<or> ca = []) then Inl MTLSNeedsTLS
      else if enabled then stage_tls_files sys (d m) f else Inr (d m, f))"
    by (simp only: load_tls_def Let_def cert_def key_def ca_def enabled_def d_def)
  obtain m where m: "envBool sys ''PG_GUARD_MTLS_REQUIRE'' False = Inr m"
    using assms unfolding eq by (cases "envBool sys ''PG_GUARD_MTLS_REQUIRE'' False") simp_all
  have rest: "(if enabled then stage_tls_files sys (d m) f else Inr (d m, f)) = Inr (c', f')"
    using assms unfolding eq m by (simp split: if_splits)
  show thesis
  proof (cases enabled)
    case True
    with rest on [of m "d m"] m show thesis
      by (simp add: enabled_def tls_part_def d_def cert_def key_def ca_def)
  next
    case False
    with rest off show thesis by (auto simp: enabled_def d_def cert_def key_def)
  qed
qed

lemma cli_settings_match:
  assumes load: "loadConfig sys f = Inr (cfg, f')" and client: "buildClientTLSConfig sys f' cfg = Inr t"
    and ok: "staging_ok sys" and same: "\<forall>s \<in> set (tls_sources sys). bytes_at g s = bytes_at f s"
  shows "cli_settings sys g cmd =
    Inr (if metricsPort cmd then (MetricsPort cfg, [], None) else (APIPort cfg, APIToken cfg, t))"
proof -
  from load obtain c1 c2 c3 c4 c5 c6 where c: "load_tls sys c1 f = Inr (c2, f')"
    "load_listeners sys c2 = Inr c3" "load_peer sys c3 = Inr c4" "load_ha sys c4 = Inr c5"
    "load_backup sys c5 = Inr c6" "load_restart sys c6 = Inr cfg"
    by (rule loadConfig_stages)
  have parts: "tls_part cfg = tls_part c2" "listen_part cfg = listen_part c3"
    using parts_kept(1) [OF c(3)] parts_kept(2) [OF c(4)] parts_kept(3) [OF c(5)] parts_kept(4) [OF c(6)]
      listeners_read [OF c(2)] by simp_all
  have api: "envInt sys ''PG_GUARD_API_PORT'' (if TLSEnabled c2 then 8443 else 8080) = Inr (APIPort cfg)"
    and metrics: "envInt sys ''PG_GUARD_METRICS_PORT'' 9100 = Inr (MetricsPort cfg)"
    and token: "Getenv sys ''PG_GUARD_API_TOKEN'' = APIToken cfg"
    using listeners_read [OF c(2)] parts(2) by (simp_all add: listen_part_def)
  have "localAPITLSSettings sys g = Inr t \<and> (t \<noteq> None) = TLSEnabled c2"
    using c(1)
  proof (cases rule: load_tls_cases)
    case off
    have "\<not> TLSEnabled cfg" using off(2) parts(1) by (simp add: tls_part_def)
    with client have "t = None" by (simp add: buildClientTLSConfig_def)
    with off show ?thesis by (auto simp: localAPITLSSettings_def)
  next
    case (on m d)
    note s = staged_bytes [OF on(5,4,1,2) ok]
    have src: "TLSCertFile d = Getenv sys ''PG_GUARD_SSL_CERT_FILE''"
      "TLSKeyFile d = Getenv sys ''PG_GUARD_SSL_KEY_FILE''" "TLSRootCertFile d = Getenv sys ''PG_GUARD_SSL_CA_FILE''"
      using on(4) by (simp_all add: tls_part_def)
    have "buildClientTLSConfig sys g (zero_config\<lparr>TLSEnabled := True,
        TLSCertFile := Getenv sys ''PG_GUARD_SSL_CERT_FILE'', TLSKeyFile := Getenv sys ''PG_GUARD_SSL_KEY_FILE'',
        TLSRootCertFile := Getenv sys ''PG_GUARD_SSL_CA_FILE'', MTLSRequire := m\<rparr>) =
      buildClientTLSConfig sys f' cfg"
      using s parts(1) same on(1,2)
      by (intro buildClientTLSConfig_cong) (simp_all add: tls_part_def src tls_sources_def Let_def)
    with client on(1-3) have "localAPITLSSettings sys g = Inr t"
      by (simp add: localAPITLSSettings_def)
    moreover have "TLSEnabled c2" using s by simp
    moreover from this have "t \<noteq> None"
      using client parts(1) by (auto simp: buildClientTLSConfig_def tls_part_def Let_def bindE_Inr_iff split: if_splits)
    ultimately show ?thesis by simp
  qed
  then show ?thesis
    by (cases "metricsPort cmd") (simp_all add: cli_settings_def metrics api token)
qed

lemma ports_differ:
  assumes "loadConfig sys f = Inr (cfg, f')"
  shows "APIPort cfg \<noteq> MetricsPort cfg"
proof -
  from assms obtain c2 c3 c4 c5 c6 where c: "load_listeners sys c2 = Inr c3" "load_peer sys c3 = Inr c4"
    "load_ha sys c4 = Inr c5" "load_backup sys c5 = Inr c6" "load_restart sys c6 = Inr cfg"
    by (rule loadConfig_stages)
  have "listen_part cfg = listen_part c3"
    using parts_kept(1) [OF c(2)] parts_kept(2) [OF c(3)] parts_kept(3) [OF c(4)] parts_kept(4) [OF c(5)]
    by simp
  with load_listeners_ok [OF c(1)] show ?thesis by (simp add: listen_part_def listeners_ok_def)
qed

section \<open>From the command to the handler\<close>

lemma cli_options_known:
  "set opts \<subseteq> {''-force'', ''-json''} \<Longrightarrow>
     cli_options n opts (a, b) = Inr (a \<or> ''-force'' \<in> set opts, b \<or> ''-json'' \<in> set opts)"
  by (induction opts arbitrary: a b) auto

lemma target_plain:
  assumes "CHR ''?'' \<notin> set p"
  shows "target_path p = p" "target_force p = []"
    "target_path (p @ ''?force=true'') = p" "target_force (p @ ''?force=true'') = ''true''"
proof -
  have p: "takeWhile (\<lambda>c. c \<noteq> CHR ''?'') p = p" "dropWhile (\<lambda>c. c \<noteq> CHR ''?'') p = []"
    using assms by (auto simp: takeWhile_eq_all_conv dropWhile_eq_Nil_conv)
  have q: "takeWhile (\<lambda>c. c \<noteq> CHR ''?'') (p @ CHR ''?'' # q) = p"
    "dropWhile (\<lambda>c. c \<noteq> CHR ''?'') (p @ CHR ''?'' # q) = CHR ''?'' # q" for q
    using assms by (auto simp: takeWhile_append dropWhile_append)
  show "target_path p = p" "target_force p = []"
    by (simp_all add: target_path_def target_force_def p HasPrefix_def)
  show "target_path (p @ ''?force=true'') = p" "target_force (p @ ''?force=true'') = ''true''"
    by (simp_all add: target_path_def target_force_def q HasPrefix_def TrimPrefix_def)
qed

lemma command_paths: "cmd \<in> set apiCLICommands \<Longrightarrow> CHR ''?'' \<notin> set (cmd_path cmd)"
  unfolding apiCLICommands_def api_command_def list.set insert_iff empty_iff
  by (elim disjE) simp_all

definition routed :: "request \<Rightarrow> route list \<Rightarrow> handler \<Rightarrow> bool" where
  "routed r routes h \<longleftrightarrow> (\<exists>m p. find (takes r) routes = Some (m, p, h))"

lemma ServeHTTP_routed: "routed r routes h \<Longrightarrow> ServeHTTP routes r w = h r w"
  by (auto simp: routed_def ServeHTTP_def)

text \<open>Every command has its route, with the method and the path of its table.\<close>

lemma command_route:
  assumes "cmd \<in> set apiCLICommands" and "reqMethod r = cmd_method cmd" and "reqPath r = cmd_path cmd"
  obtains (read) h where "metricsPort cmd" "(cmd_method cmd, cmd_path cmd, h) \<in> set (read_routes E cfg build)"
      "routed r (read_routes E cfg build) h"
  | (control) h where "\<not> metricsPort cmd"
      "(cmd_method cmd, cmd_path cmd, h) \<in> set (control_routes E cfg serve)"
      "routed r (read_routes E cfg build @ map (guard_route E cfg) (control_routes E cfg serve))
         (requireHAAuth E cfg refusal h)"
proof -
  have "(metricsPort cmd \<and> (\<exists>h. (cmd_method cmd, cmd_path cmd, h) \<in> set (read_routes E cfg build) \<and>
      routed r (read_routes E cfg build) h)) \<or>
    (\<not> metricsPort cmd \<and> (\<exists>h. (cmd_method cmd, cmd_path cmd, h) \<in> set (control_routes E cfg serve) \<and>
      routed r (read_routes E cfg build @ map (guard_route E cfg) (control_routes E cfg serve))
         (requireHAAuth E cfg refusal h)))"
    using assms(1) assms(2,3)
    unfolding apiCLICommands_def api_command_def list.set insert_iff empty_iff
    by (elim disjE) (simp_all add: routed_def takes_def read_routes_def control_routes_def guard_route_def)
  then show thesis using read control by blast
qed

text \<open>How a command ends when its handler answered, in time or too late.\<close>

definition cli_outcome ::
  "(body \<Rightarrow> string) \<Rightarrow> json_object \<Rightarrow> apiCLICommand \<Rightarrow> string list \<Rightarrow> gotime \<Rightarrow> answer \<times> world \<Rightarrow> cli_end \<times> world" where
  "cli_outcome encode decode cmd opts began = (\<lambda>((rep, ex), w').
     let target = cmd_path cmd @ (if ''-force'' \<in> set opts then ''?force=true'' else []);
         text = encode (content rep)
     in (if \<not> unboundedTimeout cmd \<and> peerPromoteTimeout \<le> now w' - began
         then CliEnd (Some (CallingFailed (cmd_method cmd) target)) []
         else CliEnd (if 200 \<le> status_code rep \<and> status_code rep < 300 then None
                      else Some (Returned (cmd_method cmd) target (status_code rep)))
                (if ''-json'' \<in> set opts then printRaw text else printAPIResponse decode text), w'))"

lemma runAPICommand_settings:
  assumes "cli_settings sys g cmd = Inr (port, token, t)" and "0 \<le> port"
    and "set opts \<subseteq> {''-force'', ''-json''}" and "''-force'' \<in> set opts \<Longrightarrow> cmd_name cmd = ''promote''"
    and "send \<lparr>callTLS = t, callPort = port, callMethod = cmd_method cmd,
        callTarget = cmd_path cmd @ (if ''-force'' \<in> set opts then ''?force=true'' else []),
        callAuth = (if token \<noteq> [] then ''Bearer '' @ token else []),
        callTimeout = (if unboundedTimeout cmd then 0 else peerPromoteTimeout)\<rparr> w =
      (if \<not> unboundedTimeout cmd \<and> peerPromoteTimeout \<le> now w' - now w then CallFailed
       else Response (status_code rep) (encode (content rep)), w')"
  shows "runAPICommand sys g send decode cmd opts w = cli_outcome encode decode cmd opts (now w) ((rep, ex), w')"
proof -
  have "cli_options (cmd_name cmd) opts (False, False) = Inr (''-force'' \<in> set opts, ''-json'' \<in> set opts)"
    using cli_options_known [OF assms(3), of "cmd_name cmd" False False] by simp
  moreover have "\<not> (''-force'' \<in> set opts \<and> cmd_name cmd \<noteq> ''promote'')" using assms(4) by blast
  ultimately show ?thesis
    using assms(2,5) by (simp add: runAPICommand_def assms(1) callLocalAPI_def cli_outcome_def Let_def not_less not_le)
qed

text \<open>The certificate of the node verifies under its own authority.\<close>

definition own_certificate_trusted :: "(string \<Rightarrow> string \<times> string \<Rightarrow> bool) \<Rightarrow> os \<Rightarrow> fs \<Rightarrow> config \<Rightarrow> bool" where
  "own_certificate_trusted trusts sys f cfg \<longleftrightarrow>
     (case (loadCertPool sys f (TLSRootCertFile cfg), LoadX509KeyPair sys f (TLSCertFile cfg) (TLSKeyFile cfg)) of
        (Inr pool, Inr c) \<Rightarrow> trusts pool c
      | _ \<Rightarrow> True)"

lemma own_listener_accepts:
  assumes "buildClientTLSConfig sys f cfg = Inr t"
    and "TLSEnabled cfg \<Longrightarrow> buildServerTLSConfig sys f cfg = Inr st"
    and "own_certificate_trusted trusts sys f cfg"
  shows "connects trusts (if TLSEnabled cfg then Some st else None) t"
proof (cases "TLSEnabled cfg")
  case False
  with assms(1) show ?thesis by (simp add: buildClientTLSConfig_def connects_def)
next
  case True
  from assms(2) [OF this] obtain c where c: "LoadX509KeyPair sys f (TLSCertFile cfg) (TLSKeyFile cfg) = Inr c"
    unfolding buildServerTLSConfig_def by (rule bindE_E)
  show ?thesis
  proof (cases "loadCertPool sys f (TLSRootCertFile cfg)")
    case (Inl e)
    with assms(1) assms(2) [OF True] True c show ?thesis
      by (auto simp: buildClientTLSConfig_def buildServerTLSConfig_def connects_def handshake_def Let_def
          split: if_splits)
  next
    case (Inr pool)
    with assms True c show ?thesis
      by (auto simp: buildClientTLSConfig_def buildServerTLSConfig_def connects_def handshake_def
          own_certificate_trusted_def Let_def split: if_splits)
  qed
qed

lemma server_tls_built:
  assumes load: "loadConfig sys f = Inr (cfg, f')" and ok: "staging_ok sys" and tls: "TLSEnabled cfg"
  shows "buildServerTLSConfig sys f' cfg = Inr (projr (buildServerTLSConfig sys f' cfg))"
proof -
  from load obtain c1 c2 c3 c4 c5 c6 where c: "load_tls sys c1 f = Inr (c2, f')"
    "load_listeners sys c2 = Inr c3" "load_peer sys c3 = Inr c4" "load_ha sys c4 = Inr c5"
    "load_backup sys c5 = Inr c6" "load_restart sys c6 = Inr cfg"
    by (rule loadConfig_stages)
  have parts: "tls_part cfg = tls_part c2"
    using parts_kept(1) [OF c(3)] parts_kept(2) [OF c(4)] parts_kept(3) [OF c(5)] parts_kept(4) [OF c(6)]
      listeners_read [OF c(2)] by simp
  from c(1) have "\<exists>st. buildServerTLSConfig sys f' c2 = Inr st"
  proof (cases rule: load_tls_cases)
    case off
    with parts tls show ?thesis by (simp add: tls_part_def)
  next
    case (on m d)
    from staged_bytes [OF on(5,4,1,2) ok] show ?thesis by blast
  qed
  with buildServerTLSConfig_cong [OF parts] show ?thesis by auto
qed

definition server_tls :: "os \<Rightarrow> fs \<Rightarrow> config \<Rightarrow> tls_config option" where
  "server_tls sys f cfg =
     (if TLSEnabled cfg then Some (projr (buildServerTLSConfig sys f cfg)) else None)"

text \<open>These are the settings the process starts its API listener with.\<close>

lemma startAPIServer_server_tls:
  "startAPIServer sys cfg w = Inr srv \<Longrightarrow> listenTLS srv = server_tls sys (disk w) cfg"
  by (auto simp: startAPIServer_def server_tls_def Let_def bindE_Inr_iff split: if_splits)

lemma requireHAAuth_open:
  assumes "holds_token cfg r" and "PeerVerify cfg = ''off''"
  shows "requireHAAuth E cfg refuse h r w = h r w"
  using assms checkAPIToken_iff [of cfg r] by (simp add: requireHAAuth_def checkPeerOrigin_def)

lemma deliver_eq:
  assumes "h' (received call) w = ((rep, ex), w')"
  shows "deliver encode h' call w =
    (if callTimeout call \<noteq> 0 \<and> callTimeout call \<le> now w' - now w then CallFailed
     else Response (status_code rep) (encode (content rep)), w')"
  using assms by (simp add: deliver_def)

text \<open>What the instance receives, and from which of its listeners the command gets its answer.\<close>

definition cli_request :: "config \<Rightarrow> apiCLICommand \<Rightarrow> string list \<Rightarrow> request" where
  "cli_request cfg cmd opts =
     \<lparr>reqMethod = cmd_method cmd, reqPath = cmd_path cmd,
      forceParam = (if ''-force'' \<in> set opts then ''true'' else []),
      authHeader = (if metricsPort cmd \<or> APIToken cfg = [] then [] else ''Bearer '' @ APIToken cfg),
      RemoteAddr = ''127.0.0.1:40000''\<rparr>"

lemma cli_call:
  assumes load: "loadConfig sys f = Inr (cfg, f')" and client: "buildClientTLSConfig sys f' cfg = Inr t"
    and ok: "staging_ok sys" and trust: "own_certificate_trusted trusts sys f' cfg"
    and same: "\<forall>s \<in> set (tls_sources sys). bytes_at g s = bytes_at f s"
    and ports: "0 \<le> APIPort cfg" "0 \<le> MetricsPort cfg" and heard: "hears (APIBind cfg)"
    and cmd: "cmd \<in> set apiCLICommands"
    and opts: "set opts \<subseteq> {''-force'', ''-json''}" "''-force'' \<in> set opts \<Longrightarrow> cmd_name cmd = ''promote''"
  shows "runAPICommand sys g (loopback hears trusts encode E cfg (server_tls sys f' cfg) build serve) decode cmd opts w =
    cli_outcome encode decode cmd opts (now w)
      ((if metricsPort cmd then metrics_server E cfg build else api_server E cfg build serve)
         (cli_request cfg cmd opts) w)"
proof -
  define target where "target = cmd_path cmd @ (if ''-force'' \<in> set opts then ''?force=true'' else [])"
  define token where "token = (if metricsPort cmd then [] else APIToken cfg)"
  define call where "call = \<lparr>callTLS = (if metricsPort cmd then None else t),
      callPort = (if metricsPort cmd then MetricsPort cfg else APIPort cfg),
      callMethod = cmd_method cmd, callTarget = target,
      callAuth = (if token \<noteq> [] then ''Bearer '' @ token else []),
      callTimeout = (if unboundedTimeout cmd then 0 else peerPromoteTimeout)\<rparr>"
  let ?net = "loopback hears trusts encode E cfg (server_tls sys f' cfg) build serve"
  let ?h = "if metricsPort cmd then metrics_server E cfg build else api_server E cfg build serve"
  have r: "received call = cli_request cfg cmd opts"
    using target_plain [OF command_paths [OF cmd]]
    by (simp add: received_def cli_request_def call_def target_def token_def)
  have settings: "cli_settings sys g cmd = Inr (callPort call, token, callTLS call)"
    using cli_settings_match [OF load client ok same, of cmd] by (simp add: call_def token_def)
  have "connects trusts (server_tls sys f' cfg) t"
    using own_listener_accepts [OF client server_tls_built [OF load ok] trust] by (simp add: server_tls_def)
  then have net: "?net call w = deliver encode ?h call w"
    using ports_differ [OF load] heard by (simp add: loopback_def call_def)
  obtain rep ex w' where h: "?h (cli_request cfg cmd opts) w = ((rep, ex), w')" by (metis prod.exhaust)
  then have "?h (received call) w = ((rep, ex), w')" by (simp only: r)
  from deliver_eq [of ?h call w rep ex w' encode, OF this] have "?net call w =
    (if \<not> unboundedTimeout cmd \<and> peerPromoteTimeout \<le> now w' - now w then CallFailed
     else Response (status_code rep) (encode (content rep)), w')"
    unfolding net by (simp add: call_def peerPromoteTimeout_def time_units)
  then show ?thesis
    using runAPICommand_settings [OF settings, where send = ?net and opts = opts and w = w and w' = w'
        and rep = rep and ex = ex and encode = encode and decode = decode] ports opts h
    by (simp add: call_def target_def)
qed

text \<open>A command that gets no connection fails and changes nothing.\<close>

lemma runAPICommand_unheard:
  assumes "\<And>call v. send call v = (CallFailed, v)"
  shows "exit_status (fst (runAPICommand sys g send decode cmd opts w)) = 1 \<and>
    snd (runAPICommand sys g send decode cmd opts w) = w"
  by (simp add: runAPICommand_def callLocalAPI_def exit_status_def assms split: sum.split prod.split)



text \<open>
  An instance that asks for the origin of its callers (\<open>PG_GUARD_PEER_VERIFY\<close> \<open>ip\<close>, \<open>dns\<close> or \<open>both\<close>)
  refuses every command of its own command line that changes something: the command comes from the
  loopback address, which is the peer's only where the peer's name leads to it. The command ends with
  status 1 and nothing has changed.
\<close>

theorem cli_refused_by_origin_check:
  assumes "loadConfig sys f = Inr (cfg, f')" and "buildClientTLSConfig sys f' cfg = Inr t"
    and "staging_ok sys" and "own_certificate_trusted trusts sys f' cfg"
    and "\<forall>s \<in> set (tls_sources sys). bytes_at g s = bytes_at f s"
    and "0 \<le> APIPort cfg" and "0 \<le> MetricsPort cfg" and cmd: "cmd \<in> set apiCLICommands"
    and "set opts \<subseteq> {''-force'', ''-json''}" and "''-force'' \<in> set opts \<Longrightarrow> cmd_name cmd = ''promote''"
    and heard: "hears (APIBind cfg)"
    and origin: "\<not> metricsPort cmd" "\<not> comes_from_peer E cfg (cli_request cfg cmd opts) (calls w)"
  shows "exit_status (fst (runAPICommand sys g
      (loopback hears trusts encode E cfg (server_tls sys f' cfg) build serve) decode cmd opts w)) = 1 \<and>
    only_observed w (snd (runAPICommand sys g
      (loopback hears trusts encode E cfg (server_tls sys f' cfg) build serve) decode cmd opts w))"
proof -
  let ?r = "cli_request cfg cmd opts"
  note call = cli_call [where hears = hears and encode = encode and E = E and build = build and serve = serve
      and decode = decode and w = w, OF assms(1-7) heard assms(8-10)]
  have r: "reqMethod ?r = cmd_method cmd" "reqPath ?r = cmd_path cmd" by (simp_all add: cli_request_def)
  have token: "holds_token cfg ?r" using origin(1) by (simp add: holds_token_def cli_request_def)
  show ?thesis
  proof (cases rule: command_route [where E = E and cfg = cfg and build = build and serve = serve, OF cmd r])
    case (1 h)
    with origin(1) show ?thesis by simp
  next
    case (2 h)
    obtain e where "requireHAAuth E cfg refusal h ?r w = (refusal 403 e, snd (checkPeerOrigin E cfg ?r w))"
      using requireHAAuth_cases [of cfg ?r E refusal h w] token origin(2) by metis
    with ServeHTTP_routed [OF 2(3), of w] origin(1) call show ?thesis
      by (simp add: api_server_def refusal_def cli_outcome_def exit_status_def Let_def)
  qed
qed

definition verifying_os :: os where
  "verifying_os = set_env ''PG_GUARD_PEER_VERIFY'' ''ip'' (plain_os ''pg-0'')"

definition verifying_config :: config where
  "verifying_config = fst (projr (loadConfig verifying_os (\<lambda>_. None)))"

lemmas verifying_evals = verifying_config_def verifying_os_def set_env_def config_eval_defs Let_def

lemma verifying_config_loaded: "loadConfig verifying_os (\<lambda>_. None) = Inr (verifying_config, (\<lambda>_. None))"
  by (simp add: verifying_evals)

theorem cli_refused_by_origin_check_witness:
  "exit_status (fst (runAPICommand verifying_os (\<lambda>_. None)
      (loopback (\<lambda>a. a = ''0.0.0.0'') (\<lambda>_ _. False) (\<lambda>_. ''answer'') calm verifying_config
        (server_tls verifying_os (\<lambda>_. None) verifying_config) ([], [], []) (\<lambda>_ w. (Inr (), w)))
      (\<lambda>_. None) (api_command ''maintenance'' ''POST'' ''/api/maintenance'' False False) []
      (running_world 0 Map.empty))) = 1"
proof -
  let ?c = "api_command ''maintenance'' ''POST'' ''/api/maintenance'' False False"
  have client: "buildClientTLSConfig verifying_os (\<lambda>_. None) verifying_config = Inr None"
    by (simp add: buildClientTLSConfig_def) (simp add: verifying_evals zero_config_def)
  have cmd: "?c \<in> set apiCLICommands" by (simp add: apiCLICommands_def)
  have v: "PeerVerify verifying_config = ''ip''" "APIBind verifying_config = ''0.0.0.0''" "0 \<le> APIPort verifying_config" "0 \<le> MetricsPort verifying_config"
    by (simp_all add: verifying_evals zero_config_def)
  have "staging_ok verifying_os" "tls_sources verifying_os = []"
    by (simp_all add: staging_ok_def tls_sources_def verifying_os_def set_env_def plain_os_def)
  moreover have "\<not> metricsPort ?c" by (simp add: api_command_def)
  moreover have "remote_ip (cli_request cfg ?c []) = ''127.0.0.1''" for cfg
    by (simp add: remote_ip_def cli_request_def SplitHostPort_def last_index_def)
  then have "\<not> comes_from_peer calm verifying_config (cli_request verifying_config ?c []) n" for n
    by (simp add: comes_from_peer_def v resolves_to_def calm_def)
  ultimately show ?thesis
    using cli_refused_by_origin_check [OF verifying_config_loaded client, of "\<lambda>_ _. False" "\<lambda>_. None" ?c "[]"
        "\<lambda>a. a = ''0.0.0.0''" calm "(running_world 0 Map.empty)" "\<lambda>_. ''answer''" "([], [], [])" "\<lambda>_ w. (Inr (), w)" "\<lambda>_. None"] cmd v
    by (simp add: own_certificate_trusted_def loadCertPool_def)
qed

section \<open>Usage and printing\<close>

text \<open>Only a bare call becomes the supervisor; every command of the table is found under its name.\<close>

lemma main_run_supervises: "fst (main_run E sys f send decode help build stdin args w) = None \<longleftrightarrow> args = []"
proof (cases args)
  case Nil
  then show ?thesis by (simp add: main_run_def isWindowsService_def)
next
  case (Cons cmd opts)
  have "main_dispatch args \<noteq> Interactive" "main_dispatch args \<noteq> AsService"
    by (auto simp: Cons requireNoOpts_def split: option.split)
  with Cons show ?thesis
    by (cases "main_dispatch args")
       (auto simp: main_run_def Let_def split: sum.split prod.split)
qed

lemma findAPICommand_table: "c \<in> set apiCLICommands \<Longrightarrow> findAPICommand (cmd_name c) = Some c"
  unfolding findAPICommand_def apiCLICommands_def api_command_def list.set insert_iff empty_iff
  by (elim disjE) simp_all

lemma dispatch_table:
  "c \<in> set apiCLICommands \<Longrightarrow>
     main_dispatch (cmd_name c # opts) =
       (if cmd_name c = ''backup'' \<and> opts = [''-stdout''] then BackupStdout else CallAPI c opts)"
  using findAPICommand_table [of c]
  unfolding apiCLICommands_def api_command_def list.set insert_iff empty_iff
  by (elim disjE) simp_all

text \<open>A command line with a mistake in it ends with status 1 before anything is read or sent.\<close>

lemma cli_options_unknown:
  "\<not> set opts \<subseteq> {''-force'', ''-json''} \<Longrightarrow> \<exists>o'. cli_options n opts (a, b) = Inl (UnknownOption n o')"
  by (induction opts arbitrary: a b) auto

lemma wrong_options_change_nothing:
  assumes "\<not> set opts \<subseteq> {''-force'', ''-json''} \<or> ''-force'' \<in> set opts \<and> cmd_name cmd \<noteq> ''promote''"
  shows "\<exists>e. runAPICommand sys f send decode cmd opts w = (CliEnd (Some e) [], w)"
proof (cases "set opts \<subseteq> {''-force'', ''-json''}")
  case True
  with assms show ?thesis
    using cli_options_known [OF True, of "cmd_name cmd" False False] by (simp add: runAPICommand_def)
next
  case False
  from cli_options_unknown [OF this] obtain o' where
    "cli_options (cmd_name cmd) opts (False, False) = Inl (UnknownOption (cmd_name cmd) o')" by blast
  then show ?thesis by (simp add: runAPICommand_def)
qed

lemma refused_changes_nothing:
  "main_dispatch args = Refuse e \<Longrightarrow>
     main_run E sys f send decode help build stdin args w = (Some (CliEnd (Some e) []), w)"
  by (simp add: main_run_def)

text \<open>The lines come in the order of the keys, whatever order the map of the members yields.\<close>

lemma printed_in_order:
  assumes "decode b = Some obj" and "decode' b = Some obj'" and "distinct (map fst obj)"
    and "distinct (map fst obj')" and "set obj' = set obj"
  shows "printAPIResponse decode' b = printAPIResponse decode b"
proof -
  have "map_of obj' = map_of obj" using assms(3-5) by (metis map_of_inject_set)
  then have "print_field obj' = print_field obj" by (simp add: print_field_def fun_eq_iff)
  moreover have "sort (map fst obj') = sort (map fst obj)"
    using assms(3-5) by (intro sorted_distinct_set_unique) simp_all
  ultimately show ?thesis by (simp add: printAPIResponse_def assms(1,2))
qed

end
