(* ===== verification/Help.thy ===== *)
theory Help
  imports CliProps
begin

text \<open>
  The help text \<open>printHelp\<close> of \<open>src/src/main.go\<close> prints, against what \<open>main\<close> and the commands of
  \<open>src/src/remotecli.go\<close> do. The descriptions of the variables in \<open>config.go\<close> are an argument.
\<close>

definition pad_right :: "nat \<Rightarrow> string \<Rightarrow> string" where
  "pad_right n s = s @ replicate (n - length s) CHR '' ''"

definition command_row :: "string \<times> string \<Rightarrow> string" where
  "command_row r = ''  '' @ pad_right 31 (fst r) @ '' '' @ snd r"

definition variable_row :: "(string \<Rightarrow> string) \<Rightarrow> string \<times> string \<Rightarrow> string" where
  "variable_row desc v = ''  '' @ pad_right 22 (fst v) @ '' '' @ pad_right 18 (snd v) @ '' '' @ desc (fst v)"

definition command_help :: "bool \<Rightarrow> (string \<times> string) list" where
  "command_help windows =
     [(''help'', ''show this help and exit (-h/-help/--help/-?/? also work)''),
      (''version'', ''show version/commit/build date and exit (-v/-version/--version also work)'')] @
     (if windows
      then [(''install-service'', ''register as a Windows Service (elevated prompt required)''),
            (''uninstall-service'', ''remove the Windows Service'')]
      else []) @
     [(''set-password'', ''set/rotate POSTGRES_PASSWORD on the local node (reads new password from stdin); run against each node'')]"

definition api_help :: "(string \<times> string) list" where
  "api_help =
     [(''health'', ''GET /health''),
      (''ready'', ''GET /ready''),
      (''status'', ''GET /status''),
      (''metrics'', ''GET /metrics''),
      (''promote [-force]'', ''POST /api/promote (-force adds ?force=true)''),
      (''shutdown'', ''POST /api/shutdown (behavior depends on PG_GUARD_SHUTDOWN_MODE)''),
      (''rejoin'', ''POST /api/rejoin''),
      (''switchover'', ''POST /api/switchover''),
      (''maintenance'', ''POST /api/maintenance (stop postgres, pg-guard stays running)''),
      (''start'', ''POST /api/start (resume postgres after maintenance)''),
      (''backup [-stdout]'', ''POST /api/backup (must be run on the primary); -stdout bypasses the API and streams pg_basebackup'' @ [CHR 0x27] @ ''s tar output straight to stdout instead (see README'' @ [CHR 0x27] @ ''s Backup section)'')]"

definition option_help :: "(string \<times> string) list" where
  "option_help =
     [(''-force'', ''with promote: add ?force=true''),
      (''-json'', ''print the raw API response instead of key=value text''),
      (''-stdout'', ''with backup: stream to stdout instead of PG_GUARD_BACKUP_DIR/PG_GUARD_BACKUP_COMMAND -- see above'')]"

definition printHelp :: "bool \<Rightarrow> (string \<Rightarrow> string) \<Rightarrow> string" where
  "printHelp windows desc = concat (map (\<lambda>l. l @ [newline])
     ([''pg-guard -- PostgreSQL HA Supervisor'', [],
       ''Usage: pg-guard [command] [options]'', [],
       ''With no command: starts the supervisor (postgres + API server).'', [],
       ''Configuration is entirely environment variables (no config file):'', []] @
      map (variable_row desc) varDefs @
      [[], ''Commands:''] @ map command_row (command_help windows) @
      [[], ''API commands (call the running local instance'' @ [CHR 0x27] @ ''s own API and exit):''] @
      map command_row api_help @
      [[], ''Options (for the API commands above):''] @ map command_row option_help))"

text \<open>\<open>src/src/version.go\<close>: version, commit and date of a build that sets none.\<close>

definition default_build :: "string \<times> string \<times> string" where
  "default_build = (''dev'', ''unknown'', ''unknown'')"

section \<open>The help text is right\<close>

definition first_word :: "string \<Rightarrow> string" where
  "first_word s = takeWhile (\<lambda>c. c \<noteq> CHR '' '') s"

text \<open>Every API command is listed, in order, with the method and the path it sends; and nothing else is.\<close>

lemma help_lists_requests:
  "map (\<lambda>r. first_word (fst r)) api_help = map cmd_name apiCLICommands"
  "list_all2 (\<lambda>r c. HasPrefix (snd r) (cmd_method c @ '' '' @ cmd_path c)) api_help apiCLICommands"
  by (simp_all add: api_help_def apiCLICommands_def api_command_def first_word_def HasPrefix_def)

text \<open>Every command shown is one \<open>main\<close> knows.\<close>

definition known_command :: "string \<Rightarrow> bool" where
  "known_command c \<longleftrightarrow> main_dispatch [c] \<noteq> Refuse (UnknownCommand c)"

lemma help_names_known:
  "list_all known_command (map fst (command_help windows))"
  "list_all known_command (map cmd_name apiCLICommands)"
  by (simp_all add: command_help_def known_command_def requireNoOpts_def apiCLICommands_def
      findAPICommand_def api_command_def)

end
