(* ===== verification/Windows.thy ===== *)
theory Windows
  imports CliProps
begin

text \<open>
  What is particular to Windows: \<open>src/src/detect_windows.go\<close>, which finds the server through the
  registry, and the environment \<open>src/src/service_install_windows.go\<close> gives the installed service. The
  registry is a parameter.
\<close>

section \<open>Finding the server\<close>

record registry =
  Installations :: "string list option"
  BaseDirectory :: "string \<Rightarrow> string option"

definition server_in :: "string \<Rightarrow> string" where
  "server_in base = JoinPath_windows [base, ''bin'', ''postgres.exe'']"

definition usable_server :: "registry \<Rightarrow> os \<Rightarrow> string \<Rightarrow> string list" where
  "usable_server reg sys n =
     (case BaseDirectory reg n of
        None \<Rightarrow> []
      | Some base \<Rightarrow> if base = [] then [] else if Exists sys (server_in base) then [server_in base] else [])"

definition detectPostgresBin_windows :: "registry \<Rightarrow> os \<Rightarrow> config_error + string" where
  "detectPostgresBin_windows reg sys =
     (case Installations reg of
        None \<Rightarrow> Inl (DetectFailed [])
      | Some names \<Rightarrow>
          if names = [] then Inl (DetectFailed [])
          else (case concat (map (usable_server reg sys) names) of
                  [p] \<Rightarrow> Inr p | found \<Rightarrow> Inl (DetectFailed found)))"

lemma detected_server_unique:
  assumes "detectPostgresBin_windows reg sys = Inr p"
  shows "Exists sys p \<and> (\<exists>names n. Installations reg = Some names \<and> n \<in> set names \<and>
    usable_server reg sys n = [p] \<and> (\<forall>m \<in> set names. usable_server reg sys m \<noteq> [] \<longrightarrow> usable_server reg sys m = [p]))"
proof -
  from assms obtain names where names: "Installations reg = Some names"
    and one: "concat (map (usable_server reg sys) names) = [p]"
    unfolding detectPostgresBin_windows_def
    by (auto split: option.splits if_splits list.splits)
  have single: "usable_server reg sys m = [] \<or> (\<exists>q. usable_server reg sys m = [q] \<and> Exists sys q)" for m
    by (simp add: usable_server_def split: option.splits)
  have in_all: "q = p" if "m \<in> set names" "usable_server reg sys m = [q]" for m q
  proof -
    have "q \<in> set (concat (map (usable_server reg sys) names))" using that by force
    then show ?thesis unfolding one by simp
  qed
  have "p \<in> set (concat (map (usable_server reg sys) names))" unfolding one by simp
  then obtain n where n: "n \<in> set names" "p \<in> set (usable_server reg sys n)" by auto
  with single [of n] have "usable_server reg sys n = [p]" "Exists sys p" by auto
  moreover have "usable_server reg sys m = [p]" if "m \<in> set names" "usable_server reg sys m \<noteq> []" for m
    using single [of m] in_all [OF that(1)] that(2) by auto
  ultimately show ?thesis using names n(1) by blast
qed

section \<open>The environment of the service\<close>

definition serviceEnvVars :: "string list" where
  "serviceEnvVars =
     [''PG_GUARD_POSTGRES_BIN'', ''PGDATA'', ''PG_GUARD_EXTRA_ARGS'',
      ''PG_GUARD_LOG_LEVEL'', ''PG_GUARD_LOG_FORMAT'', ''PG_GUARD_LOG_FILE'',
      ''PG_GUARD_SHUTDOWN_WAIT'',
      ''POSTGRES_USER'', ''POSTGRES_PASSWORD'', ''POSTGRES_DB'', ''PGPORT'']"

text \<open>The lines \<open>writeServiceEnvironment\<close> stores with the service.\<close>

definition writeServiceEnvironment :: "os \<Rightarrow> string list" where
  "writeServiceEnvironment sys =
     map (\<lambda>n. n @ ''='' @ Getenv sys n) (filter (\<lambda>n. Getenv sys n \<noteq> []) serviceEnvVars)"

text \<open>How Windows reads such lines, over the variables of the machine.\<close>

fun environment_value :: "string list \<Rightarrow> string \<Rightarrow> string option" where
  "environment_value [] n = None"
| "environment_value (l # ls) n =
     (if HasPrefix l (n @ ''='') then Some (TrimPrefix l (n @ ''='')) else environment_value ls n)"

definition service_os :: "(string \<Rightarrow> string) \<Rightarrow> os \<Rightarrow> os" where
  "service_os machine sys = sys\<lparr>Getenv := (\<lambda>n.
     case environment_value (writeServiceEnvironment sys) n of Some v \<Rightarrow> v | None \<Rightarrow> machine n)\<rparr>"

definition plain_name :: "string \<Rightarrow> bool" where
  "plain_name n \<longleftrightarrow> CHR ''='' \<notin> set n"

lemma HasPrefix_assignment:
  assumes "plain_name n" and "plain_name m"
  shows "HasPrefix (m @ ''='' @ v) (n @ ''='') \<longleftrightarrow> n = m"
proof
  assume "HasPrefix (m @ ''='' @ v) (n @ ''='')"
  then obtain r where "m @ CHR ''='' # v = n @ CHR ''='' # r" by (auto simp: HasPrefix_iff)
  then have "takeWhile (\<lambda>c. c \<noteq> CHR ''='') (m @ CHR ''='' # v) = takeWhile (\<lambda>c. c \<noteq> CHR ''='') (n @ CHR ''='' # r)"
    by (rule arg_cong)
  with assms show "n = m" by (simp add: plain_name_def takeWhile_until)
qed (use HasPrefix_append [of "m @ ''=''" v] in simp)

lemma environment_value_assignments:
  assumes "plain_name n" and "list_all plain_name ns"
  shows "environment_value (map (\<lambda>m. m @ ''='' @ f m) ns) n = (if n \<in> set ns then Some (f n) else None)"
  using assms(2)
proof (induction ns)
  case (Cons m ns)
  have "TrimPrefix (m @ ''='' @ f m) (m @ ''='') = f m" using TrimPrefix_append [of "m @ ''=''" "f m"] by simp
  with Cons HasPrefix_assignment [OF assms(1), of m "f m"] show ?case by simp
qed simp

lemma list_all_filter: "list_all P xs \<Longrightarrow> list_all P (filter Q xs)"
  by (induction xs) simp_all

lemma service_vars_plain: "list_all plain_name serviceEnvVars"
  by (simp add: serviceEnvVars_def plain_name_def)

lemma service_Getenv:
  assumes "plain_name n"
  shows "Getenv (service_os machine sys) n =
    (if n \<in> set serviceEnvVars \<and> Getenv sys n \<noteq> [] then Getenv sys n else machine n)"
  using environment_value_assignments [OF assms list_all_filter [OF service_vars_plain], of "Getenv sys"]
  by (simp add: service_os_def writeServiceEnvironment_def)

lemma peer_verify_read:
  "load_peer sys c = Inr c' \<Longrightarrow> PeerVerify c' = envOrDefault sys ''PG_GUARD_PEER_VERIFY'' ''off''"
  "load_ha sys c = Inr c' \<Longrightarrow> PeerVerify c' = PeerVerify c"
  "load_backup sys c = Inr c' \<Longrightarrow> PeerVerify c' = PeerVerify c"
  "load_restart sys c = Inr c' \<Longrightarrow> PeerVerify c' = PeerVerify c"
  unfolding load_peer_def load_ha_def load_backup_def load_restart_def Let_def
  by (elim accepted_E, simp)+

text \<open>The settings that decide who may control a node, read from its environment.\<close>

lemma access_settings:
  assumes "loadConfig sys f = Inr (cfg, f')"
  shows "APIToken cfg = Getenv sys ''PG_GUARD_API_TOKEN'' \<and>
    PeerVerify cfg = envOrDefault sys ''PG_GUARD_PEER_VERIFY'' ''off'' \<and>
    (Getenv sys ''PG_GUARD_SSL_CERT_FILE'' = [] \<or> Getenv sys ''PG_GUARD_SSL_KEY_FILE'' = [] \<longrightarrow> \<not> TLSEnabled cfg)"
proof -
  from assms obtain c1 c2 c3 c4 c5 c6 where c: "load_tls sys c1 f = Inr (c2, f')"
    "load_listeners sys c2 = Inr c3" "load_peer sys c3 = Inr c4" "load_ha sys c4 = Inr c5"
    "load_backup sys c5 = Inr c6" "load_restart sys c6 = Inr cfg"
    by (rule loadConfig_stages)
  have parts: "tls_part cfg = tls_part c2" "listen_part cfg = listen_part c3"
    using parts_kept(1) [OF c(3)] parts_kept(2) [OF c(4)] parts_kept(3) [OF c(5)] parts_kept(4) [OF c(6)]
      listeners_read [OF c(2)] by simp_all
  have "APIToken cfg = Getenv sys ''PG_GUARD_API_TOKEN''"
    using parts(2) listeners_read [OF c(2)] by (simp add: listen_part_def)
  moreover have "PeerVerify cfg = envOrDefault sys ''PG_GUARD_PEER_VERIFY'' ''off''"
    using peer_verify_read(1) [OF c(3)] peer_verify_read(2) [OF c(4)] peer_verify_read(3) [OF c(5)]
      peer_verify_read(4) [OF c(6)] by simp
  moreover have "\<not> TLSEnabled cfg"
    if "Getenv sys ''PG_GUARD_SSL_CERT_FILE'' = [] \<or> Getenv sys ''PG_GUARD_SSL_KEY_FILE'' = []"
    using c(1)
  proof (cases rule: load_tls_cases)
    case off
    with parts(1) show ?thesis by (simp add: tls_part_def)
  next
    case (on m d)
    with that show ?thesis by blast
  qed
  ultimately show ?thesis by blast
qed

section \<open>Properties\<close>

text \<open>
  C37. The installed service runs with other settings than the shell it was installed from: of that
  shell's variables only the eleven of \<open>serviceEnvVars\<close> reach it. So whatever token, TLS files and
  check of callers the shell had, the service has those of the machine-wide variables, and where these
  are not set it accepts every request, in plain text.
\<close>

theorem service_loses_settings:
  assumes "loadConfig (service_os machine sys) f = Inr (cfg, f')"
  shows "(\<forall>n. plain_name n \<longrightarrow> Getenv (service_os machine sys) n =
      (if n \<in> set serviceEnvVars \<and> Getenv sys n \<noteq> [] then Getenv sys n else machine n)) \<and>
    APIToken cfg = machine ''PG_GUARD_API_TOKEN'' \<and>
    (machine ''PG_GUARD_PEER_VERIFY'' = [] \<longrightarrow> PeerVerify cfg = ''off'') \<and>
    (machine ''PG_GUARD_SSL_CERT_FILE'' = [] \<or> machine ''PG_GUARD_SSL_KEY_FILE'' = [] \<longrightarrow> \<not> TLSEnabled cfg) \<and>
    (machine ''PG_GUARD_API_TOKEN'' = [] \<and> machine ''PG_GUARD_PEER_VERIFY'' = [] \<longrightarrow>
      (\<forall>E r w. holds_token cfg r \<and> comes_from_peer E cfg r w))"
proof -
  have lost: "Getenv (service_os machine sys) n = machine n"
    if "n \<in> {''PG_GUARD_API_TOKEN'', ''PG_GUARD_PEER_VERIFY'', ''PG_GUARD_SSL_CERT_FILE'', ''PG_GUARD_SSL_KEY_FILE''}" for n
  proof -
    have "plain_name n" "n \<notin> set serviceEnvVars" using that
      by (elim insertE emptyE; simp add: plain_name_def serviceEnvVars_def)+
    then show ?thesis by (simp add: service_Getenv)
  qed
  from access_settings [OF assms]
  have "APIToken cfg = machine ''PG_GUARD_API_TOKEN''"
    "machine ''PG_GUARD_PEER_VERIFY'' = [] \<longrightarrow> PeerVerify cfg = ''off''"
    "machine ''PG_GUARD_SSL_CERT_FILE'' = [] \<or> machine ''PG_GUARD_SSL_KEY_FILE'' = [] \<longrightarrow> \<not> TLSEnabled cfg"
    by (simp_all add: lost envOrDefault_def)
  then show ?thesis by (simp add: service_Getenv holds_token_def comes_from_peer_def)
qed

text \<open>Installed from a shell with a token, on a machine with no variable of its own.\<close>

definition installing_os :: os where
  "installing_os = set_env ''PG_GUARD_API_TOKEN'' ''secret'' (plain_os ''pg-0'')"

definition service_demo :: os where
  "service_demo = service_os (\<lambda>_. []) installing_os"

lemma installing_Getenv:
  "Getenv installing_os n = (if n = ''PG_GUARD_API_TOKEN'' then ''secret'' else if n = ''PGDATA'' then ''/pgdata'' else [])"
  by (simp add: installing_os_def Getenv_set_env plain_os_def)

lemma service_demo_eq: "service_demo = (plain_os ''pg-0'')\<lparr>Getenv := (\<lambda>n.
    case environment_value [''PGDATA=/pgdata''] n of Some v \<Rightarrow> v | None \<Rightarrow> [])\<rparr>"
proof -
  have "writeServiceEnvironment installing_os = [''PGDATA=/pgdata'']"
    by (simp add: writeServiceEnvironment_def serviceEnvVars_def installing_Getenv)
  then show ?thesis
    unfolding service_demo_def service_os_def by (simp add: installing_os_def set_env_def)
qed

definition service_config :: config where
  "service_config = fst (projr (loadConfig service_demo (\<lambda>_. None)))"

lemma service_config_loaded: "loadConfig service_demo (\<lambda>_. None) = Inr (service_config, (\<lambda>_. None))"
  by (simp add: service_config_def service_demo_eq config_eval_defs HasPrefix_def TrimPrefix_def Let_def)

theorem service_loses_settings_witness:
  "Getenv installing_os ''PG_GUARD_API_TOKEN'' = ''secret'' \<and> APIToken service_config = [] \<and>
   holds_token service_config \<lparr>reqMethod = ''POST'', reqPath = ''/api/shutdown'', forceParam = [],
     authHeader = [], RemoteAddr = ''10.9.9.9:40000''\<rparr>"
  using service_loses_settings [OF service_config_loaded [unfolded service_demo_def]]
  by (simp add: installing_Getenv)

section \<open>Usage\<close>

text \<open>The command is \<open>install-service\<close>; with the dash that documents and messages write it is unknown.\<close>

lemma dashed_install_unknown:
  "main_dispatch [''-install-service''] = Refuse (UnknownCommand ''-install-service'')"
  "main_dispatch [''-uninstall-service''] = Refuse (UnknownCommand ''-uninstall-service'')"
  by (simp_all add: findAPICommand_def apiCLICommands_def api_command_def)

end
