(* ===== verification/Install.thy ===== *)
theory Install
  imports Windows
begin

text \<open>
  Registering the service: \<open>installService\<close> and \<open>uninstallService\<close> of
  \<open>src/src/service_install_windows.go\<close>. The Service Control Manager, the registry and \<open>icacls\<close> are a
  parameter, functions on a state of the machine; \<open>manager_laws\<close> states what the code relies on: a
  created service is found again, and stays when its environment or the rights on a directory are set.
\<close>

section \<open>The machine\<close>

record service_definition =
  DisplayName :: string
  Description :: string
  StartAutomatic :: bool
  ServiceStartName :: string

record 's manager =
  Connects :: "'s \<Rightarrow> bool"
  OpenService :: "'s \<Rightarrow> string \<Rightarrow> bool"
  CreateService :: "'s \<Rightarrow> string \<Rightarrow> string \<Rightarrow> service_definition \<Rightarrow> 's option"
  CreateKey :: "'s \<Rightarrow> string \<Rightarrow> bool"
  SetStringsValue :: "'s \<Rightarrow> string \<Rightarrow> string list \<Rightarrow> 's option"
  RunTool :: "'s \<Rightarrow> string list \<Rightarrow> bool \<times> 's"
  StillRunning :: "'s \<Rightarrow> string \<Rightarrow> bool"
  DeleteService :: "'s \<Rightarrow> string \<Rightarrow> 's option"

definition manager_laws :: "'s manager \<Rightarrow> bool" where
  "manager_laws M \<longleftrightarrow>
     (\<forall>s n path d s'. CreateService M s n path d = Some s' \<longrightarrow> OpenService M s' n) \<and>
     (\<forall>s k ls s' n. SetStringsValue M s k ls = Some s' \<longrightarrow> OpenService M s' n = OpenService M s n) \<and>
     (\<forall>s args n. OpenService M (snd (RunTool M s args)) n = OpenService M s n)"

section \<open>Installing\<close>

definition serviceName :: string where
  "serviceName = ''pg-guard''"

definition service_key :: string where
  "service_key = ''SYSTEM'' @ [backslash] @ ''CurrentControlSet'' @ [backslash] @ ''Services'' @ [backslash] @ serviceName"

definition network_service :: string where
  "network_service = ''NT AUTHORITY'' @ [backslash] @ ''NetworkService''"

definition pg_guard_service :: service_definition where
  "pg_guard_service = \<lparr>DisplayName = ''pg-guard PostgreSQL HA Supervisor'',
     Description = ''Supervises a local PostgreSQL instance for pg-guard HA. See README.md.'',
     StartAutomatic = True, ServiceStartName = network_service\<rparr>"

text \<open>The part of \<open>writeServiceEnvironment\<close> that stores the lines.\<close>

definition store_environment :: "'s manager \<Rightarrow> os \<Rightarrow> 's \<Rightarrow> (pg_error + unit) \<times> 's" where
  "store_environment M sys s =
     (if \<not> CreateKey M s service_key then (Inl (Err ''creating the key''), s)
      else if writeServiceEnvironment sys = [] then (Inr (), s)
      else (case SetStringsValue M s ''Environment'' (writeServiceEnvironment sys) of
              None \<Rightarrow> (Inl (Err ''setting the value''), s)
            | Some s1 \<Rightarrow> (Inr (), s1)))"

definition grantNetworkServiceAccess :: "'s manager \<Rightarrow> string \<Rightarrow> 's \<Rightarrow> (pg_error + unit) \<times> 's" where
  "grantNetworkServiceAccess M path s =
     (let (ok, s1) = RunTool M s [''icacls.exe'', path, ''/grant'',
        ''NT AUTHORITY'' @ [backslash] @ ''NETWORK SERVICE:(OI)(CI)M'', ''/T'']
      in (if ok then Inr () else Inl (Err ''icacls failed''), s1))"

text \<open>A success with what is printed: the grant, or the advice to run the command again.\<close>

datatype install_note = Granted string | SetPGDATAAndRerun

abbreviation AlreadyInstalled :: pg_error where
  "AlreadyInstalled \<equiv> Err ''service is already installed -- run -uninstall-service first''"

definition installService_windows ::
  "'s manager \<Rightarrow> os \<Rightarrow> string option \<Rightarrow> 's \<Rightarrow> (pg_error + install_note) \<times> 's" where
  "installService_windows M sys exe s =
     (case exe of
        None \<Rightarrow> (Inl (Err ''resolving executable path''), s)
      | Some path \<Rightarrow>
          if \<not> Connects M s then (Inl (Err ''connecting to service control manager''), s)
          else if OpenService M s serviceName then (Inl AlreadyInstalled, s)
          else
            (case CreateService M s serviceName path pg_guard_service of
               None \<Rightarrow> (Inl (Err ''creating service''), s)
             | Some s1 \<Rightarrow>
                 (case store_environment M sys s1 of
                    (Inl e, s2) \<Rightarrow> (Inl (Wrap ''writing service environment'' e), s2)
                  | (Inr _, s2) \<Rightarrow>
                      (let pgData = Getenv sys ''PGDATA''
                       in if pgData = [] then (Inr SetPGDATAAndRerun, s2)
                          else (case grantNetworkServiceAccess M pgData s2 of
                                  (Inl e, s3) \<Rightarrow> (Inl (Wrap ''granting NetworkService access'' e), s3)
                                | (Inr _, s3) \<Rightarrow> (Inr (Granted pgData), s3))))))"

text \<open>The value of a success is whether the service was still running, which is printed and nothing more.\<close>

definition uninstallService_windows :: "'s manager \<Rightarrow> 's \<Rightarrow> (pg_error + bool) \<times> 's" where
  "uninstallService_windows M s =
     (if \<not> Connects M s then (Inl (Err ''connecting to service control manager''), s)
      else if \<not> OpenService M s serviceName then (Inl (Err ''service is not installed''), s)
      else (case DeleteService M s serviceName of
              None \<Rightarrow> (Inl (Err ''deleting service''), s)
            | Some s1 \<Rightarrow> (Inr (StillRunning M s serviceName), s1)))"

section \<open>How an installation ends\<close>

lemma store_environment_keeps:
  assumes "manager_laws M" and "store_environment M sys s = (r, s')"
  shows "OpenService M s' n = OpenService M s n"
  using assms by (auto simp: store_environment_def manager_laws_def split: if_splits option.splits)

lemma grant_keeps:
  assumes "manager_laws M" and "grantNetworkServiceAccess M path s = (r, s')"
  shows "OpenService M s' n = OpenService M s n"
proof -
  have "s' = snd (RunTool M s [''icacls.exe'', path, ''/grant'',
      ''NT AUTHORITY'' @ [backslash] @ ''NETWORK SERVICE:(OI)(CI)M'', ''/T''])"
    using assms(2) by (simp add: grantNetworkServiceAccess_def Let_def split_beta)
  with assms(1) show ?thesis by (simp add: manager_laws_def)
qed

text \<open>Either nothing was changed, or a service is there now, however the rest went.\<close>

lemma installService_cases:
  assumes "manager_laws M" and "installService_windows M sys exe s = (r, s')"
  obtains (untouched) e where "r = Inl e" "s' = s"
  | (created) "OpenService M s' serviceName" "\<not> OpenService M s serviceName"
      "r = Inr SetPGDATAAndRerun \<longrightarrow> Getenv sys ''PGDATA'' = []"
proof (cases exe)
  case None
  with assms(2) show thesis by (intro untouched) (auto simp: installService_windows_def)
next
  case (Some path)
  show thesis
  proof (cases "Connects M s \<and> \<not> OpenService M s serviceName \<and>
      CreateService M s serviceName path pg_guard_service \<noteq> None")
    case False
    then consider "\<not> Connects M s" | "Connects M s" "OpenService M s serviceName"
      | "Connects M s" "\<not> OpenService M s serviceName"
        "CreateService M s serviceName path pg_guard_service = None" by blast
    then have "\<exists>e. installService_windows M sys exe s = (Inl e, s)"
      by cases (simp_all add: installService_windows_def Some)
    with assms(2) show thesis using untouched by auto
  next
    case True
    then obtain s1 where s1: "CreateService M s serviceName path pg_guard_service = Some s1" by blast
    then have found: "OpenService M s1 serviceName" using assms(1) unfolding manager_laws_def by blast
    obtain x s2 where x: "store_environment M sys s1 = (x, s2)" by (rule prod.exhaust)
    obtain y s3 where y: "grantNetworkServiceAccess M (Getenv sys ''PGDATA'') s2 = (y, s3)" by (rule prod.exhaust)
    have "OpenService M s2 serviceName" "OpenService M s3 serviceName"
      using found store_environment_keeps [OF assms(1) x] grant_keeps [OF assms(1) y] by simp_all
    moreover have "(r, s') = (case x of
        Inl e \<Rightarrow> (Inl (Wrap ''writing service environment'' e), s2)
      | Inr _ \<Rightarrow> if Getenv sys ''PGDATA'' = [] then (Inr SetPGDATAAndRerun, s2)
          else (case y of Inl e \<Rightarrow> (Inl (Wrap ''granting NetworkService access'' e), s3)
                | Inr _ \<Rightarrow> (Inr (Granted (Getenv sys ''PGDATA'')), s3)))"
      using assms(2) True by (cases x; cases y; cases "Getenv sys ''PGDATA'' = []") (simp_all add: installService_windows_def Some s1 x y Let_def)
    ultimately show thesis
      using True by (intro created) (simp_all split: sum.splits if_splits)
  qed
qed

section \<open>Properties\<close>

text \<open>
  C40. An installation that got as far as creating the service cannot be repeated: every further
  \<open>install-service\<close>, with whatever environment, is refused and changes nothing. That holds after a
  failure to store the environment or to grant the access, which leaves the service behind, and after
  the success whose message says to set \<open>PGDATA\<close> and run the command again. An installation that
  created nothing changed nothing.
\<close>

theorem install_cannot_be_repeated:
  assumes "manager_laws M" and "installService_windows M sys exe s = (r, s')"
  shows "(s' = s \<and> \<not> is_ok r) \<or>
    (OpenService M s' serviceName \<and> \<not> OpenService M s serviceName \<and>
     (r = Inr SetPGDATAAndRerun \<longrightarrow> Getenv sys ''PGDATA'' = []) \<and>
     (\<forall>sys' exe'. \<exists>e. installService_windows M sys' exe' s' = (Inl e, s')))"
  using assms
proof (cases rule: installService_cases)
  case (untouched e)
  then show ?thesis by simp
next
  case created
  have "\<exists>e. installService_windows M sys' exe' s' = (Inl e, s')" for sys' exe'
    using created(1) by (cases exe') (auto simp: installService_windows_def)
  with created show ?thesis by blast
qed

text \<open>A machine that lists its services; nothing fails. Installed from a shell without \<open>PGDATA\<close>.\<close>

definition plain_manager :: "string list manager" where
  "plain_manager = \<lparr>Connects = (\<lambda>_. True), OpenService = (\<lambda>s n. n \<in> set s),
     CreateService = (\<lambda>s n path d. Some (n # s)), CreateKey = (\<lambda>_ _. True),
     SetStringsValue = (\<lambda>s k ls. Some s), RunTool = (\<lambda>s args. (True, s)),
     StillRunning = (\<lambda>_ _. False), DeleteService = (\<lambda>s n. Some (removeAll n s))\<rparr>"

definition bare_os :: os where
  "bare_os = (plain_os ''pg-0'')\<lparr>Getenv := (\<lambda>_. [])\<rparr>"

lemma plain_manager_laws: "manager_laws plain_manager"
  by (simp add: manager_laws_def plain_manager_def)

lemma bare_install:
  "installService_windows plain_manager bare_os (Some ''pg-guard.exe'') [] = (Inr SetPGDATAAndRerun, [serviceName])"
  by (simp add: installService_windows_def store_environment_def writeServiceEnvironment_def serviceEnvVars_def
      plain_manager_def bare_os_def Let_def)

theorem install_cannot_be_repeated_witness:
  "\<exists>e. installService_windows plain_manager (plain_os ''pg-0'') (Some ''pg-guard.exe'') [serviceName] =
     (Inl e, [serviceName])"
  using install_cannot_be_repeated [OF plain_manager_laws bare_install] by simp

text \<open>What is installed can be removed again.\<close>

lemma uninstall_after_install:
  "uninstallService_windows plain_manager [serviceName] = (Inr False, [])"
  by (simp add: uninstallService_windows_def plain_manager_def)

end
