(* ===== verification/Spec2Isabelle.thy ===== *)
theory Spec2Isabelle
  imports LoopProps ConfigProps ApiProps Cluster Waiting Boot Service Reaper Logging Textfile Help Install
begin

text \<open>
  A model of pg-guard (\<open>src/src\<close>), the process that supervises one PostgreSQL server of a pair: it
  bootstraps or re-clones the data directory, starts the server, watches it and the peer, hands the
  primary role over, promotes on its own when the peer is gone, takes backups and serves an HTTP API.
  File names below are under \<open>src/src\<close>.

  \<^bold>\<open>State and environment.\<close> \<open>World\<close> has the state of one process: the package variables of
  \<open>state.go\<close>, \<open>main.go\<close>, \<open>peer.go\<close> and \<open>metrics.go\<close> as a record \<open>world\<close>, with the clock, the
  processes it started, the data directory, the other files, and a ghost \<open>trace\<close> of events that no
  operation reads. What the program does not control is the record \<open>env\<close>: every external call (HTTP
  request, query, tool, file operation, lookup, sleep) has a number and takes its outcome from the
  environment under that number; each takes any time and may see any child exit. Operations have the
  type \<open>env \<Rightarrow> config \<Rightarrow> \<dots> \<Rightarrow> world \<Rightarrow> result \<times> world\<close>; a Go pair of value and error is a sum. All
  theorems hold for every environment, or name what they ask of it (\<open>clone_is_standby\<close>,
  \<open>basebackup_adds\<close>, \<open>connected\<close>, \<open>manager_laws\<close>, the reading of JSON). Operations are executable; the witnesses run them.

  \<^bold>\<open>Theories, bottom up.\<close>
  \<^item> \<open>Prelude\<close>, \<open>GoStrings\<close>, \<open>Filepath\<close>, \<open>Duration\<close>, \<open>Timestamp\<close>: the collections of hints, results,
    and the parts of Go's \<open>strings\<close>, \<open>strconv\<close>, \<open>path/filepath\<close> and \<open>time\<close> the source calls;
    \<open>Timeouts\<close>: the constants of \<open>timeouts.go\<close>.
  \<^item> \<open>Config\<close>, \<open>ConfigProps\<close> (\<open>config.go\<close>, \<open>detect_linux.go\<close>, \<open>tls.go\<close>, \<open>tempdir.go\<close>): \<open>loadConfig\<close> in
    seven stages. Every accepted configuration is well-formed; a pair of nodes derive each other;
    documented defaults are the ones used; the printed configuration hides secrets.
  \<^item> \<open>World\<close>, \<open>Supervisor\<close> (\<open>supervisor.go\<close>, \<open>child.go\<close>, \<open>stop_linux.go\<close>, \<open>stop_windows.go\<close>), \<open>Peer\<close>
    (\<open>peer.go\<close>): primitives. The server is stopped by a signal, or by \<open>pg_ctl\<close> where the environment
    says it is Windows; every theorem covers both. A kill that was delivered and one the kernel refused
    are two events: a server that is \<open>gone\<close> has exited or a kill was delivered to it.
  \<^item> \<open>Quoting\<close> (\<open>db.go\<close> and the strings of \<open>bootstrap.go\<close>, \<open>rewind.go\<close>, \<open>setpassword.go\<close>): connection
    strings and statements read back as what they were made of, for readers of both syntaxes.
  \<^item> \<open>Hba\<close> (\<open>bootstrap.go\<close>, \<open>setpassword.go\<close>): the rules of \<open>pg_hba.conf\<close> and passwords.
  \<^item> \<open>Replace\<close>, \<open>Persist\<close> (\<open>statepersist.go\<close>), \<open>Textfile\<close> (\<open>textfile.go\<close>): how a file is replaced through a
    temporary one, with a step relation of the file operations; the state file is replaced atomically
    at every crash point and restored after a restart, and whoever reads the metrics file finds a
    whole report.
  \<^item> \<open>Handover\<close> (\<open>handover.go\<close>): stopping, coordinated handover, planned reboot; the order of stop
    and promotion, and what an error tells.
  \<^item> \<open>Polling\<close>: the locale \<open>poll_loop\<close> of a loop that takes turns until a deadline; every waiting loop
    of the program interprets it.
  \<^item> \<open>Rejoin\<close> (\<open>rewind.go\<close>, \<open>runcmd.go\<close>), \<open>Bootstrap\<close> (\<open>bootstrap.go\<close>), \<open>Startup\<close> (\<open>main.go\<close>): the
    data directory before a start, and who may start.
  \<^item> \<open>Waiting\<close>: the locale \<open>paced_loop\<close> bounds the number of turns of these loops by the waiting time
    over the interval.
  \<^item> \<open>Boot\<close> (\<open>main.go\<close>, \<open>api.go\<close>, \<open>metrics_server.go\<close>): the start of the process with its two listeners,
    up to the loop, which it enters in a reachable state.
  \<^item> \<open>MainLoop\<close>, \<open>LoopProps\<close>, \<open>History\<close> (\<open>main.go\<close>): the select loop as the step relation \<open>loop_step\<close>,
    in which other goroutines act between steps (\<open>background\<close>); the invariant \<open>loop_inv\<close> of the running
    process, and \<open>reach_inv\<close>, which also covers the process that has ended; one server at a time; the crash budget; and that steps only add to the history.
  \<^item> \<open>Failover\<close> (\<open>failover.go\<close>, \<open>state.go\<close>): one pass of the monitor, and \<open>monitored\<close>, its runs.
  \<^item> \<open>Backup\<close> (\<open>backup.go\<close>): backups, their names, retention and accounting.
  \<^item> \<open>Auth\<close> (\<open>auth.go\<close>), \<open>Metrics\<close> (\<open>db.go\<close>, \<open>metrics.go\<close>), \<open>Api\<close>, \<open>ApiProps\<close> (\<open>api.go\<close>,
    \<open>metrics_server.go\<close>): requests, checks, handlers, routes. The locale \<open>handover_channel\<close> is what
    a handler relies on when it hands a request to the main loop; every request is shown to be a run
    of \<open>loop_step\<close>, so the loop's invariant covers the API too.
  \<^item> \<open>Cluster\<close>: two nodes. What the peer answers during a handover is what its own handlers compute, and
    the role passes from one node to the other.
  \<^item> \<open>Service\<close> (\<open>service_windows.go\<close>): \<open>Execute\<close> as the step relation \<open>service_step\<close> over requests of the
    service manager, with the statuses it sends and the ticker that paces them. Its runs are runs of
    \<open>loop_step\<close>, so the loop's guarantees carry over; what the manager is told is in order.
  \<^item> \<open>Cli\<close>, \<open>CliProps\<close> (\<open>remotecli.go\<close>, \<open>main.go\<close>, \<open>service_stub.go\<close>): the commands, and that a command
    of the API reaches the handler of the running instance with the settings it finds by itself, where
    the instance listens on an address that 127.0.0.1 reaches (\<open>hears\<close>) and does not check origins.
  \<^item> \<open>Reaper\<close> (\<open>reaper_linux.go\<close>, \<open>child.go\<close>, \<open>reaper_stub.go\<close>): the step relation \<open>reaper_step\<close> of the reaper,
    its users and the kernel; each tracked child's exit code arrives once. That a received code stays
    (\<open>watched_code_stays\<close>) is what \<open>exit_of\<close> of \<open>World\<close> stands for.
  \<^item> \<open>Logging\<close> (\<open>log.go\<close>, \<open>supervisor.go\<close>): levels (a \<open>linorder\<close>), lines in both formats, and what is made
    of the server's output.
  \<^item> \<open>Help\<close> (\<open>main.go\<close>, \<open>version.go\<close>): the help text, whose commands are those \<open>main\<close> knows.
  \<^item> \<open>Windows\<close>, \<open>Install\<close> (\<open>detect_windows.go\<close>, \<open>service_install_windows.go\<close>): finding the server, the
    environment of the installed service, and registering it.

  \<^bold>\<open>Interfaces.\<close> \<open>poll_loop\<close> and its extension \<open>paced_loop\<close>, \<open>replaced_file\<close>, \<open>state_codec\<close>, \<open>upkeep_frame\<close> (a relation kept by each primitive of
  the server's upkeep is kept by all of it), \<open>stopper\<close> and its extension \<open>accounting_stopper\<close> (what
  the loop relies on when it stops a child), \<open>handover_channel\<close>; each is interpreted on the model's
  own operations.

  \<^bold>\<open>Bounds.\<close> Waiting loops are total functions, with the time left until the deadline as measure:
  each turn that goes on sleeps for a positive interval. There is no fuel but the number of members
  the JSON reader of \<open>Logging\<close> may take, which is the length of the line.

  \<^bold>\<open>Not modelled.\<close> Logging inside the operations (it has no effect on the state), the encoding of
  JSON and the digits of floats, the TLS protocol and the serving of connections (\<open>net/http\<close>), the
  constant time of the token comparison, the descriptions of the variables in the help text and of the
  metrics, the process group of the child, \<open>stopServers\<close>, which closes listeners of a process about to
  end, and what \<open>golang.org/x/sys\<close> does between \<open>Execute\<close> and the service manager. Paths are Unix paths
  but where only Windows uses them (\<open>pg_ctl.exe\<close>, the detected server). The service is shown with the
  configuration as \<open>loadConfig\<close> reads it, in which only the search for the server differs on Windows.
\<close>

end
